(* ===== verification/Prelude.thy ===== *)
theory Prelude
  imports Main "HOL-Library.Word" "HOL-Library.State_Monad"
begin

text \<open>
  Shared vocabulary of the development: the C types and constants the data-node sources use, the
  state monad that models their effects, and the generic lemmas on words, lists and runs of
  monadic code that the component theories share.

  A C function that changes state or calls out of \<^verbatim>\<open>services/data-node/spdk\<close> is a computation of
  \<^theory_text>\<open>HOL-Library.State_Monad\<close> over a record that extends \<open>world\<close>.  Every call that
  leaves the repository (libc, pthread, SPDK) is a value of the datatype \<open>call\<close>; what it
  returns is decided by the parameter \<open>env\<close>, an arbitrary function of all earlier calls and of
  the call itself, so a theorem that holds for all \<open>env\<close> holds whatever those libraries answer.
  The calls made so far are kept in \<open>log\<close>, which is what resource properties are stated on.
  \<open>aborted\<close> records a failed \<^verbatim>\<open>assert\<close>, an \<^verbatim>\<open>abort()\<close> or an access out of bounds; after it is
  set the rest of the run has no meaning, and the theorems show that it stays unset.
\<close>

unbundle bit_operations_syntax

subsection \<open>C types and constants\<close>

type_synonym u8 = "8 word"
type_synonym u32 = "32 word"
type_synonym u64 = "64 word"

text \<open>The sources are built for LP64 Linux: \<^verbatim>\<open>size_t\<close>, \<^verbatim>\<open>uintptr_t\<close> have 64 bits.\<close>

type_synonym size_t = "64 word"

text \<open>A \<^verbatim>\<open>struct spdk_thread *\<close> that is not \<^verbatim>\<open>NULL\<close>; a pointer that may be is an option.\<close>

type_synonym thread = nat

abbreviation UINT64_MAX :: u64 where "UINT64_MAX \<equiv> - 1"
abbreviation SIZE_MAX :: size_t where "SIZE_MAX \<equiv> - 1"
abbreviation UINT32_MAX :: u64 where "UINT32_MAX \<equiv> 0xFFFFFFFF"

abbreviation EPERM :: int where "EPERM \<equiv> 1"
abbreviation ENOENT :: int where "ENOENT \<equiv> 2"
abbreviation EIO :: int where "EIO \<equiv> 5"
abbreviation EBADF :: int where "EBADF \<equiv> 9"
abbreviation ENOMEM :: int where "ENOMEM \<equiv> 12"
abbreviation EBUSY :: int where "EBUSY \<equiv> 16"
abbreviation EEXIST :: int where "EEXIST \<equiv> 17"
abbreviation ENODEV :: int where "ENODEV \<equiv> 19"
abbreviation EINVAL :: int where "EINVAL \<equiv> 22"
abbreviation ERANGE :: int where "ERANGE \<equiv> 34"
abbreviation EDEADLK :: int where "EDEADLK \<equiv> 35"
abbreviation EOVERFLOW :: int where "EOVERFLOW \<equiv> 75"
abbreviation ENOTSUP :: int where "ENOTSUP \<equiv> 95"
abbreviation ESHUTDOWN :: int where "ESHUTDOWN \<equiv> 108"
abbreviation EALREADY :: int where "EALREADY \<equiv> 114"
abbreviation EINPROGRESS :: int where "EINPROGRESS \<equiv> 115"

subsection \<open>Resources and calls out of the repository\<close>

text \<open>
  What a run can hold and must give back: heap objects of the sources, and the SPDK handles they
  open.  Objects of which many exist carry a number, their identity.
\<close>

datatype (plugins only: code size) obj =
    Runtime_obj
  | Runtime_name
  | Runtime_reactor_mask
  | Runtime_json_data
  | Runtime_dispatcher_owners
  | Runtime_mutex
  | Runtime_condition
  | Endpoint_obj
  | Request_obj nat
  | Bdev_descriptor
  | Io_channel
  | Dispatcher_obj
  | Command_mutex
  | Command_condition
  | Dma_buffer
  | Name_copy
  | Batch_obj
  | Provider_obj
  | Provider_name
  | Provider_registration
  | Provider_buffer nat
  | Delete_request
  | Controller_obj
  | Controller_name
  | Controller_namespace_names
  | Attached_controller
  | Export_obj
  | Export_target_name
  | Export_nqn
  | Export_bdev_name
  | Export_serial_number
  | Export_model_number
  | Export_host_nqn
  | Nvmf_subsystem
  | Target_listener
  | Subsystem_listener

text \<open>The messages sent between SPDK threads, by the function that handles them.\<close>

datatype (plugins only: code size) msg =
    Stop_dispatcher_owner
  | Dispatcher_owner_stopped
  | Bind_dispatcher_owner
  | Stop_runtime
  | Run_command
  | Run_read_batch
  | Complete_provider_io_batch nat
  | Run_provider_command
  | Provider_start_delete
  | Run_attach
  | Run_detach
  | Run_create
  | Run_close

text \<open>The fields of \<^verbatim>\<open>struct spdk_app_opts\<close> that the sources set.\<close>

record app_options =
  ao_name :: "string option"
  ao_reactor_mask :: "string option"
  ao_rpc_addr :: "string option"
  ao_json_data :: "u8 list option"
  ao_json_data_size :: size_t
  ao_mem_size :: int
  ao_no_pci :: bool
  ao_no_huge :: bool
  ao_disable_signal_handlers :: bool
  ao_disable_cpumask_locks :: bool

text \<open>
  The operations a bdev provider forwards to its backend, and the results it completes an SPDK I/O with.
\<close>

datatype (plugins only: code size) provider_operation =
    PROVIDER_READ
  | PROVIDER_WRITE
  | PROVIDER_FLUSH
  | PROVIDER_RESET

datatype (plugins only: code size) bdev_io_status =
    IO_STATUS_SUCCESS
  | IO_STATUS_FAILED
  | IO_STATUS_NOMEM

text \<open>
  One constructor per libc, pthread or SPDK function the sources call for effect, with the
  arguments that matter.  \<^verbatim>\<open>Spdk_app_start\<close> answers 0 when the framework came up and called the
  start function, and otherwise the error \<^verbatim>\<open>spdk_app_start\<close> returns without calling it;
  \<^verbatim>\<open>Spdk_app_wait\<close> answers what it returns after the reactors stopped.  For an operation that SPDK
  finishes later, the constructor ending in \<open>callback\<close> answers the status it calls back with, and the
  one without it what starting the operation returned.
\<close>

datatype (plugins only: code size) call =
    Calloc obj
  | Malloc obj
  | Calloc_size obj size_t
  | Strdup obj
  | Free obj
  | Pthread_mutex_lock
  | Pthread_mutex_init
  | Pthread_mutex_destroy
  | Pthread_cond_init
  | Pthread_cond_destroy
  | Pthread_create
  | Pthread_join
  | Pthread_setcancelstate
  | Spdk_app_start app_options
  | Spdk_app_wait
  | Spdk_app_stop int
  | Spdk_app_fini
  | Spdk_thread_create u32
  | Spdk_thread_send_msg "thread option" msg
  | Spdk_thread_exit "thread option"
  | Spdk_thread_bind "thread option"
  | Spdk_bdev_open_ext string bool
  | Spdk_bdev_close
  | Spdk_bdev_get_io_channel
  | Spdk_put_io_channel
  | Spdk_bdev_read nat u64 u64 u64
  | Spdk_bdev_write nat u64 u64 u64
  | Spdk_bdev_flush nat u64 u64
  | Spdk_bdev_queue_io_wait nat
  | Spdk_bdev_free_io
  | Spdk_dma_malloc size_t size_t
  | Spdk_dma_zmalloc size_t size_t
  | Spdk_dma_free
  | Malloc_size obj size_t
  | Backend_submit provider_operation u64 u64 u64 nat
  | Spdk_bdev_io_complete nat bdev_io_status
  | Spdk_bdev_io_get_buf nat u64
  | Spdk_bdev_register
  | Spdk_bdev_unregister
  | Sched_yield
  | Spdk_io_device_register
  | Spdk_io_device_unregister
  | Spdk_bdev_module_fini_done
  | Spdk_get_io_channel
  | Spdk_bdev_nvme_create
  | Spdk_bdev_nvme_create_callback
  | Spdk_bdev_nvme_delete
  | Spdk_bdev_nvme_delete_callback
  | Spdk_nvmf_get_tgt
  | Spdk_nvmf_tgt_find_subsystem
  | Spdk_nvmf_subsystem_create_ext u32
  | Spdk_nvmf_subsystem_add_ns_ext u32
  | Spdk_nvmf_subsystem_set_allow_any_host
  | Spdk_nvmf_subsystem_add_host
  | Spdk_nvmf_tgt_listen_ext
  | Spdk_nvmf_subsystem_add_listener
  | Spdk_nvmf_subsystem_start
  | Spdk_nvmf_subsystem_start_callback
  | Spdk_nvmf_subsystem_stop
  | Spdk_nvmf_subsystem_stop_callback
  | Spdk_nvmf_subsystem_remove_listener
  | Spdk_nvmf_tgt_stop_listen
  | Spdk_nvmf_subsystem_destroy

type_synonym env = "call list \<Rightarrow> call \<Rightarrow> int"

record world =
  log :: "call list"
  aborted :: bool
  live :: "obj list"
  mailbox :: "(thread option \<times> msg) list"

subsection \<open>The state monad\<close>

abbreviation ret :: "'a \<Rightarrow> ('s, 'a) state" where
  "ret \<equiv> State_Monad.return"

definition gets :: "('s \<Rightarrow> 'a) \<Rightarrow> ('s, 'a) state" where
  "gets f = State (\<lambda>s. (f s, s))"

definition modify :: "('s \<Rightarrow> 's) \<Rightarrow> ('s, unit) state" where
  "modify f = State (\<lambda>s. ((), f s))"

text \<open>A call whose result the code reads, and one whose result it ignores.\<close>

definition ext :: "env \<Rightarrow> call \<Rightarrow> ('x world_scheme, int) state" where
  "ext env c = State (\<lambda>w. (env (log w) c, w\<lparr>log := log w @ [c]\<rparr>))"

definition emit :: "call \<Rightarrow> ('x world_scheme, unit) state" where
  "emit c = State (\<lambda>w. ((), w\<lparr>log := log w @ [c]\<rparr>))"

definition c_assert :: "bool \<Rightarrow> ('x world_scheme, unit) state" where
  "c_assert b = State (\<lambda>w. ((), if b then w else w\<lparr>aborted := True\<rparr>))"

abbreviation c_abort :: "('x world_scheme, unit) state" where
  "c_abort \<equiv> c_assert False"

text \<open>
  A resource is taken when a call returned it and given back once; giving back what is not held
  (a double free, a close of a closed handle) counts as an abort.
\<close>

definition hold :: "obj \<Rightarrow> ('x world_scheme, unit) state" where
  "hold x = State (\<lambda>w. ((), w\<lparr>live := x # live w\<rparr>))"

definition give_back :: "obj \<Rightarrow> ('x world_scheme, unit) state" where
  "give_back x = State (\<lambda>w. ((), if x \<in> set (live w) then w\<lparr>live := remove1 x (live w)\<rparr>
                                 else w\<lparr>aborted := True\<rparr>))"

text \<open>An allocation: \<^verbatim>\<open>NULL\<close> (\<open>False\<close>) when the library answers 0.\<close>

definition alloc :: "env \<Rightarrow> call \<Rightarrow> obj \<Rightarrow> ('x world_scheme, bool) state" where
  "alloc env c x = do {
     p \<leftarrow> ext env c;
     if p = 0 then ret False else do { hold x; ret True }
   }"

text \<open>\<^verbatim>\<open>free(p)\<close>, where the flag says whether \<open>p\<close> is not \<^verbatim>\<open>NULL\<close>.\<close>

definition free_ptr :: "bool \<Rightarrow> obj \<Rightarrow> ('x world_scheme, unit) state" where
  "free_ptr nonnull x = do { emit (Free x); if nonnull then give_back x else ret () }"

text \<open>
  \<^verbatim>\<open>spdk_thread_send_msg\<close>: a message that was accepted (0) waits in the mailbox until its
  thread takes it.
\<close>

definition send_msg :: "env \<Rightarrow> thread option \<Rightarrow> msg \<Rightarrow> ('x world_scheme, int) state" where
  "send_msg env t m = do {
     rc \<leftarrow> ext env (Spdk_thread_send_msg t m);
     if rc = 0 then do { modify (mailbox_update (\<lambda>ms. ms @ [(t, m)])); ret 0 } else ret rc
   }"

definition whenM :: "bool \<Rightarrow> ('s, unit) state \<Rightarrow> ('s, unit) state" where
  "whenM b m = (if b then m else ret ())"

text \<open>
  \<open>run_simps\<close> evaluates a computation on a state; the component theories add the equations of
  their own operations to it where that keeps proofs short.
\<close>

named_theorems run_simps

text \<open>A bind is evaluated on its first computation before its continuation is looked at.\<close>

declare prod.case_cong_weak [cong]

lemma run_gets [run_simps, simp]: "run_state (gets f) s = (f s, s)"
  by (simp add: gets_def)

lemma run_modify [run_simps, simp]: "run_state (modify f) s = ((), f s)"
  by (simp add: modify_def)

lemma run_ext [run_simps, simp]:
  "run_state (ext env c) w = (env (log w) c, w\<lparr>log := log w @ [c]\<rparr>)"
  by (simp add: ext_def)

lemma run_emit [run_simps, simp]: "run_state (emit c) w = ((), w\<lparr>log := log w @ [c]\<rparr>)"
  by (simp add: emit_def)

lemma run_c_assert [run_simps, simp]:
  "run_state (c_assert b) w = ((), if b then w else w\<lparr>aborted := True\<rparr>)"
  by (simp add: c_assert_def)

lemma run_hold [run_simps, simp]: "run_state (hold x) w = ((), w\<lparr>live := x # live w\<rparr>)"
  by (simp add: hold_def)

lemma run_give_back [run_simps]:
  "run_state (give_back x) w =
     ((), if x \<in> set (live w) then w\<lparr>live := remove1 x (live w)\<rparr> else w\<lparr>aborted := True\<rparr>)"
  by (simp add: give_back_def)

lemma run_give_back_held [simp]:
  "x \<in> set (live w) \<Longrightarrow> run_state (give_back x) w = ((), w\<lparr>live := remove1 x (live w)\<rparr>)"
  by (simp add: give_back_def)

lemma run_alloc [run_simps, simp]:
  "run_state (alloc env c x) w =
     (if env (log w) c = 0 then (False, w\<lparr>log := log w @ [c]\<rparr>)
      else (True, w\<lparr>log := log w @ [c], live := x # live w\<rparr>))"
  by (simp add: alloc_def)

lemma run_alloc_cond:
  "run_state (alloc env c x) w =
     (env (log w) c \<noteq> 0, w\<lparr>log := log w @ [c], live := (if env (log w) c = 0 then live w else x # live w)\<rparr>)"
  by simp

lemma run_free_null [run_simps, simp]:
  "run_state (free_ptr False x) w = ((), w\<lparr>log := log w @ [Free x]\<rparr>)"
  by (simp add: free_ptr_def)

lemma run_free_held [simp]:
  "x \<in> set (live w) \<Longrightarrow>
   run_state (free_ptr True x) w = ((), w\<lparr>log := log w @ [Free x], live := remove1 x (live w)\<rparr>)"
  by (simp add: free_ptr_def)

lemma run_send_msg [run_simps, simp]:
  "run_state (send_msg env t m) w =
     (let rc = env (log w) (Spdk_thread_send_msg t m);
          w' = w\<lparr>log := log w @ [Spdk_thread_send_msg t m]\<rparr>
      in (rc, if rc = 0 then w'\<lparr>mailbox := mailbox w @ [(t, m)]\<rparr> else w'))"
  by (simp add: send_msg_def Let_def)

lemma run_whenM [run_simps, simp]:
  "run_state (whenM b m) s = (if b then run_state m s else ((), s))"
  by (simp add: whenM_def)

lemma run_if [run_simps, simp]:
  "run_state (if b then m else n) s = (if b then run_state m s else run_state n s)"
  by simp

text \<open>The result and the final state of a run.\<close>

abbreviation result :: "('s, 'a) state \<Rightarrow> 's \<Rightarrow> 'a" where
  "result m s \<equiv> fst (run_state m s)"

abbreviation final :: "('s, 'a) state \<Rightarrow> 's \<Rightarrow> 's" where
  "final m s \<equiv> snd (run_state m s)"

subsection \<open>Counting calls in a log\<close>

definition calls :: "(call \<Rightarrow> bool) \<Rightarrow> call list \<Rightarrow> nat" where
  "calls P cs = length (filter P cs)"

lemma calls_Nil [simp]: "calls P [] = 0"
  by (simp add: calls_def)

lemma calls_Cons [simp]: "calls P (c # cs) = (if P c then Suc (calls P cs) else calls P cs)"
  by (simp add: calls_def)

lemma calls_append [simp]: "calls P (xs @ ys) = calls P xs + calls P ys"
  by (simp add: calls_def)

text \<open>SPDK accepts every message that is sent.\<close>

definition sends_accepted :: "env \<Rightarrow> bool" where
  "sends_accepted env \<longleftrightarrow> (\<forall>l t m. env l (Spdk_thread_send_msg t m) = 0)"

subsection \<open>Words\<close>

lemma unat_add_of_nat_one: "unat (w + 1) = Suc (unat w)" if "w \<noteq> (- 1 :: 'a::len word)"
proof -
  have "1 + w \<noteq> 0"
    using that by (metis add_eq_0_iff)
  then show ?thesis
    by (simp add: unatSuc add.commute)
qed

lemma unat_mult_le_max_div:
  fixes c s :: u64
  assumes "s \<noteq> 0" and "c \<le> UINT64_MAX div s"
  shows "unat (c * s) = unat c * unat s"
proof -
  have "unat c \<le> unat UINT64_MAX div unat s"
    using assms(2) by (simp add: word_le_nat_alt unat_div)
  then have "unat c * unat s \<le> (unat UINT64_MAX div unat s) * unat s"
    by (rule mult_le_mono1)
  also have "\<dots> \<le> unat UINT64_MAX"
    by simp
  finally have "unat c * unat s < 2 ^ 64"
    by (simp add: unsigned_minus_1_eq_mask mask_eq_exp_minus_1)
  then show ?thesis
    by (simp add: unat_word_ariths)
qed

lemma max_div_less_mult_overflow:
  fixes c s :: u64
  assumes "s \<noteq> 0" and "\<not> c \<le> UINT64_MAX div s"
  shows "2 ^ 64 \<le> unat c * unat s"
proof -
  have s: "0 < unat s"
    using assms(1) by (simp add: unat_gt_0)
  have "unat UINT64_MAX div unat s < unat c"
    using assms(2) by (simp add: word_le_nat_alt unat_div)
  then have "unat UINT64_MAX < unat c * unat s"
    using s by (simp add: div_less_iff_less_mult)
  then show ?thesis
    by (simp add: unsigned_minus_1_eq_mask mask_eq_exp_minus_1)
qed

lemma unat_diff_le: "b \<le> a \<Longrightarrow> unat (a - b) = unat a - unat (b :: 'a::len word)"
  by (simp add: unat_sub)

text \<open>The range check \<^verbatim>\<open>offset > capacity || length > capacity - offset\<close>, which never wraps.\<close>

lemma range_check_iff:
  fixes offset len capacity :: u64
  shows "\<not> (offset > capacity \<or> len > capacity - offset) \<longleftrightarrow> unat offset + unat len \<le> unat capacity"
  by (auto simp: word_le_nat_alt word_less_nat_alt not_less unat_sub)

lemma of_nat_eq_0_u64: "n < 2 ^ 64 \<Longrightarrow> (of_nat n :: u64) = 0 \<longleftrightarrow> n = 0"
  by (auto simp: word_of_nat_eq_0_iff dest: dvd_imp_le)

lemma of_nat_gt_0_u64: "n < 2 ^ 64 \<Longrightarrow> 0 < (of_nat n :: u64) \<longleftrightarrow> 0 < n"
  using of_nat_eq_0_u64 [of n] by (simp add: word_neq_0_conv [symmetric])

lemma unat_ucast_u32_u64 [simp]: "unat (ucast (x :: u32) :: u64) = unat x"
proof -
  have "unat x < 2 ^ 64"
    using unsigned_less [of x, where ?'a = nat] by simp
  then show ?thesis
    by (simp add: unsigned_ucast_eq take_bit_nat_eq_self)
qed

lemma ucast_u32_u64_eq_0 [simp]: "(ucast (x :: u32) :: u64) = 0 \<longleftrightarrow> x = 0"
  by (metis unat_ucast_u32_u64 unat_eq_0)

lemma word_mod_eq_0_iff_dvd: "(a :: 'a::len word) mod b = 0 \<longleftrightarrow> unat b dvd unat a"
  by (metis unat_mod unat_eq_0 mod_eq_0_iff_dvd)

lemma dvd_div_mod_iff:
  fixes a b c :: nat
  assumes "b dvd a" and "0 < b"
  shows "c dvd a div b \<longleftrightarrow> b * c dvd a"
  using assms by auto

lemma word_add_less_diff:
  fixes k n i :: "'a::len word"
  assumes "k \<le> n" and "i < n - k"
  shows "k + i < n \<and> k \<le> k + i"
proof -
  have "unat k + unat i < unat n"
    using assms by (simp add: word_less_nat_alt word_le_nat_alt unat_diff_le)
  moreover from this have "unat (k + i) = unat k + unat i"
    by (simp add: unat_word_ariths) (metis mod_less order_less_trans unsigned_less)
  ultimately show ?thesis
    by (simp add: word_less_nat_alt word_le_nat_alt)
qed

lemma word_all_less_split:
  fixes k n :: "'a::len word"
  assumes "k \<le> n"
  shows "(\<forall>i < n. P i) \<longleftrightarrow> (\<forall>i < k. P i) \<and> (\<forall>i < n - k. P (k + i))"
proof (intro iffI conjI allI impI)
  fix i assume "\<forall>i < n. P i" and "i < n - k"
  with word_add_less_diff [OF assms this(2)] show "P (k + i)" by blast
next
  fix i assume P: "(\<forall>i < k. P i) \<and> (\<forall>i < n - k. P (k + i))" and i: "i < n"
  show "P i"
  proof (cases "i < k")
    case False
    then have "i - k < n - k"
      using i assms by (simp add: word_less_nat_alt word_le_nat_alt unat_diff_le)
    with P have "P (k + (i - k))" by blast
    then show ?thesis by simp
  qed (use P in blast)
qed (use assms in auto)

lemma unat_of_nat_u64: "n < 2 ^ 64 \<Longrightarrow> unat (of_nat n :: u64) = n"
  by (simp add: unsigned_of_nat take_bit_nat_eq_self)

end
