(* ===== verification/Runtime.thy ===== *)
theory Runtime
  imports Prelude "HOL-Library.Multiset"
begin

text \<open>
  \<^verbatim>\<open>runtime.c\<close>: the process-wide SPDK runtime.  Its state is the record \<open>runtime\<close>; the runtime
  thread, the reactor threads that own dispatchers, and the callers of the public functions all
  work on it.  A section of code that holds \<^verbatim>\<open>runtime->mutex\<close> is one function or one step here;
  the locking calls themselves, whose failure the code asserts away, are not repeated.
\<close>

subsection \<open>State\<close>

datatype runtime_state =
    RUNTIME_STARTING | RUNTIME_READY | RUNTIME_STOPPING | RUNTIME_STOPPED | RUNTIME_FAILED

record runtime_opts =
  ro_opts_size :: size_t
  ro_name :: "string option"
  ro_reactor_mask :: "string option"
  ro_json_data :: "u8 list option"
  ro_json_data_size :: size_t
  ro_mem_size_mb :: int
  ro_no_pci :: bool
  ro_no_huge :: bool
  ro_disable_signal_handlers :: bool
  ro_disable_cpumask_locks :: bool
  ro_retired_vhost_socket_path :: "string option"

text \<open>\<^verbatim>\<open>sizeof(struct zettide_spdk_runtime_opts)\<close> under LP64: five words, an int with four bools, a pointer.\<close>

definition sizeof_runtime_opts :: size_t where
  "sizeof_runtime_opts = 56"

record runtime =
  rt_state :: runtime_state
  rt_owner :: "thread option"
  rt_dispatcher_owners :: "thread option list option"
  rt_dispatcher_owner_count :: size_t
  rt_next_dispatcher_owner :: size_t
  rt_dispatcher_owners_stopping :: size_t
  rt_active_leases :: size_t
  rt_app_status :: int
  rt_name :: "string option"
  rt_reactor_mask :: "string option"
  rt_json_data :: "u8 list option"
  rt_json_data_size :: size_t
  rt_mem_size_mb :: int
  rt_no_pci :: bool
  rt_no_huge :: bool
  rt_disable_cpumask_locks :: bool

text \<open>
  The object behind the \<^verbatim>\<open>struct zettide_spdk_runtime *\<close>, the global \<^verbatim>\<open>g_runtime_active\<close>, and
  whether the runtime thread has left \<^verbatim>\<open>run_runtime\<close>.
\<close>

record rt_world = world +
  rt :: runtime
  g_runtime_active :: bool
  thread_done :: bool

definition modify_rt :: "(runtime \<Rightarrow> runtime) \<Rightarrow> ('x rt_world_scheme, unit) state" where
  "modify_rt f = State (\<lambda>w. ((), w\<lparr>rt := f (rt w)\<rparr>))"

lemma run_modify_rt [run_simps, simp]: "run_state (modify_rt f) w = ((), w\<lparr>rt := f (rt w)\<rparr>)"
  by (simp add: modify_rt_def)

subsection \<open>Reactor threads that own dispatchers\<close>

definition dispatcher_owner_stopped :: "thread option \<Rightarrow> ('x rt_world_scheme, unit) state" where
  "dispatcher_owner_stopped self = do {
     r \<leftarrow> gets rt;
     c_assert (self = rt_owner r);
     c_assert (rt_dispatcher_owners_stopping r > 0);
     modify_rt (\<lambda>r. r\<lparr>rt_dispatcher_owners_stopping := rt_dispatcher_owners_stopping r - 1\<rparr>);
     r \<leftarrow> gets rt;
     if rt_dispatcher_owners_stopping r = 0 then emit (Spdk_app_stop (rt_app_status r)) else ret ()
   }"

definition stop_dispatcher_owner :: "env \<Rightarrow> thread option \<Rightarrow> ('x rt_world_scheme, unit) state" where
  "stop_dispatcher_owner env self = do {
     emit (Spdk_thread_exit self);
     r \<leftarrow> gets rt;
     status \<leftarrow> send_msg env (rt_owner r) Dispatcher_owner_stopped;
     if status \<noteq> 0 then emit (Spdk_app_stop status) else ret ()
   }"

text \<open>The loop over \<^verbatim>\<open>dispatcher_owners[1 .. count - 1]\<close>.\<close>

fun stop_owners_loop :: "env \<Rightarrow> thread option list \<Rightarrow> ('x rt_world_scheme, unit) state" where
  "stop_owners_loop env [] = ret ()"
| "stop_owners_loop env (t # ts) = do {
     status \<leftarrow> send_msg env t Stop_dispatcher_owner;
     if status \<noteq> 0 then emit (Spdk_app_stop status) else stop_owners_loop env ts
   }"

definition owner_slots :: "runtime \<Rightarrow> thread option list" where
  "owner_slots r = (case rt_dispatcher_owners r of None \<Rightarrow> [] | Some ts \<Rightarrow> ts)"

text \<open>\<^verbatim>\<open>dispatcher_owners[1 .. count - 1]\<close>: all owners but the application thread.\<close>

definition secondary_owners :: "runtime \<Rightarrow> thread option list" where
  "secondary_owners r = drop 1 (take (unat (rt_dispatcher_owner_count r)) (owner_slots r))"

definition stop_dispatcher_owners :: "env \<Rightarrow> thread option \<Rightarrow> ('x rt_world_scheme, unit) state" where
  "stop_dispatcher_owners env self = do {
     r \<leftarrow> gets rt;
     c_assert (self = rt_owner r);
     c_assert (rt_dispatcher_owners_stopping r = 0);
     if rt_dispatcher_owner_count r < 2 then emit (Spdk_app_stop (rt_app_status r))
     else do {
       modify_rt (\<lambda>r. r\<lparr>rt_dispatcher_owners_stopping := rt_dispatcher_owner_count r - 1\<rparr>);
       stop_owners_loop env (secondary_owners r)
     }
   }"

definition bind_dispatcher_owner :: "thread option \<Rightarrow> ('x world_scheme, unit) state" where
  "bind_dispatcher_owner self = emit (Spdk_thread_bind self)"

text \<open>
  \<^verbatim>\<open>runtime->dispatcher_owners[runtime->dispatcher_owner_count++] = thread\<close>; a store past the end
  of the array is an abort.
\<close>

definition push_dispatcher_owner :: "thread option \<Rightarrow> ('x rt_world_scheme, unit) state" where
  "push_dispatcher_owner t = do {
     r \<leftarrow> gets rt;
     c_assert (unat (rt_dispatcher_owner_count r) < length (owner_slots r));
     modify_rt (\<lambda>r. r\<lparr>
       rt_dispatcher_owners := map_option (\<lambda>ts. ts[unat (rt_dispatcher_owner_count r) := t])
                                 (rt_dispatcher_owners r),
       rt_dispatcher_owner_count := rt_dispatcher_owner_count r + 1\<rparr>)
   }"

text \<open>\<^verbatim>\<open>SPDK_ENV_FOREACH_CORE\<close> visits the cores of the application's mask in turn.\<close>

fun create_owners_loop :: "env \<Rightarrow> u32 \<Rightarrow> u32 list \<Rightarrow> ('x rt_world_scheme, int) state" where
  "create_owners_loop env app_core [] = ret 0"
| "create_owners_loop env app_core (core # cores) =
     (if core = app_core then create_owners_loop env app_core cores
      else do {
        p \<leftarrow> ext env (Spdk_thread_create core);
        if p = 0 then ret (- ENOMEM)
        else do {
          let thread = Some (nat \<bar>p\<bar>);
          push_dispatcher_owner thread;
          status \<leftarrow> send_msg env thread Bind_dispatcher_owner;
          if status \<noteq> 0 then ret status else create_owners_loop env app_core cores
        }
      })"

definition create_dispatcher_owners :: "env \<Rightarrow> u32 \<Rightarrow> u32 list \<Rightarrow> ('x rt_world_scheme, int) state" where
  "create_dispatcher_owners env app_core cores = do {
     ok \<leftarrow> alloc env (Calloc Runtime_dispatcher_owners) Runtime_dispatcher_owners;
     if \<not> ok then ret (- ENOMEM)
     else do {
       modify_rt (\<lambda>r. r\<lparr>
         rt_dispatcher_owners := Some ((replicate (length cores) None)[0 := rt_owner r]),
         rt_dispatcher_owner_count := 1\<rparr>);
       create_owners_loop env app_core cores
     }
   }"

subsection \<open>The runtime thread\<close>

definition release_process_slot :: "('x rt_world_scheme, unit) state" where
  "release_process_slot = do {
     active \<leftarrow> gets g_runtime_active;
     c_assert active;
     modify (g_runtime_active_update (\<lambda>_. False))
   }"

text \<open>The start function, run on the application thread \<open>self\<close>.\<close>

definition runtime_started ::
    "env \<Rightarrow> thread option \<Rightarrow> u32 \<Rightarrow> u32 list \<Rightarrow> ('x rt_world_scheme, unit) state" where
  "runtime_started env self app_core cores = do {
     modify_rt (\<lambda>r. r\<lparr>rt_owner := self\<rparr>);
     status \<leftarrow> (if self = None then ret (- EIO) else create_dispatcher_owners env app_core cores);
     r \<leftarrow> gets rt;
     c_assert (rt_state r = RUNTIME_STARTING);
     (if status = 0 then modify_rt (\<lambda>r. r\<lparr>rt_state := RUNTIME_READY\<rparr>)
      else modify_rt (\<lambda>r. r\<lparr>rt_app_status := status\<rparr>));
     if status \<noteq> 0 then
       (if self = None then emit (Spdk_app_stop status) else stop_dispatcher_owners env self)
     else ret ()
   }"

text \<open>What \<^verbatim>\<open>run_runtime\<close> does once \<^verbatim>\<open>spdk_app_start\<close> has returned \<open>status\<close>.\<close>

definition run_runtime_exit :: "int \<Rightarrow> ('x rt_world_scheme, unit) state" where
  "run_runtime_exit status = do {
     modify_rt (\<lambda>r. r\<lparr>rt_app_status := status, rt_owner := None\<rparr>);
     r \<leftarrow> gets rt;
     (if rt_state r = RUNTIME_STARTING then
        modify_rt (\<lambda>r. r\<lparr>rt_state := RUNTIME_FAILED\<rparr>)
      else if rt_state r = RUNTIME_STOPPING then ret ()
      else do {
        c_assert (rt_state r = RUNTIME_READY);
        modify_rt (\<lambda>r. r\<lparr>rt_state := RUNTIME_FAILED\<rparr>)
      });
     emit Spdk_app_fini;
     modify (thread_done_update (\<lambda>_. True))
   }"

definition app_options_of :: "runtime \<Rightarrow> app_options" where
  "app_options_of r = \<lparr>
     ao_name = rt_name r, ao_reactor_mask = rt_reactor_mask r, ao_rpc_addr = None,
     ao_json_data = rt_json_data r, ao_json_data_size = rt_json_data_size r,
     ao_mem_size = rt_mem_size_mb r, ao_no_pci = rt_no_pci r, ao_no_huge = rt_no_huge r,
     ao_disable_signal_handlers = True, ao_disable_cpumask_locks = rt_disable_cpumask_locks r\<rparr>"

text \<open>
  The runtime thread until the caller of start looks at the state: it published \<^verbatim>\<open>RUNTIME_READY\<close> and
  stays in the reactor loop, or it is done; \<open>leave\<close> says that the reactors stopped right after it
  became ready.
\<close>

definition run_runtime ::
    "env \<Rightarrow> bool \<Rightarrow> thread option \<Rightarrow> u32 \<Rightarrow> u32 list \<Rightarrow> ('x rt_world_scheme, unit) state" where
  "run_runtime env leave self app_core cores = do {
     r \<leftarrow> gets rt;
     rc \<leftarrow> ext env (Spdk_app_start (app_options_of r));
     if rc \<noteq> 0 then run_runtime_exit rc
     else do {
       runtime_started env self app_core cores;
       r \<leftarrow> gets rt;
       if rt_state r = RUNTIME_READY \<and> \<not> leave then ret ()
       else do { status \<leftarrow> ext env Spdk_app_wait; run_runtime_exit status }
     }
   }"

definition stop_runtime :: "env \<Rightarrow> thread option \<Rightarrow> ('x rt_world_scheme, unit) state" where
  "stop_runtime env self = stop_dispatcher_owners env self"

subsection \<open>Start, stop, destroy\<close>

definition free_runtime_fields :: "('x rt_world_scheme, unit) state" where
  "free_runtime_fields = do {
     r \<leftarrow> gets rt;
     free_ptr (rt_dispatcher_owners r \<noteq> None) Runtime_dispatcher_owners;
     free_ptr (rt_json_data r \<noteq> None) Runtime_json_data;
     free_ptr (rt_reactor_mask r \<noteq> None) Runtime_reactor_mask;
     free_ptr (rt_name r \<noteq> None) Runtime_name
   }"

definition free_runtime :: "('x rt_world_scheme, unit) state" where
  "free_runtime = do {
     free_runtime_fields;
     emit Pthread_cond_destroy; give_back Runtime_condition;
     emit Pthread_mutex_destroy; give_back Runtime_mutex;
     free_ptr True Runtime_obj
   }"

text \<open>The object as \<^verbatim>\<open>calloc\<close> returns it.\<close>

definition zero_runtime :: runtime where
  "zero_runtime = \<lparr>rt_state = RUNTIME_STARTING, rt_owner = None, rt_dispatcher_owners = None,
     rt_dispatcher_owner_count = 0, rt_next_dispatcher_owner = 0, rt_dispatcher_owners_stopping = 0,
     rt_active_leases = 0, rt_app_status = 0, rt_name = None, rt_reactor_mask = None,
     rt_json_data = None, rt_json_data_size = 0, rt_mem_size_mb = 0, rt_no_pci = False,
     rt_no_huge = False, rt_disable_cpumask_locks = False\<rparr>"

definition start_args_invalid :: "runtime_opts option \<Rightarrow> bool \<Rightarrow> bool" where
  "start_args_invalid opts runtime_out =
     (case opts of
        None \<Rightarrow> True
      | Some ro \<Rightarrow> \<not> runtime_out \<or> ro_opts_size ro \<noteq> sizeof_runtime_opts \<or> ro_name ro = None \<or>
          \<not> ro_disable_signal_handlers ro \<or> ro_retired_vhost_socket_path ro \<noteq> None \<or>
          (ro_json_data ro = None \<and> ro_json_data_size ro \<noteq> 0))"

text \<open>Copying the caller's strings and configuration into the new object (lines 303 to 324).\<close>

definition copy_runtime_opts :: "env \<Rightarrow> runtime_opts \<Rightarrow> ('x rt_world_scheme, bool) state" where
  "copy_runtime_opts env ro = do {
     name_ok \<leftarrow> alloc env (Strdup Runtime_name) Runtime_name;
     mask_ok \<leftarrow> (if ro_reactor_mask ro = None then ret False
                else alloc env (Strdup Runtime_reactor_mask) Runtime_reactor_mask);
     json_ok \<leftarrow> (if ro_json_data_size ro = 0 then ret False
                else alloc env (Malloc Runtime_json_data) Runtime_json_data);
     modify_rt (\<lambda>r. r\<lparr>
       rt_name := (if name_ok then ro_name ro else None),
       rt_reactor_mask := (if mask_ok then ro_reactor_mask ro else None),
       rt_json_data := (if json_ok then map_option (take (unat (ro_json_data_size ro))) (ro_json_data ro)
                        else None)\<rparr>);
     if \<not> name_ok \<or> (ro_reactor_mask ro \<noteq> None \<and> \<not> mask_ok) \<or>
        (ro_json_data_size ro \<noteq> 0 \<and> \<not> json_ok)
     then ret False
     else do {
       modify_rt (\<lambda>r. r\<lparr>
         rt_json_data_size := ro_json_data_size ro, rt_mem_size_mb := ro_mem_size_mb ro,
         rt_no_pci := ro_no_pci ro, rt_no_huge := ro_no_huge ro,
         rt_disable_cpumask_locks := ro_disable_cpumask_locks ro,
         rt_state := RUNTIME_STARTING\<rparr>);
       ret True
     }
   }"

text \<open>
  Lines 340 to 371 of \<^verbatim>\<open>zettide_spdk_runtime_start\<close>.  While the caller waits for the state to leave
  \<^verbatim>\<open>RUNTIME_STARTING\<close> the runtime thread runs; \<open>self\<close>, \<open>app_core\<close> and \<open>cores\<close> are the application
  thread, its core and the core mask that SPDK chose.  The result is the status and whether
  \<^verbatim>\<open>*runtime_out\<close> is the new runtime.
\<close>

definition start_thread ::
    "env \<Rightarrow> bool \<Rightarrow> thread option \<Rightarrow> u32 \<Rightarrow> u32 list \<Rightarrow> ('x rt_world_scheme, int \<times> bool) state" where
  "start_thread env leave self app_core cores = do {
     rc \<leftarrow> ext env Pthread_create;
     if rc \<noteq> 0 then do { free_runtime; release_process_slot; ret (- rc, False) }
     else do {
       emit Pthread_setcancelstate;
       run_runtime env leave self app_core cores;
       r \<leftarrow> gets rt;
       let status = (if rt_state r = RUNTIME_READY then 0
                     else if rt_app_status r \<noteq> 0 then rt_app_status r else - EIO);
       if status \<noteq> 0 then do {
         emit Pthread_join; free_runtime; release_process_slot; emit Pthread_setcancelstate;
         ret (status, False)
       } else do { emit Pthread_setcancelstate; ret (0, True) }
     }
   }"

text \<open>Lines 298 to 339: the object, its strings, its mutex and its condition variable.\<close>

definition start_object ::
    "env \<Rightarrow> bool \<Rightarrow> thread option \<Rightarrow> u32 \<Rightarrow> u32 list \<Rightarrow> runtime_opts \<Rightarrow>
     ('x rt_world_scheme, int \<times> bool) state" where
  "start_object env leave self app_core cores ro = do {
     ok \<leftarrow> alloc env (Calloc Runtime_obj) Runtime_obj;
     if \<not> ok then do { release_process_slot; ret (- ENOMEM, False) }
     else do {
       modify_rt (\<lambda>_. zero_runtime);
       modify (thread_done_update (\<lambda>_. False));
       copied \<leftarrow> copy_runtime_opts env ro;
       if \<not> copied then do {
         free_runtime_fields; free_ptr True Runtime_obj; release_process_slot; ret (- ENOMEM, False)
       } else do {
         rc \<leftarrow> ext env Pthread_mutex_init;
         if rc \<noteq> 0 then do {
           free_runtime_fields; free_ptr True Runtime_obj; release_process_slot; ret (- rc, False)
         } else do {
           hold Runtime_mutex;
           rc \<leftarrow> ext env Pthread_cond_init;
           if rc \<noteq> 0 then do {
             emit Pthread_mutex_destroy; give_back Runtime_mutex;
             free_runtime_fields; free_ptr True Runtime_obj; release_process_slot; ret (- rc, False)
           } else do {
             hold Runtime_condition;
             start_thread env leave self app_core cores
           }
         }
       }
     }
   }"

text \<open>The flag \<open>runtime_out\<close> says whether the out pointer is given.\<close>

definition zettide_spdk_runtime_start ::
    "env \<Rightarrow> bool \<Rightarrow> thread option \<Rightarrow> u32 \<Rightarrow> u32 list \<Rightarrow> runtime_opts option \<Rightarrow> bool \<Rightarrow>
     ('x rt_world_scheme, int \<times> bool) state" where
  "zettide_spdk_runtime_start env leave self app_core cores opts runtime_out =
     (if start_args_invalid opts runtime_out then ret (- EINVAL, False)
      else do {
        rc \<leftarrow> ext env Pthread_mutex_lock;
        if rc \<noteq> 0 then ret (- rc, False)
        else do {
          active \<leftarrow> gets g_runtime_active;
          if active then ret (- EBUSY, False)
          else do {
            modify (g_runtime_active_update (\<lambda>_. True));
            start_object env leave self app_core cores (the opts)
          }
        }
      })"

text \<open>
  The first critical section of \<^verbatim>\<open>zettide_spdk_runtime_stop\<close>: either the function returns at once
  with a status, or the caller becomes the stopping thread and notifies \<open>owner\<close>.
\<close>

definition runtime_stop_enter :: "runtime \<Rightarrow> int option \<times> thread option \<times> runtime" where
  "runtime_stop_enter r =
     (case rt_state r of
        RUNTIME_STOPPED \<Rightarrow> (Some 0, None, r)
      | RUNTIME_FAILED \<Rightarrow>
          (if rt_active_leases r \<noteq> 0 then (Some (- EIO), None, r)
           else (None, None, r\<lparr>rt_state := RUNTIME_STOPPING\<rparr>))
      | RUNTIME_READY \<Rightarrow>
          (if rt_active_leases r \<noteq> 0 then (Some (- EBUSY), None, r)
           else (None, rt_owner r, r\<lparr>rt_state := RUNTIME_STOPPING\<rparr>))
      | _ \<Rightarrow> (Some (- EALREADY), None, r))"

text \<open>The section after a refused notification, and the one after the join.\<close>

definition runtime_stop_resume :: "('x rt_world_scheme, unit) state" where
  "runtime_stop_resume = modify_rt (\<lambda>r. r\<lparr>rt_state := RUNTIME_READY\<rparr>)"

definition runtime_stop_finish :: "('x rt_world_scheme, int) state" where
  "runtime_stop_finish = do {
     emit Pthread_join;
     r \<leftarrow> gets rt;
     c_assert (rt_state r = RUNTIME_STOPPING);
     modify_rt (\<lambda>r. r\<lparr>rt_state := RUNTIME_STOPPED\<rparr>);
     release_process_slot;
     ret (rt_app_status r)
   }"

text \<open>
  \<^verbatim>\<open>zettide_spdk_runtime_stop\<close>.  \<open>runtime\<close>: the pointer is not \<^verbatim>\<open>NULL\<close>; \<open>on_runtime_thread\<close>: the
  caller is \<^verbatim>\<open>runtime->thread\<close>.  The join waits for the runtime thread, which leaves the reactor
  loop here unless it had already left it.
\<close>

definition zettide_spdk_runtime_stop ::
    "env \<Rightarrow> bool \<Rightarrow> bool \<Rightarrow> ('x rt_world_scheme, int) state" where
  "zettide_spdk_runtime_stop env runtime on_runtime_thread =
     (if \<not> runtime then ret (- EINVAL)
      else if on_runtime_thread then ret (- EDEADLK)
      else do {
        rc \<leftarrow> ext env Pthread_setcancelstate;
        if rc \<noteq> 0 then ret (- rc)
        else do {
          r \<leftarrow> gets rt;
          let (early, owner, r') = runtime_stop_enter r;
          modify_rt (\<lambda>_. r');
          case early of
            Some status \<Rightarrow> do { emit Pthread_setcancelstate; ret status }
          | None \<Rightarrow> do {
              rc \<leftarrow> (if owner \<noteq> None then send_msg env owner Stop_runtime else ret 0);
              if rc \<noteq> 0 \<and> owner \<noteq> None then do {
                runtime_stop_resume; emit Pthread_setcancelstate; ret rc
              } else do {
                done \<leftarrow> gets thread_done;
                (if done then ret ()
                 else do { status \<leftarrow> ext env Spdk_app_wait; run_runtime_exit status });
                status \<leftarrow> runtime_stop_finish;
                emit Pthread_setcancelstate;
                ret status
              }
            }
        }
      })"

definition zettide_spdk_runtime_destroy :: "bool \<Rightarrow> ('x rt_world_scheme, int) state" where
  "zettide_spdk_runtime_destroy runtime =
     (if \<not> runtime then ret (- EINVAL)
      else do {
        r \<leftarrow> gets rt;
        if rt_state r \<noteq> RUNTIME_STOPPED then ret (- EBUSY)
        else do { free_runtime; ret 0 }
      })"

subsection \<open>Leases\<close>

text \<open>
  The flags say that the runtime and the out pointer are not \<^verbatim>\<open>NULL\<close>.  The result is the status,
  \<^verbatim>\<open>*owner_out\<close> and the runtime; \<open>None\<close> is a failed assertion or an index out of bounds.
\<close>

type_synonym lease_result = "(int \<times> thread option \<times> runtime) option"

definition zettide_spdk_runtime_acquire :: "bool \<Rightarrow> bool \<Rightarrow> runtime \<Rightarrow> lease_result" where
  "zettide_spdk_runtime_acquire runtime owner_out r =
     (if \<not> runtime \<or> \<not> owner_out then Some (- EINVAL, None, r)
      else if rt_state r \<noteq> RUNTIME_READY then Some (- ESHUTDOWN, None, r)
      else Some (0, rt_owner r, r\<lparr>rt_active_leases := rt_active_leases r + 1\<rparr>))"

definition zettide_spdk_runtime_acquire_dispatcher :: "bool \<Rightarrow> bool \<Rightarrow> runtime \<Rightarrow> lease_result" where
  "zettide_spdk_runtime_acquire_dispatcher runtime owner_out r =
     (if \<not> runtime \<or> \<not> owner_out then Some (- EINVAL, None, r)
      else if rt_state r \<noteq> RUNTIME_READY then Some (- ESHUTDOWN, None, r)
      else if \<not> rt_dispatcher_owner_count r > 0 then None
      else if \<not> unat (rt_next_dispatcher_owner r) < length (owner_slots r) then None
      else Some (0, owner_slots r ! unat (rt_next_dispatcher_owner r),
             r\<lparr>rt_next_dispatcher_owner :=
                 (rt_next_dispatcher_owner r + 1) mod rt_dispatcher_owner_count r,
               rt_active_leases := rt_active_leases r + 1\<rparr>))"

definition zettide_spdk_runtime_release :: "runtime \<Rightarrow> runtime option" where
  "zettide_spdk_runtime_release r =
     (if rt_active_leases r > 0 then Some (r\<lparr>rt_active_leases := rt_active_leases r - 1\<rparr>) else None)"

text \<open>A client that takes \<open>k\<close> dispatcher leases in a row, with the owners it was given.\<close>

fun acquire_dispatchers :: "nat \<Rightarrow> runtime \<Rightarrow> (thread option list \<times> runtime) option" where
  "acquire_dispatchers 0 r = Some ([], r)"
| "acquire_dispatchers (Suc k) r =
     (case zettide_spdk_runtime_acquire_dispatcher True True r of
        Some (status, owner, r') \<Rightarrow>
          (if status \<noteq> 0 then None
           else map_option (\<lambda>(owners, r''). (owner # owners, r'')) (acquire_dispatchers k r'))
      | None \<Rightarrow> None)"

text \<open>The owner table is usable: the round-robin index is inside it.\<close>

definition wf_owners :: "runtime \<Rightarrow> bool" where
  "wf_owners r \<longleftrightarrow> rt_next_dispatcher_owner r < rt_dispatcher_owner_count r \<and>
     unat (rt_dispatcher_owner_count r) \<le> length (owner_slots r)"

subsection \<open>The published runtime as a transition system\<close>

text \<open>
  Once \<^verbatim>\<open>zettide_spdk_runtime_start\<close> has handed the runtime out, any number of threads call its
  functions while the runtime thread may leave its reactor loop at any time.  Besides the runtime,
  a state keeps the callers of \<^verbatim>\<open>stop\<close> that are about to notify the owner (\<open>sending\<close>, with the owner
  each of them read), how many wait in \<^verbatim>\<open>pthread_join\<close>, how many joins returned, and how many
  leases the clients hold.  A process cannot hold \<open>2 ^ 64\<close> leases, which the acquire rules say.
\<close>

record rt_sys = rt_world +
  sending :: "thread option list"
  joining :: nat
  joins :: nat
  held :: nat

inductive rt_step :: "rt_sys \<Rightarrow> rt_sys \<Rightarrow> bool" where
  acquire: "zettide_spdk_runtime_acquire True True (rt s) = Some (0, t, r') \<Longrightarrow> held s + 1 < 2 ^ 64 \<Longrightarrow>
     rt_step s (s\<lparr>rt := r', held := held s + 1\<rparr>)"
| acquire_dispatcher: "zettide_spdk_runtime_acquire_dispatcher True True (rt s) = Some (0, t, r') \<Longrightarrow>
     held s + 1 < 2 ^ 64 \<Longrightarrow> rt_step s (s\<lparr>rt := r', held := held s + 1\<rparr>)"
| acquire_fault: "zettide_spdk_runtime_acquire_dispatcher True True (rt s) = None \<Longrightarrow>
     rt_step s (s\<lparr>aborted := True\<rparr>)"
| release: "held s > 0 \<Longrightarrow> zettide_spdk_runtime_release (rt s) = Some r' \<Longrightarrow>
     rt_step s (s\<lparr>rt := r', held := held s - 1\<rparr>)"
| release_fault: "held s > 0 \<Longrightarrow> zettide_spdk_runtime_release (rt s) = None \<Longrightarrow>
     rt_step s (s\<lparr>aborted := True\<rparr>)"
| stop_enter: "runtime_stop_enter (rt s) = (None, t, r') \<Longrightarrow>
     rt_step s (s\<lparr>rt := r', sending := t # sending s\<rparr>)"
| stop_sent: "t \<in> set (sending s) \<Longrightarrow>
     rt_step s (s\<lparr>sending := remove1 t (sending s), joining := joining s + 1\<rparr>)"
| stop_refused: "Some t \<in> set (sending s) \<Longrightarrow>
     rt_step s (final runtime_stop_resume (s\<lparr>sending := remove1 (Some t) (sending s)\<rparr>))"
| app_exit: "\<not> thread_done s \<Longrightarrow> rt_step s (final (run_runtime_exit status) s)"
| stop_join: "joining s > 0 \<Longrightarrow> thread_done s \<Longrightarrow>
     rt_step s (final runtime_stop_finish (s\<lparr>joining := joining s - 1, joins := joins s + 1\<rparr>))"

text \<open>What a successful start hands out.\<close>

definition rt_published :: "'x rt_world_scheme \<Rightarrow> bool" where
  "rt_published s \<longleftrightarrow> rt_state (rt s) = RUNTIME_READY \<and> rt_owner (rt s) \<noteq> None \<and>
     rt_active_leases (rt s) = 0 \<and> wf_owners (rt s) \<and> g_runtime_active s \<and> \<not> thread_done s \<and>
     \<not> aborted s"

definition rt_initial :: "rt_sys \<Rightarrow> bool" where
  "rt_initial s \<longleftrightarrow> rt_published s \<and> sending s = [] \<and> joining s = 0 \<and> joins s = 0 \<and> held s = 0"

inductive rt_reachable :: "rt_sys \<Rightarrow> bool" where
  rt_start: "rt_initial s \<Longrightarrow> rt_reachable s"
| rt_next: "rt_reachable s \<Longrightarrow> rt_step s t \<Longrightarrow> rt_reachable t"

definition rt_inv :: "rt_sys \<Rightarrow> bool" where
  "rt_inv s \<longleftrightarrow> \<not> aborted s \<and>
     rt_state (rt s) \<noteq> RUNTIME_STARTING \<and>
     length (sending s) + joining s = (if rt_state (rt s) = RUNTIME_STOPPING then 1 else 0) \<and>
     joins s = (if rt_state (rt s) = RUNTIME_STOPPED then 1 else 0) \<and>
     g_runtime_active s = (rt_state (rt s) \<noteq> RUNTIME_STOPPED) \<and>
     held s < 2 ^ 64 \<and> rt_active_leases (rt s) = of_nat (held s) \<and>
     (rt_state (rt s) \<in> {RUNTIME_STOPPING, RUNTIME_STOPPED} \<longrightarrow> held s = 0) \<and>
     (rt_state (rt s) \<in> {RUNTIME_FAILED, RUNTIME_STOPPED} \<longrightarrow> thread_done s) \<and>
     (rt_owner (rt s) = None \<longleftrightarrow> thread_done s) \<and>
     wf_owners (rt s)"

subsection \<open>Messages between the reactor threads\<close>

definition handle_msg :: "env \<Rightarrow> thread option \<Rightarrow> msg \<Rightarrow> ('x rt_world_scheme, unit) state" where
  "handle_msg env self m =
     (case m of
        Stop_dispatcher_owner \<Rightarrow> stop_dispatcher_owner env self
      | Dispatcher_owner_stopped \<Rightarrow> dispatcher_owner_stopped self
      | Bind_dispatcher_owner \<Rightarrow> bind_dispatcher_owner self
      | Stop_runtime \<Rightarrow> stop_runtime env self
      | _ \<Rightarrow> ret ())"

text \<open>Some thread takes one of its messages and handles it; no order between threads is assumed.\<close>

inductive msg_step :: "env \<Rightarrow> rt_world \<Rightarrow> rt_world \<Rightarrow> bool" for env where
  deliver: "mailbox w = xs @ (t, m) # ys \<Longrightarrow>
     msg_step env w (final (handle_msg env t m) (w\<lparr>mailbox := xs @ ys\<rparr>))"

definition is_app_stop :: "call \<Rightarrow> bool" where
  "is_app_stop c = (case c of Spdk_app_stop _ \<Rightarrow> True | _ \<Rightarrow> False)"

lemma is_app_stop_simps [simp]:
  "is_app_stop (Spdk_app_stop n)" "\<not> is_app_stop (Spdk_thread_send_msg t m)"
  "\<not> is_app_stop (Spdk_thread_exit t)" "\<not> is_app_stop (Spdk_thread_bind t)"
  by (simp_all add: is_app_stop_def)

text \<open>The threads that have exited, in order, according to a log.\<close>

fun exited :: "call list \<Rightarrow> thread option list" where
  "exited [] = []"
| "exited (c # cs) = (case c of Spdk_thread_exit t \<Rightarrow> t # exited cs | _ \<Rightarrow> exited cs)"

subsection \<open>Leases: the interface its clients rely on\<close>

text \<open>
  The contract of a lease provider, as the dispatcher, the provider, the NVMe controller and the
  export use it: a lease is granted exactly while the provider is ready, and a lease that was
  granted can be given back.
\<close>

locale lease_service =
  fixes acquire :: "'r \<Rightarrow> (int \<times> thread option \<times> 'r) option"
    and release :: "'r \<Rightarrow> 'r option"
    and leases :: "'r \<Rightarrow> u64"
    and ready :: "'r \<Rightarrow> bool"
    and invar :: "'r \<Rightarrow> bool"
  assumes acquire_ready: "invar r \<Longrightarrow> ready r \<Longrightarrow>
      \<exists>t r'. acquire r = Some (0, t, r') \<and> leases r' = leases r + 1 \<and> ready r' \<and> invar r'"
    and acquire_not_ready: "invar r \<Longrightarrow> \<not> ready r \<Longrightarrow>
      \<exists>status. status \<noteq> 0 \<and> acquire r = Some (status, None, r)"
    and release_held: "invar r \<Longrightarrow> leases r > 0 \<Longrightarrow>
      \<exists>r'. release r = Some r' \<and> leases r' = leases r - 1 \<and> ready r' = ready r \<and> invar r'"
begin

lemma acquire_total: "invar r \<Longrightarrow> \<exists>status t r'. acquire r = Some (status, t, r') \<and> invar r'"
  using acquire_ready acquire_not_ready by (cases "ready r") blast+

lemma acquire_refused:
  assumes "invar r" and "acquire r = Some (status, t, r')" and "status \<noteq> 0"
  shows "r' = r \<and> t = None \<and> \<not> ready r"
proof (cases "ready r")
  case True
  from acquire_ready [OF assms(1) this] assms(2,3) show ?thesis by auto
next
  case False
  from acquire_not_ready [OF assms(1) this] assms(2) False show ?thesis by auto
qed

lemma acquire_granted:
  assumes "invar r" and "acquire r = Some (0, t, r')"
  shows "ready r \<and> ready r' \<and> leases r' = leases r + 1 \<and> invar r'"
proof (cases "ready r")
  case True
  from acquire_ready [OF assms(1) this] assms(2) True show ?thesis by auto
next
  case False
  from acquire_not_ready [OF assms(1) this] assms(2) show ?thesis by auto
qed

text \<open>A client that gives its lease back leaves the count as it was.\<close>

lemma acquire_release:
  assumes "invar r" and "acquire r = Some (0, t, r')" and "leases r \<noteq> UINT64_MAX"
  shows "\<exists>r''. release r' = Some r'' \<and> leases r'' = leases r \<and> ready r'' \<and> invar r''"
proof -
  from assms(1,2) have r': "ready r'" "leases r' = leases r + 1" "invar r'"
    using acquire_granted by blast+
  have "leases r' \<noteq> 0"
    using assms(3) r'(2) by (metis add_eq_0_iff2)
  then have "leases r' > 0"
    by (simp add: word_neq_0_conv)
  with release_held [OF r'(3)] obtain r'' where "release r' = Some r''"
    and "leases r'' = leases r' - 1" and "ready r'' = ready r'" and "invar r''"
    by blast
  with r' show ?thesis by simp
qed

end

subsection \<open>Lemmas\<close>

lemma word_neq_max_Suc: "(w :: u64) < c \<Longrightarrow> unat (w + 1) = Suc (unat w)"
  by (rule unat_add_of_nat_one) (metis word_n1_ge leD)

lemma next_owner_less:
  fixes n c :: u64
  assumes "n < c"
  shows "(n + 1) mod c < c" and "unat ((n + 1) mod c) = (unat n + 1) mod unat c"
proof -
  have "c \<noteq> 0" using assms by auto
  then show "(n + 1) mod c < c"
    by (simp add: word_mod_less_divisor word_neq_0_conv)
  show "unat ((n + 1) mod c) = (unat n + 1) mod unat c"
    using word_neq_max_Suc [OF assms] by (simp add: unat_mod)
qed

lemma wf_owners_acquire:
  "wf_owners r \<Longrightarrow> wf_owners (r\<lparr>rt_next_dispatcher_owner :=
      (rt_next_dispatcher_owner r + 1) mod rt_dispatcher_owner_count r\<rparr>)"
  by (auto simp: wf_owners_def next_owner_less(1) owner_slots_def)

lemma wf_owners_frame [simp]:
  "wf_owners (r\<lparr>rt_active_leases := l\<rparr>) = wf_owners r"
  "wf_owners (r\<lparr>rt_state := st\<rparr>) = wf_owners r"
  "wf_owners (r\<lparr>rt_app_status := a, rt_owner := t\<rparr>) = wf_owners r"
  by (simp_all add: wf_owners_def owner_slots_def)

lemma wf_owners_index:
  assumes "wf_owners r"
  shows "rt_dispatcher_owner_count r > 0"
    and "unat (rt_next_dispatcher_owner r) < unat (rt_dispatcher_owner_count r)"
    and "unat (rt_next_dispatcher_owner r) < length (owner_slots r)"
  using assms by (auto simp: wf_owners_def word_less_nat_alt)

interpretation control_lease: lease_service
  "zettide_spdk_runtime_acquire True True" zettide_spdk_runtime_release rt_active_leases
  "\<lambda>r. rt_state r = RUNTIME_READY" "\<lambda>_. True"
  by unfold_locales (auto simp: zettide_spdk_runtime_acquire_def zettide_spdk_runtime_release_def)

interpretation dispatcher_lease: lease_service
  "zettide_spdk_runtime_acquire_dispatcher True True" zettide_spdk_runtime_release rt_active_leases
  "\<lambda>r. rt_state r = RUNTIME_READY" wf_owners
  by unfold_locales
    (auto simp: zettide_spdk_runtime_acquire_dispatcher_def zettide_spdk_runtime_release_def
       wf_owners_index wf_owners_acquire)

text \<open>What taking and returning leases leaves alone.\<close>

definition same_phase :: "runtime \<Rightarrow> runtime \<Rightarrow> bool" where
  "same_phase r r' \<longleftrightarrow> rt_state r' = rt_state r \<and> rt_owner r' = rt_owner r \<and> (wf_owners r \<longrightarrow> wf_owners r')"

lemma same_phase_refl [simp]: "same_phase r r"
  by (simp add: same_phase_def)

lemma same_phase_trans: "same_phase r r' \<Longrightarrow> same_phase r' r'' \<Longrightarrow> same_phase r r''"
  by (simp add: same_phase_def)

lemma same_phase_leases [simp]: "same_phase r (r\<lparr>rt_active_leases := k\<rparr>)"
  by (simp add: same_phase_def)

lemma same_phase_release: "zettide_spdk_runtime_release r = Some r' \<Longrightarrow> same_phase r r'"
  by (auto simp: zettide_spdk_runtime_release_def split: if_splits)

lemma same_phase_acquire_dispatcher:
  "zettide_spdk_runtime_acquire_dispatcher True True r = Some (status, t, r') \<Longrightarrow> same_phase r r'"
  by (auto simp: zettide_spdk_runtime_acquire_dispatcher_def same_phase_def wf_owners_acquire split: if_splits)

lemma rt_inv_initial: "rt_initial s \<Longrightarrow> rt_inv s"
  by (auto simp: rt_initial_def rt_published_def rt_inv_def)

lemmas rt_section_defs =
  runtime_stop_resume_def runtime_stop_finish_def run_runtime_exit_def release_process_slot_def

lemma rt_inv_step: "rt_step s t \<Longrightarrow> rt_inv s \<Longrightarrow> rt_inv t"
proof (induction rule: rt_step.induct)
  case (acquire s t r')
  then show ?case
    by (auto simp: zettide_spdk_runtime_acquire_def rt_inv_def split: if_splits)
next
  case (acquire_dispatcher s t r')
  then show ?case
    by (auto simp: zettide_spdk_runtime_acquire_dispatcher_def rt_inv_def wf_owners_acquire split: if_splits)
next
  case (acquire_fault s)
  then show ?case
    by (auto simp: zettide_spdk_runtime_acquire_dispatcher_def rt_inv_def dest: wf_owners_index split: if_splits)
next
  case (release s r')
  then show ?case
    by (auto simp: zettide_spdk_runtime_release_def rt_inv_def of_nat_diff split: if_splits)
next
  case (release_fault s)
  then show ?case
    by (auto simp: zettide_spdk_runtime_release_def rt_inv_def of_nat_gt_0_u64 split: if_splits)
next
  case (stop_enter s t r')
  then show ?case
    by (auto simp: runtime_stop_enter_def rt_inv_def of_nat_eq_0_u64 split: runtime_state.splits if_splits)
next
  case (stop_sent t s)
  then show ?case
    by (cases "sending s") (auto simp: rt_inv_def split: if_splits)
next
  case (stop_refused t s)
  then show ?case
    by (cases "sending s") (auto simp: rt_inv_def rt_section_defs split: if_splits)
next
  case (app_exit s status)
  then show ?case
    by (cases "rt_state (rt s)") (auto simp: rt_inv_def rt_section_defs)
next
  case (stop_join s)
  then show ?case
    by (cases "rt_state (rt s)"; cases "sending s") (auto simp: rt_inv_def rt_section_defs split: if_splits)
qed

lemma rt_reachable_inv: "rt_reachable s \<Longrightarrow> rt_inv s"
  by (induction rule: rt_reachable.induct) (blast intro: rt_inv_initial rt_inv_step)+

end
