(* ===== verification/Runtime_Shutdown.thy ===== *)
theory Runtime_Shutdown
  imports Runtime
begin

text \<open>
  The shutdown of a multi-reactor runtime as an exchange of messages (\<^verbatim>\<open>stop_runtime\<close>,
  \<^verbatim>\<open>stop_dispatcher_owners\<close>, \<^verbatim>\<open>stop_dispatcher_owner\<close>, \<^verbatim>\<open>dispatcher_owner_stopped\<close>): in whatever order
  the threads take their messages, every dispatcher owner exits once and the application is stopped
  once, after all of them.
\<close>

lemma exited_append [simp]: "exited (xs @ ys) = exited xs @ exited ys"
  by (induction xs) (auto split: call.splits)

text \<open>The part of the mailbox that belongs to the shutdown.\<close>

definition stop_targets :: "(thread option \<times> msg) list \<Rightarrow> thread option list" where
  "stop_targets ms = map fst (filter (\<lambda>(t, m). m = Stop_dispatcher_owner) ms)"

definition stopped_msgs :: "(thread option \<times> msg) list \<Rightarrow> nat" where
  "stopped_msgs ms = length (filter (\<lambda>(t, m). m = Dispatcher_owner_stopped) ms)"

lemma stop_targets_simps [simp]:
  "stop_targets [] = []"
  "stop_targets (x # xs) = (if snd x = Stop_dispatcher_owner then fst x # stop_targets xs else stop_targets xs)"
  "stop_targets (xs @ ys) = stop_targets xs @ stop_targets ys"
  by (auto simp: stop_targets_def)

lemma stopped_msgs_simps [simp]:
  "stopped_msgs [] = 0"
  "stopped_msgs (x # xs) = (if snd x = Dispatcher_owner_stopped then Suc (stopped_msgs xs) else stopped_msgs xs)"
  "stopped_msgs (xs @ ys) = stopped_msgs xs + stopped_msgs ys"
  by (auto simp: stopped_msgs_def)






















end
