(* ===== verification/Endpoint.thy ===== *)
theory Endpoint
  imports Prelude
begin

text \<open>
  \<^verbatim>\<open>bdev_endpoint.c\<close>: an open block device, confined to the SPDK thread that opened it.  The record
  \<open>bdev\<close> is what SPDK answers about the device, \<open>endpoint\<close> and \<open>bdev_request\<close> are the structs of the
  source.  Allocated requests live in the store \<open>requests\<close>, so a use of a freed one is visible as an
  abort; \<open>in_flight\<close> and \<open>waiting\<close> are the requests SPDK owes a completion or a retry, and \<open>called\<close>
  records the callbacks run so far.  A callback is the last thing its function does, so whatever the
  callback goes on to do is a later step.
\<close>

subsection \<open>State\<close>

record bdev =
  bd_name :: string
  bd_num_blocks :: u64
  bd_block_size :: u32
  bd_buf_align :: size_t
  bd_write_unit :: u32
  bd_read_supported :: bool
  bd_write_supported :: bool
  bd_flush_supported :: bool
  bd_write_cache :: bool
  bd_md_size :: u32
  bd_zoned :: bool

abbreviation ZETTIDE_SPDK_BDEV_WRITABLE :: u32 where "ZETTIDE_SPDK_BDEV_WRITABLE \<equiv> 1"
abbreviation ZETTIDE_SPDK_BDEV_FLUSH_SUPPORTED :: u32 where "ZETTIDE_SPDK_BDEV_FLUSH_SUPPORTED \<equiv> 2"
abbreviation ZETTIDE_SPDK_BDEV_WRITE_CACHE :: u32 where "ZETTIDE_SPDK_BDEV_WRITE_CACHE \<equiv> 4"

record geometry =
  capacity_bytes :: u64
  block_count :: u64
  logical_block_size :: u32
  write_unit_blocks :: u32
  buffer_alignment :: u32
  geometry_flags :: u32

datatype request_operation = REQUEST_READ | REQUEST_WRITE | REQUEST_FLUSH

datatype spdk_bdev_event = SPDK_BDEV_EVENT_REMOVE | SPDK_BDEV_EVENT_RESIZE | SPDK_BDEV_EVENT_MEDIA_MANAGEMENT

datatype bdev_event_kind = ZETTIDE_SPDK_BDEV_REMOVE | ZETTIDE_SPDK_BDEV_RESIZE

text \<open>\<open>ep_event_cb\<close>: an event callback is registered.  A buffer is its address, 0 being \<^verbatim>\<open>NULL\<close>.\<close>

record endpoint =
  ep_owner :: "thread option"
  ep_geometry :: geometry
  ep_outstanding :: u64
  ep_writable :: bool
  ep_removed :: bool
  ep_event_cb :: bool

record bdev_request =
  rq_operation :: request_operation
  rq_buffer :: u64
  rq_offset :: u64
  rq_length :: u64

record ep_world = world +
  ep :: endpoint
  dev :: bdev
  requests :: "(nat \<times> bdev_request) list"
  next_request :: nat
  in_flight :: "nat list"
  waiting :: "nat list"
  called :: "(nat \<times> int) list"
  events :: "bdev_event_kind list"

definition modify_ep :: "(endpoint \<Rightarrow> endpoint) \<Rightarrow> ('x ep_world_scheme, unit) state" where
  "modify_ep f = State (\<lambda>w. ((), w\<lparr>ep := f (ep w)\<rparr>))"

lemma run_modify_ep [run_simps, simp]: "run_state (modify_ep f) w = ((), w\<lparr>ep := f (ep w)\<rparr>)"
  by (simp add: modify_ep_def)

subsection \<open>Geometry and events\<close>

definition on_owner_thread :: "thread option \<Rightarrow> endpoint \<Rightarrow> bool" where
  "on_owner_thread self e \<longleftrightarrow> self = ep_owner e"

definition geometry_of :: "bool \<Rightarrow> bdev \<Rightarrow> geometry" where
  "geometry_of writable b = \<lparr>
     capacity_bytes = bd_num_blocks b * ucast (bd_block_size b),
     block_count = bd_num_blocks b,
     logical_block_size = bd_block_size b,
     write_unit_blocks = bd_write_unit b,
     buffer_alignment = ucast (bd_buf_align b),
     geometry_flags = (if writable then ZETTIDE_SPDK_BDEV_WRITABLE else 0) OR
       (if bd_flush_supported b then ZETTIDE_SPDK_BDEV_FLUSH_SUPPORTED else 0) OR
       (if bd_write_cache b then ZETTIDE_SPDK_BDEV_WRITE_CACHE else 0)\<rparr>"

definition refresh_geometry :: "('x ep_world_scheme, int) state" where
  "refresh_geometry = do {
     b \<leftarrow> gets dev;
     if bd_block_size b = 0 \<or> bd_num_blocks b > UINT64_MAX div ucast (bd_block_size b) \<or>
        bd_buf_align b > UINT32_MAX
     then ret (- EOVERFLOW)
     else do { modify_ep (\<lambda>e. e\<lparr>ep_geometry := geometry_of (ep_writable e) b\<rparr>); ret 0 }
   }"

definition report_event :: "bdev_event_kind \<Rightarrow> ('x ep_world_scheme, unit) state" where
  "report_event event = do {
     e \<leftarrow> gets ep;
     if ep_event_cb e then modify (\<lambda>w. w\<lparr>events := events w @ [event]\<rparr>) else ret ()
   }"

definition bdev_event :: "spdk_bdev_event \<Rightarrow> ('x ep_world_scheme, unit) state" where
  "bdev_event type =
     (case type of
        SPDK_BDEV_EVENT_REMOVE \<Rightarrow> do {
          modify_ep (\<lambda>e. e\<lparr>ep_removed := True\<rparr>);
          report_event ZETTIDE_SPDK_BDEV_REMOVE
        }
      | SPDK_BDEV_EVENT_RESIZE \<Rightarrow> do {
          rc \<leftarrow> refresh_geometry;
          if rc \<noteq> 0 then do {
            modify_ep (\<lambda>e. e\<lparr>ep_removed := True\<rparr>);
            report_event ZETTIDE_SPDK_BDEV_REMOVE
          } else report_event ZETTIDE_SPDK_BDEV_RESIZE
        }
      | _ \<Rightarrow> ret ())"

subsection \<open>Open and close\<close>

definition zero_geometry :: geometry where
  "zero_geometry = \<lparr>capacity_bytes = 0, block_count = 0, logical_block_size = 0, write_unit_blocks = 0,
     buffer_alignment = 0, geometry_flags = 0\<rparr>"

text \<open>The label \<^verbatim>\<open>fail\<close>.\<close>

definition open_fail :: "int \<Rightarrow> ('x ep_world_scheme, int \<times> bool) state" where
  "open_fail rc = do {
     emit Spdk_bdev_close; give_back Bdev_descriptor;
     free_ptr True Endpoint_obj;
     ret (rc, False)
   }"

text \<open>
  \<open>self\<close> is the calling SPDK thread, \<open>endpoint_out\<close> that the out pointer is given; the result is the
  status and whether \<^verbatim>\<open>*endpoint_out\<close> is the new endpoint.
\<close>

definition zettide_spdk_bdev_open ::
    "env \<Rightarrow> thread option \<Rightarrow> string option \<Rightarrow> bool \<Rightarrow> bool \<Rightarrow> bool \<Rightarrow>
     ('x ep_world_scheme, int \<times> bool) state" where
  "zettide_spdk_bdev_open env self name writable event_cb endpoint_out =
     (if name = None \<or> \<not> endpoint_out then ret (- EINVAL, False)
      else if self = None then ret (- EPERM, False)
      else do {
        ok \<leftarrow> alloc env (Calloc Endpoint_obj) Endpoint_obj;
        if \<not> ok then ret (- ENOMEM, False)
        else do {
          modify_ep (\<lambda>_. \<lparr>ep_owner = self, ep_geometry = zero_geometry, ep_outstanding = 0,
            ep_writable = writable, ep_removed = False, ep_event_cb = event_cb\<rparr>);
          rc \<leftarrow> ext env (Spdk_bdev_open_ext (the name) writable);
          if rc \<noteq> 0 then do { free_ptr True Endpoint_obj; ret (rc, False) }
          else do {
            hold Bdev_descriptor;
            b \<leftarrow> gets dev;
            if \<not> bd_read_supported b \<or> (writable \<and> \<not> bd_write_supported b) then open_fail (- ENOTSUP)
            else if bd_md_size b \<noteq> 0 \<or> bd_zoned b then open_fail (- ENOTSUP)
            else do {
              channel \<leftarrow> alloc env Spdk_bdev_get_io_channel Io_channel;
              if \<not> channel then open_fail (- ENOMEM)
              else do {
                rc \<leftarrow> refresh_geometry;
                if rc \<noteq> 0 then do { emit Spdk_put_io_channel; give_back Io_channel; open_fail rc }
                else ret (0, True)
              }
            }
          }
        }
      })"

text \<open>In the functions below \<open>endpoint\<close> says that the pointer is not \<^verbatim>\<open>NULL\<close>.\<close>

definition zettide_spdk_bdev_close :: "thread option \<Rightarrow> bool \<Rightarrow> ('x ep_world_scheme, int) state" where
  "zettide_spdk_bdev_close self endpoint = do {
     e \<leftarrow> gets ep;
     if \<not> endpoint then ret (- EINVAL)
     else if \<not> on_owner_thread self e then ret (- EPERM)
     else if ep_outstanding e \<noteq> 0 then ret (- EBUSY)
     else do {
       emit Spdk_put_io_channel; give_back Io_channel;
       emit Spdk_bdev_close; give_back Bdev_descriptor;
       free_ptr True Endpoint_obj;
       ret 0
     }
   }"

definition zettide_spdk_bdev_get_geometry :: "endpoint option \<Rightarrow> geometry option" where
  "zettide_spdk_bdev_get_geometry e = map_option ep_geometry e"

definition zettide_spdk_bdev_get_name :: "thread option \<Rightarrow> bdev \<Rightarrow> endpoint option \<Rightarrow> string option" where
  "zettide_spdk_bdev_get_name self b e =
     (case e of None \<Rightarrow> None | Some e \<Rightarrow> if \<not> on_owner_thread self e then None else Some (bd_name b))"

subsection \<open>DMA-capable buffers\<close>

text \<open>
  \<^verbatim>\<open>spdk_vtophys(address, &size)\<close> is a parameter: \<open>None\<close> for \<^verbatim>\<open>SPDK_VTOPHYS_ERROR\<close>, otherwise the
  value it leaves in \<^verbatim>\<open>size\<close>.
\<close>

type_synonym vtophys = "u64 \<Rightarrow> u64 \<Rightarrow> u64 option"

function dma_walk :: "vtophys \<Rightarrow> u64 \<Rightarrow> u64 \<Rightarrow> bool" where
  "dma_walk vtophys address remaining =
     (if remaining > 0 then
        (case vtophys address remaining of
           None \<Rightarrow> False
         | Some translated \<Rightarrow>
             if translated = 0 then False
             else dma_walk vtophys (address + min translated remaining) (remaining - min translated remaining))
      else True)"
  by auto

termination
proof (relation "measure (\<lambda>(_, _, remaining). unat remaining)", goal_cases)
  case (2 vtophys address remaining translated)
  then have "min translated remaining \<le> remaining" "min translated remaining \<noteq> 0"
    by (auto simp: min_def)
  moreover from this have "unat (min translated remaining) \<noteq> 0"
    by (simp add: unat_eq_0)
  ultimately show ?case
    using 2(1) by (simp add: unat_diff_le word_less_nat_alt)
qed simp

declare dma_walk.simps [simp del]

definition zettide_spdk_bdev_buffer_is_dma_capable ::
    "vtophys \<Rightarrow> thread option \<Rightarrow> endpoint option \<Rightarrow> u64 \<Rightarrow> u64 \<Rightarrow> bool" where
  "zettide_spdk_bdev_buffer_is_dma_capable vtophys self e buffer len =
     (case e of
        None \<Rightarrow> False
      | Some e \<Rightarrow>
          if buffer = 0 \<or> len = 0 \<or> \<not> on_owner_thread self e then False
          else if (buffer_alignment (ep_geometry e) > 1 \<and>
                   buffer mod ucast (buffer_alignment (ep_geometry e)) \<noteq> 0) \<or>
                  len > UINT64_MAX - buffer then False
          else dma_walk vtophys buffer len)"

subsection \<open>Requests\<close>

definition validate_range :: "thread option \<Rightarrow> endpoint \<Rightarrow> u64 \<Rightarrow> u64 \<Rightarrow> u64 \<Rightarrow> bool \<Rightarrow> int" where
  "validate_range self e buffer offset len write =
     (let g = ep_geometry e;
          block_size = ucast (logical_block_size g);
          write_unit = ucast (write_unit_blocks g);
          alignment = buffer_alignment g
      in if \<not> on_owner_thread self e then - EPERM
         else if ep_removed e then - ENODEV
         else if buffer = 0 \<or> len = 0 \<or> offset mod block_size \<noteq> 0 \<or> len mod block_size \<noteq> 0 then - EINVAL
         else if offset > capacity_bytes g \<or> len > capacity_bytes g - offset then - ERANGE
         else if alignment > 1 \<and> buffer mod ucast alignment \<noteq> 0 then - EINVAL
         else if \<not> write then 0
         else if \<not> ep_writable e then - EBADF
         else if write_unit = 0 \<or> (offset div block_size) mod write_unit \<noteq> 0 \<or>
                 (len div block_size) mod write_unit \<noteq> 0 then - EINVAL
         else 0)"

text \<open>\<^verbatim>\<open>free(request)\<close>: the request leaves the store; freeing one that is not in it is an abort.\<close>

definition free_request :: "nat \<Rightarrow> ('x ep_world_scheme, unit) state" where
  "free_request n = do {
     rs \<leftarrow> gets requests;
     c_assert (n \<in> fst ` set rs);
     modify (\<lambda>w. w\<lparr>requests := filter (\<lambda>(m, _). m \<noteq> n) (requests w)\<rparr>)
   }"

definition finish_request :: "nat \<Rightarrow> int \<Rightarrow> ('x ep_world_scheme, unit) state" where
  "finish_request n status = do {
     modify_ep (\<lambda>e. e\<lparr>ep_outstanding := ep_outstanding e - 1\<rparr>);
     free_request n;
     modify (\<lambda>w. w\<lparr>called := called w @ [(n, status)]\<rparr>)
   }"

text \<open>The completion SPDK runs for a request; \<open>aio_status\<close> is what \<^verbatim>\<open>spdk_bdev_io_get_aio_status\<close> gives.\<close>

definition completion_status :: "endpoint \<Rightarrow> bool \<Rightarrow> int \<Rightarrow> int" where
  "completion_status e success aio_status =
     (if success then 0
      else if ep_removed e then - ENODEV
      else if aio_status \<ge> 0 then - EIO else aio_status)"

definition complete_request :: "nat \<Rightarrow> bool \<Rightarrow> int \<Rightarrow> ('x ep_world_scheme, unit) state" where
  "complete_request n success aio_status = do {
     e \<leftarrow> gets ep;
     let status = completion_status e success aio_status;
     emit Spdk_bdev_free_io;
     finish_request n status
   }"

definition io_call :: "nat \<Rightarrow> bdev_request \<Rightarrow> call" where
  "io_call n r =
     (case rq_operation r of
        REQUEST_READ \<Rightarrow> Spdk_bdev_read n (rq_buffer r) (rq_offset r) (rq_length r)
      | REQUEST_WRITE \<Rightarrow> Spdk_bdev_write n (rq_buffer r) (rq_offset r) (rq_length r)
      | REQUEST_FLUSH \<Rightarrow> Spdk_bdev_flush n (rq_offset r) (rq_length r))"

text \<open>
  A submission that SPDK accepted (0) is one it owes a completion for; a wait entry that it accepted
  is one it owes a retry for.
\<close>

definition issue_request :: "env \<Rightarrow> nat \<Rightarrow> ('x ep_world_scheme, int) state" where
  "issue_request env n = do {
     rs \<leftarrow> gets requests;
     case map_of rs n of
       None \<Rightarrow> do { c_abort; ret 0 }
     | Some r \<Rightarrow> do {
         rc \<leftarrow> ext env (io_call n r);
         if rc \<noteq> - ENOMEM then do {
           whenM (rc = 0) (modify (\<lambda>w. w\<lparr>in_flight := n # in_flight w\<rparr>));
           ret rc
         } else do {
           rc \<leftarrow> ext env (Spdk_bdev_queue_io_wait n);
           whenM (rc = 0) (modify (\<lambda>w. w\<lparr>waiting := n # waiting w\<rparr>));
           ret rc
         }
       }
   }"

definition retry_request :: "env \<Rightarrow> nat \<Rightarrow> ('x ep_world_scheme, unit) state" where
  "retry_request env n = do {
     e \<leftarrow> gets ep;
     if ep_removed e then finish_request n (- ENODEV)
     else do {
       rc \<leftarrow> issue_request env n;
       if rc \<noteq> 0 then finish_request n rc else ret ()
     }
   }"

text \<open>\<open>callback\<close> says that a callback is given.\<close>

definition submit_request ::
    "env \<Rightarrow> bool \<Rightarrow> request_operation \<Rightarrow> u64 \<Rightarrow> u64 \<Rightarrow> u64 \<Rightarrow> bool \<Rightarrow> ('x ep_world_scheme, int) state" where
  "submit_request env endpoint operation buffer offset len callback =
     (if \<not> endpoint \<or> \<not> callback then ret (- EINVAL)
      else do {
        n \<leftarrow> gets next_request;
        p \<leftarrow> ext env (Calloc (Request_obj n));
        if p = 0 then ret (- ENOMEM)
        else do {
          modify (\<lambda>w. w\<lparr>next_request := n + 1,
            requests := (n, \<lparr>rq_operation = operation, rq_buffer = buffer, rq_offset = offset,
                             rq_length = len\<rparr>) # requests w\<rparr>);
          modify_ep (\<lambda>e. e\<lparr>ep_outstanding := ep_outstanding e + 1\<rparr>);
          rc \<leftarrow> issue_request env n;
          if rc \<noteq> 0 then do {
            modify_ep (\<lambda>e. e\<lparr>ep_outstanding := ep_outstanding e - 1\<rparr>);
            free_request n;
            ret rc
          } else ret rc
        }
      })"

definition zettide_spdk_bdev_read ::
    "env \<Rightarrow> thread option \<Rightarrow> bool \<Rightarrow> u64 \<Rightarrow> u64 \<Rightarrow> u64 \<Rightarrow> bool \<Rightarrow> ('x ep_world_scheme, int) state" where
  "zettide_spdk_bdev_read env self endpoint buffer offset len callback = do {
     e \<leftarrow> gets ep;
     b \<leftarrow> gets dev;
     if \<not> endpoint then ret (- EINVAL)
     else if validate_range self e buffer offset len False \<noteq> 0
     then ret (validate_range self e buffer offset len False)
     else if \<not> bd_read_supported b then ret (- ENOTSUP)
     else submit_request env endpoint REQUEST_READ buffer offset len callback
   }"

definition zettide_spdk_bdev_write ::
    "env \<Rightarrow> thread option \<Rightarrow> bool \<Rightarrow> u64 \<Rightarrow> u64 \<Rightarrow> u64 \<Rightarrow> bool \<Rightarrow> ('x ep_world_scheme, int) state" where
  "zettide_spdk_bdev_write env self endpoint buffer offset len callback = do {
     e \<leftarrow> gets ep;
     b \<leftarrow> gets dev;
     if \<not> endpoint then ret (- EINVAL)
     else if validate_range self e buffer offset len True \<noteq> 0
     then ret (validate_range self e buffer offset len True)
     else if \<not> bd_write_supported b then ret (- ENOTSUP)
     else submit_request env endpoint REQUEST_WRITE buffer offset len callback
   }"

definition zettide_spdk_bdev_flush ::
    "env \<Rightarrow> thread option \<Rightarrow> bool \<Rightarrow> u64 \<Rightarrow> u64 \<Rightarrow> bool \<Rightarrow> ('x ep_world_scheme, int) state" where
  "zettide_spdk_bdev_flush env self endpoint offset len callback = do {
     e \<leftarrow> gets ep;
     b \<leftarrow> gets dev;
     let g = ep_geometry e;
     if \<not> endpoint \<or> \<not> callback then ret (- EINVAL)
     else if \<not> on_owner_thread self e then ret (- EPERM)
     else if ep_removed e then ret (- ENODEV)
     else if \<not> ep_writable e then ret (- EBADF)
     else if \<not> bd_flush_supported b then ret (- ENOTSUP)
     else if len = 0 \<or> offset mod ucast (logical_block_size g) \<noteq> 0 \<or>
             len mod ucast (logical_block_size g) \<noteq> 0 then ret (- EINVAL)
     else if offset > capacity_bytes g \<or> len > capacity_bytes g - offset then ret (- ERANGE)
     else submit_request env endpoint REQUEST_FLUSH 0 offset len callback
   }"

text \<open>A DMA allocation, by the address it returns, 0 being \<^verbatim>\<open>NULL\<close>.\<close>

definition dma_alloc :: "env \<Rightarrow> call \<Rightarrow> ('x world_scheme, u64) state" where
  "dma_alloc env c = do {
     p \<leftarrow> ext env c;
     let a = (word_of_int p :: u64);
     whenM (a \<noteq> 0) (hold Dma_buffer);
     ret a
   }"

definition zettide_spdk_dma_malloc :: "env \<Rightarrow> size_t \<Rightarrow> size_t \<Rightarrow> ('x world_scheme, u64) state" where
  "zettide_spdk_dma_malloc env sz alignment = dma_alloc env (Spdk_dma_malloc sz alignment)"

definition zettide_spdk_dma_zmalloc :: "env \<Rightarrow> size_t \<Rightarrow> size_t \<Rightarrow> ('x world_scheme, u64) state" where
  "zettide_spdk_dma_zmalloc env sz alignment = dma_alloc env (Spdk_dma_zmalloc sz alignment)"

definition zettide_spdk_dma_free :: "u64 \<Rightarrow> ('x world_scheme, unit) state" where
  "zettide_spdk_dma_free buffer = do { emit Spdk_dma_free; whenM (buffer \<noteq> 0) (give_back Dma_buffer) }"

subsection \<open>Well-formedness\<close>

definition wf_geometry :: "geometry \<Rightarrow> bool" where
  "wf_geometry g \<longleftrightarrow> logical_block_size g \<noteq> 0 \<and>
     unat (capacity_bytes g) = unat (block_count g) * unat (logical_block_size g)"

text \<open>What a successful open hands out.\<close>

definition ep_opened :: "'x ep_world_scheme \<Rightarrow> bool" where
  "ep_opened w \<longleftrightarrow> \<not> aborted w \<and> wf_geometry (ep_geometry (ep w)) \<and> ep_outstanding (ep w) = 0 \<and>
     \<not> ep_removed (ep w) \<and> {Io_channel, Bdev_descriptor, Endpoint_obj} \<subseteq> set (live w)"

subsection \<open>Range validation\<close>

lemma wf_geometry_of:
  assumes "bd_block_size b \<noteq> 0" and "\<not> bd_num_blocks b > UINT64_MAX div ucast (bd_block_size b)"
  shows "wf_geometry (geometry_of writable b)"
  using assms unat_mult_le_max_div [of "ucast (bd_block_size b)" "bd_num_blocks b"]
  by (simp add: wf_geometry_def geometry_of_def not_less)

lemma refresh_geometry_run:
  "run_state refresh_geometry w =
     (if bd_block_size (dev w) = 0 \<or> bd_num_blocks (dev w) > UINT64_MAX div ucast (bd_block_size (dev w)) \<or>
         bd_buf_align (dev w) > UINT32_MAX
      then (- EOVERFLOW, w)
      else (0, w\<lparr>ep := (ep w)\<lparr>ep_geometry := geometry_of (ep_writable (ep w)) (dev w)\<rparr>\<rparr>))"
  by (simp add: refresh_geometry_def)

text \<open>
  C20: Range validation.  On an endpoint whose geometry is well formed, \<^verbatim>\<open>validate_range\<close> accepts a
  request exactly when it is made on the owner thread of a present device, its buffer is not \<^verbatim>\<open>NULL\<close>
  and aligned, and the bytes it covers are a non-empty whole number of blocks inside the device, where
  the sums and products are those of the natural numbers; a write also needs a writable endpoint and
  whole write units.  No 64-bit overflow can make it accept more.
\<close>

theorem validate_range_iff:
  assumes "wf_geometry g" and "g = ep_geometry e"
  shows "validate_range self e buffer offset len write = 0 \<longleftrightarrow>
    self = ep_owner e \<and> \<not> ep_removed e \<and> buffer \<noteq> 0 \<and> 0 < unat len \<and>
    unat (logical_block_size g) dvd unat offset \<and> unat (logical_block_size g) dvd unat len \<and>
    unat offset + unat len \<le> unat (block_count g) * unat (logical_block_size g) \<and>
    (1 < unat (buffer_alignment g) \<longrightarrow> unat (buffer_alignment g) dvd unat buffer) \<and>
    (write \<longrightarrow> ep_writable e \<and> 0 < unat (write_unit_blocks g) \<and>
       unat (logical_block_size g) * unat (write_unit_blocks g) dvd unat offset \<and>
       unat (logical_block_size g) * unat (write_unit_blocks g) dvd unat len)"
proof -
  let ?bs = "unat (logical_block_size g)"
  have bs: "0 < ?bs" and cap: "unat (capacity_bytes g) = unat (block_count g) * ?bs"
    using assms(1) by (auto simp: wf_geometry_def unat_gt_0)
  have units: "unat (write_unit_blocks g) dvd unat x div ?bs \<longleftrightarrow> ?bs * unat (write_unit_blocks g) dvd unat x"
    if "?bs dvd unat x" for x :: u64
    using dvd_div_mod_iff [OF that bs] .
  have range: "\<not> offset > capacity_bytes g \<and> \<not> len > capacity_bytes g - offset \<longleftrightarrow>
      unat offset + unat len \<le> unat (block_count g) * ?bs"
    using range_check_iff [of "capacity_bytes g" offset len] cap by simp
  have "1 < unat (buffer_alignment g) \<longleftrightarrow> 1 < buffer_alignment g"
    by (simp add: word_less_nat_alt)
  then show ?thesis
    using bs units [of offset] units [of len] range
    by (auto simp: validate_range_def Let_def on_owner_thread_def word_mod_eq_0_iff_dvd assms(2)
        unat_div unat_gt_0)
qed


subsection \<open>DMA-capable buffers\<close>

text \<open>
  What SPDK documents of \<^verbatim>\<open>spdk_vtophys\<close>, for the set \<open>mapped\<close> of addresses that are registered for
  DMA: it translates an address exactly when it is registered, and the size it leaves covers
  registered addresses only, at least the first one.
\<close>

definition vtophys_translates :: "vtophys \<Rightarrow> u64 set \<Rightarrow> bool" where
  "vtophys_translates vtophys mapped \<longleftrightarrow>
     (\<forall>a n. n \<noteq> 0 \<longrightarrow>
        (case vtophys a n of
           None \<Rightarrow> a \<notin> mapped
         | Some m \<Rightarrow> m \<noteq> 0 \<and> a \<in> mapped \<and> (\<forall>i. i < m \<and> i < n \<longrightarrow> a + i \<in> mapped)))"

lemma vtophys_translatesD:
  "vtophys_translates vtophys mapped \<Longrightarrow> n \<noteq> 0 \<Longrightarrow>
   (case vtophys a n of
      None \<Rightarrow> a \<notin> mapped
    | Some m \<Rightarrow> m \<noteq> 0 \<and> a \<in> mapped \<and> (\<forall>i. i < m \<and> i < n \<longrightarrow> a + i \<in> mapped))"
  by (simp add: vtophys_translates_def)

lemma dma_walk_iff:
  assumes "vtophys_translates vtophys mapped"
  shows "dma_walk vtophys address remaining \<longleftrightarrow> (\<forall>i < remaining. address + i \<in> mapped)"
  using assms
proof (induction vtophys address remaining rule: dma_walk.induct)
  case (1 v a n)
  show ?case
  proof (cases "n > 0")
    case True
    then have n: "n \<noteq> 0" by auto
    show ?thesis
    proof (cases "v a n")
      case None
      with vtophys_translatesD [OF 1(2) n, of a] have "a + 0 \<notin> mapped" by simp
      with None True show ?thesis
        by (subst dma_walk.simps) auto
    next
      case (Some m)
      let ?k = "min m n"
      from vtophys_translatesD [OF 1(2) n, of a] Some
      have m: "m \<noteq> 0" "\<forall>i. i < m \<and> i < n \<longrightarrow> a + i \<in> mapped" by simp_all
      have "dma_walk v a n = dma_walk v (a + ?k) (n - ?k)"
        using True Some m(1) by (subst dma_walk.simps) simp
      also have "\<dots> \<longleftrightarrow> (\<forall>i < n - ?k. a + ?k + i \<in> mapped)"
        using 1(1) [OF True Some m(1) 1(2)] .
      also have "\<dots> \<longleftrightarrow> (\<forall>i < n. a + i \<in> mapped)"
        using m(2) by (subst word_all_less_split [of ?k n]) (auto simp: add.assoc min_def split: if_splits)
      finally show ?thesis .
    qed
  next
    case False
    then have "n = 0" by (simp add: word_neq_0_conv [symmetric])
    then show ?thesis by (subst dma_walk.simps) simp
  qed
qed

text \<open>
  C21: DMA capability.  For every \<^verbatim>\<open>spdk_vtophys\<close> that behaves as documented the page walk ends, and
  the buffer is accepted exactly when it is a non-empty buffer, aligned as the device asks, that does
  not run past the end of the address space, is asked for on the owner thread, and all of whose bytes
  are registered for DMA.
\<close>

theorem buffer_is_dma_capable_iff:
  assumes "vtophys_translates vtophys mapped"
  shows "zettide_spdk_bdev_buffer_is_dma_capable vtophys self (Some e) buffer len \<longleftrightarrow>
    buffer \<noteq> 0 \<and> 0 < unat len \<and> self = ep_owner e \<and>
    (1 < unat (buffer_alignment (ep_geometry e)) \<longrightarrow> unat (buffer_alignment (ep_geometry e)) dvd unat buffer) \<and>
    unat buffer + unat len < 2 ^ 64 \<and> (\<forall>i < len. buffer + i \<in> mapped)"
proof -
  have "len \<le> UINT64_MAX - buffer \<longleftrightarrow> unat buffer + unat len < 2 ^ 64"
    using range_check_iff [of UINT64_MAX buffer len]
    by (simp add: not_less unsigned_minus_1_eq_mask mask_eq_exp_minus_1) arith
  then show ?thesis
    by (auto simp: zettide_spdk_bdev_buffer_is_dma_capable_def dma_walk_iff [OF assms] on_owner_thread_def
        word_mod_eq_0_iff_dvd not_less unat_gt_0 word_less_nat_alt [of 1])
qed

text \<open>A device and an endpoint to apply the theorems to: 512-byte blocks, write units of 8 blocks.\<close>

definition example_bdev :: bdev where
  "example_bdev = \<lparr>bd_name = ''Nvme0n1'', bd_num_blocks = 1024, bd_block_size = 512, bd_buf_align = 4096,
     bd_write_unit = 8, bd_read_supported = True, bd_write_supported = True, bd_flush_supported = True,
     bd_write_cache = True, bd_md_size = 0, bd_zoned = False\<rparr>"

definition example_endpoint :: endpoint where
  "example_endpoint = \<lparr>ep_owner = Some 7, ep_geometry = geometry_of True example_bdev, ep_outstanding = 0,
     ep_writable = True, ep_removed = False, ep_event_cb = True\<rparr>"

lemma example_geometry: "wf_geometry (ep_geometry example_endpoint)"
  by (simp add: example_endpoint_def example_bdev_def wf_geometry_def geometry_of_def)

theorem validate_range_iff_witness:
  "validate_range (Some 7) example_endpoint 0x20000 0x1000 0x2000 True = 0 \<and>
   validate_range (Some 7) example_endpoint 0x20000 0x7F000 0x2000 True \<noteq> 0"
  using validate_range_iff [OF example_geometry refl]
  by (simp add: example_endpoint_def example_bdev_def geometry_of_def)

text \<open>Two registered regions that touch at 0x300000.\<close>

definition example_vtophys :: vtophys where
  "example_vtophys a n =
     (if 0x200000 \<le> a \<and> a < 0x300000 then Some (0x300000 - a)
      else if 0x300000 \<le> a \<and> a < 0x400000 then Some (0x400000 - a) else None)"

lemma example_vtophys_translates: "vtophys_translates example_vtophys {a. 0x200000 \<le> a \<and> a < 0x400000}"
proof -
  have step: "lo \<le> a + i \<and> a + i < hi"
    if "lo \<le> a" "a < e" "e \<le> hi" "i < e - a" for lo a e hi i :: u64
    using that word_add_less_diff [of a e i] by (meson less_imp_le order_trans order_less_le_trans)
  have lo: "0x200000 \<le> a" if "0x300000 \<le> a" for a :: u64
    by (rule order_trans [OF _ that]) simp
  have hi: "a < 0x400000" if "a < 0x300000" for a :: u64
    by (rule order_less_trans [OF that]) simp
  show ?thesis
    using step [of "0x200000" _ "0x300000" "0x400000"] step [of "0x200000" _ "0x400000" "0x400000"]
    by (auto simp: vtophys_translates_def example_vtophys_def lo hi dest: leI lo hi)
qed

theorem buffer_is_dma_capable_iff_witness:
  "zettide_spdk_bdev_buffer_is_dma_capable example_vtophys (Some 7) (Some example_endpoint) 0x2FF000 0x2000"
proof -
  have "0x200000 \<le> 0x2FF000 + i \<and> 0x2FF000 + i < 0x400000" if "i < 0x2000" for i :: u64
  proof -
    from that have "0x2FF000 + i < 0x301000 \<and> 0x2FF000 \<le> 0x2FF000 + i"
      by (intro word_add_less_diff) simp_all
    moreover have "(0x200000 :: u64) \<le> 0x2FF000" "(0x301000 :: u64) < 0x400000"
      by simp_all
    ultimately show ?thesis
      by (meson order_trans order_less_trans)
  qed
  then show ?thesis
    using buffer_is_dma_capable_iff [OF example_vtophys_translates]
    by (simp add: example_endpoint_def example_bdev_def geometry_of_def)
qed


subsection \<open>Open and close\<close>

lemma open_fail_run:
  assumes "live w = Bdev_descriptor # Endpoint_obj # ms"
  shows "run_state (open_fail rc) w =
    ((rc, False), w\<lparr>log := log w @ [Spdk_bdev_close, Free Endpoint_obj], live := ms\<rparr>)"
  using assms by (simp add: open_fail_def)

text \<open>The device can be served: the checks of open that do not depend on resources.\<close>

definition bdev_usable :: "bdev \<Rightarrow> bool \<Rightarrow> bool" where
  "bdev_usable b writable \<longleftrightarrow> bd_read_supported b \<and> (writable \<longrightarrow> bd_write_supported b) \<and>
     bd_md_size b = 0 \<and> \<not> bd_zoned b \<and> bd_block_size b \<noteq> 0 \<and>
     unat (bd_num_blocks b) * unat (bd_block_size b) < 2 ^ 64 \<and> bd_buf_align b \<le> UINT32_MAX"

lemma bdev_usable_geometry:
  "bd_block_size b \<noteq> 0 \<Longrightarrow> unat (bd_num_blocks b) * unat (bd_block_size b) < 2 ^ 64 \<longleftrightarrow>
    \<not> bd_num_blocks b > UINT64_MAX div ucast (bd_block_size b)"
  using unat_mult_le_max_div [of "ucast (bd_block_size b)" "bd_num_blocks b"]
    max_div_less_mult_overflow [of "ucast (bd_block_size b)" "bd_num_blocks b"]
    unsigned_less [of "bd_num_blocks b * ucast (bd_block_size b)", where ?'a = nat]
  by (auto simp: not_less not_le intro: leI)

lemma bdev_usable_wf: "bdev_usable b writable \<Longrightarrow> wf_geometry (geometry_of writable b)"
  using bdev_usable_geometry [of b] by (auto simp: bdev_usable_def intro!: wf_geometry_of)

text \<open>Only the log, the resources and the endpoint differ.\<close>

definition ep_frame :: "'x ep_world_scheme \<Rightarrow> 'x ep_world_scheme \<Rightarrow> bool" where
  "ep_frame w w' \<longleftrightarrow> w' = w\<lparr>log := log w', live := live w', ep := ep w'\<rparr>"

lemma ep_frameD:
  assumes "ep_frame w w'"
  shows "aborted w' = aborted w" "dev w' = dev w" "requests w' = requests w" "next_request w' = next_request w"
    "in_flight w' = in_flight w" "waiting w' = waiting w" "called w' = called w"
    "ep_world.more w' = ep_world.more w"
  by (subst assms [unfolded ep_frame_def], simp)+

text \<open>What open changes, and what it holds afterwards.\<close>

lemma bdev_open_run:
  assumes "run_state (zettide_spdk_bdev_open env self name writable event_cb out) w = ((status, published), w')"
  shows "ep_frame w w' \<and> (published \<longleftrightarrow> status = 0) \<and>
    (if published then bdev_usable (dev w) writable \<and> self \<noteq> None \<and>
       ep w' = \<lparr>ep_owner = self, ep_geometry = geometry_of writable (dev w), ep_outstanding = 0,
         ep_writable = writable, ep_removed = False, ep_event_cb = event_cb\<rparr> \<and>
       live w' = [Io_channel, Bdev_descriptor, Endpoint_obj] @ live w
     else live w' = live w)"
proof -
  let ?c1 = "Calloc Endpoint_obj" and ?c2 = "Spdk_bdev_open_ext (the name) writable"
  let ?b = "dev w" and ?m = "zettide_spdk_bdev_open env self name writable event_cb out"
  have r: "status = fst (result ?m w)" "published = snd (result ?m w)" "w' = final ?m w"
    using assms by simp_all
  show ?thesis
  proof (cases "name = None \<or> \<not> out \<or> self = None \<or> env (log w) ?c1 = 0 \<or> env (log w @ [?c1]) ?c2 \<noteq> 0")
    case True
    then show ?thesis
      unfolding r by (auto simp: zettide_spdk_bdev_open_def ep_frame_def)
  next
    case opened: False
    show ?thesis
    proof (cases "bd_read_supported ?b \<and> (writable \<longrightarrow> bd_write_supported ?b) \<and> bd_md_size ?b = 0 \<and>
        \<not> bd_zoned ?b \<and> env (log w @ [?c1, ?c2]) Spdk_bdev_get_io_channel \<noteq> 0")
      case False
      with opened show ?thesis
        unfolding r by (auto simp: zettide_spdk_bdev_open_def open_fail_run ep_frame_def)
    next
      case True
      with opened show ?thesis
        unfolding r by (auto simp: zettide_spdk_bdev_open_def open_fail_run refresh_geometry_run ep_frame_def
            bdev_usable_def bdev_usable_geometry [simplified])
    qed
  qed
qed

text \<open>
  C22: Opening a device.  Whatever libc and SPDK answer no assertion fails and nothing is freed twice;
  an endpoint is handed out exactly when the status is 0.  Then the device passed every check, the
  geometry is that of the device with a capacity that did not overflow, and exactly the endpoint, the
  descriptor and the channel are held.  On every error path all of them are given back.
\<close>

theorem bdev_open_outcome:
  assumes "\<not> aborted w"
    and "run_state (zettide_spdk_bdev_open env self name writable event_cb out) w = ((status, published), w')"
  shows "\<not> aborted w' \<and> (published \<longleftrightarrow> status = 0) \<and>
    (if published then ep_opened w' \<and> bdev_usable (dev w) writable \<and> ep_owner (ep w') = self \<and> self \<noteq> None \<and>
       ep_geometry (ep w') = geometry_of writable (dev w) \<and>
       live w' = [Io_channel, Bdev_descriptor, Endpoint_obj] @ live w
     else live w' = live w)"
proof -
  note run = bdev_open_run [OF assms(2)]
  then have "aborted w' = aborted w"
    by (blast dest: ep_frameD)
  with run assms(1) bdev_usable_wf [of "dev w" writable] show ?thesis
    by (simp add: ep_opened_def split: if_splits)
qed

definition example_world :: ep_world where
  "example_world = \<lparr>log = [], aborted = False, live = [], mailbox = [], ep = example_endpoint,
     dev = example_bdev, requests = [], next_request = 0, in_flight = [], waiting = [], called = [], events = []\<rparr>"

text \<open>Allocations and the channel succeed; the second read is answered \<^verbatim>\<open>-ENOMEM\<close> at first.\<close>

definition io_env :: env where
  "io_env l c = (case c of Calloc _ \<Rightarrow> 1 | Spdk_bdev_get_io_channel \<Rightarrow> 1
     | Spdk_bdev_read n _ _ _ \<Rightarrow> if n = 1 \<and> c \<notin> set l then - ENOMEM else 0 | _ \<Rightarrow> 0)"

theorem bdev_open_outcome_witness:
  "\<exists>w'. run_state (zettide_spdk_bdev_open io_env (Some 7) (Some ''Nvme0n1'') True True True) example_world =
      ((0, True), w') \<and> ep_opened w' \<and> live w' = [Io_channel, Bdev_descriptor, Endpoint_obj]"
proof -
  let ?m = "zettide_spdk_bdev_open io_env (Some 7) (Some ''Nvme0n1'') True True True"
  have "result ?m example_world = (0, True)"
    by (simp add: zettide_spdk_bdev_open_def io_env_def example_world_def example_bdev_def refresh_geometry_run)
  then have run: "run_state ?m example_world = ((0, True), final ?m example_world)"
    by (simp add: prod_eq_iff)
  with bdev_open_outcome [OF _ run] show ?thesis
    by (auto simp: example_world_def)
qed

end
