(* ===== verification/Endpoint_Requests.thy ===== *)
theory Endpoint_Requests
  imports Endpoint "HOL-Library.Multiset"
begin

text \<open>
  The requests of an endpoint: a transition system of the submissions, completions, retries, device
  events and the close, with the ledger invariant that accounts for every request until its callback
  has run.
\<close>

subsection \<open>The endpoint as a transition system\<close>

datatype ep_op =
    Op_read u64 u64 u64 bool
  | Op_write u64 u64 u64 bool
  | Op_flush u64 u64 bool

definition run_op :: "env \<Rightarrow> thread option \<Rightarrow> ep_op \<Rightarrow> ('x ep_world_scheme, int) state" where
  "run_op env self op =
     (case op of
        Op_read buffer offset len callback \<Rightarrow> zettide_spdk_bdev_read env self True buffer offset len callback
      | Op_write buffer offset len callback \<Rightarrow> zettide_spdk_bdev_write env self True buffer offset len callback
      | Op_flush offset len callback \<Rightarrow> zettide_spdk_bdev_flush env self True offset len callback)"

text \<open>
  Clients submit and close, SPDK completes what it accepted, retries what it queued and reports
  events, in any order.  \<open>accepted\<close> lists the requests whose submission returned 0, \<open>closed\<close> says that
  the endpoint was freed; a completion or retry that is still owed then would use it after free.  A
  process cannot have \<open>2 ^ 64\<close> requests outstanding.
\<close>

record ep_sys = ep_world +
  accepted :: "nat list"
  closed :: bool

inductive ep_step :: "env \<Rightarrow> ep_sys \<Rightarrow> ep_sys \<Rightarrow> bool" for env where
  submit: "\<not> closed s \<Longrightarrow> length (requests s) + 1 < 2 ^ 64 \<Longrightarrow>
     run_state (run_op env self op) s = (rc, s') \<Longrightarrow>
     ep_step env s (s'\<lparr>accepted := accepted s' @ (if rc = 0 then [next_request s] else [])\<rparr>)"
| complete: "\<not> closed s \<Longrightarrow> n \<in> set (in_flight s) \<Longrightarrow>
     ep_step env s (final (complete_request n success aio_status) (s\<lparr>in_flight := remove1 n (in_flight s)\<rparr>))"
| retry: "\<not> closed s \<Longrightarrow> n \<in> set (waiting s) \<Longrightarrow>
     ep_step env s (final (retry_request env n) (s\<lparr>waiting := remove1 n (waiting s)\<rparr>))"
| event: "\<not> closed s \<Longrightarrow> ep_step env s (final (bdev_event ev) (s\<lparr>dev := b\<rparr>))"
| close: "\<not> closed s \<Longrightarrow> run_state (zettide_spdk_bdev_close self True) s = (rc, s') \<Longrightarrow>
     ep_step env s (s'\<lparr>closed := (rc = 0)\<rparr>)"
| use_after_free: "closed s \<Longrightarrow> in_flight s @ waiting s \<noteq> [] \<Longrightarrow> ep_step env s (s\<lparr>aborted := True\<rparr>)"

definition ep_initial :: "ep_sys \<Rightarrow> bool" where
  "ep_initial s \<longleftrightarrow> ep_opened s \<and> requests s = [] \<and> in_flight s = [] \<and> waiting s = [] \<and> called s = [] \<and>
     accepted s = [] \<and> \<not> closed s"

inductive ep_reachable :: "env \<Rightarrow> ep_sys \<Rightarrow> bool" for env where
  ep_start: "ep_initial s \<Longrightarrow> ep_reachable env s"
| ep_next: "ep_reachable env s \<Longrightarrow> ep_step env s t \<Longrightarrow> ep_reachable env t"

text \<open>
  The request ledger: the store holds exactly the requests SPDK owes something for, the counter counts
  them, and every accepted request is either owed or has been called back.
\<close>

definition ledger :: "'x ep_world_scheme \<Rightarrow> bool" where
  "ledger w \<longleftrightarrow> \<not> aborted w \<and> distinct (map fst (requests w)) \<and>
     (\<forall>x \<in> set (requests w). fst x < next_request w) \<and>
     length (requests w) < 2 ^ 64 \<and> ep_outstanding (ep w) = of_nat (length (requests w)) \<and>
     wf_geometry (ep_geometry (ep w))"

definition ep_inv :: "ep_sys \<Rightarrow> bool" where
  "ep_inv s \<longleftrightarrow> ledger s \<and>
     mset (map fst (requests s)) = mset (in_flight s) + mset (waiting s) \<and>
     mset (accepted s) = mset (map fst (called s)) + mset (map fst (requests s)) \<and>
     distinct (accepted s) \<and> (\<forall>n \<in> set (accepted s). n < next_request s) \<and>
     (if closed s then requests s = [] else {Io_channel, Bdev_descriptor, Endpoint_obj} \<subseteq> set (live s))"

subsection \<open>The request ledger\<close>

lemma map_fst_filter_neq:
  assumes "distinct (map fst rs)" and "n \<in> fst ` set rs"
  shows "mset (map fst (filter (\<lambda>(m, _). m \<noteq> n) rs)) = mset (map fst rs) - {#n#}"
    and "length rs = Suc (length (filter (\<lambda>(m, _). m \<noteq> n) rs))"
proof -
  have eq: "mset (map fst (filter (\<lambda>(m, _). m \<noteq> n) rs)) + {#n#} = mset (map fst rs)"
    using assms
  proof (induction rs)
    case (Cons x rs)
    have "filter (\<lambda>(m, _). m \<noteq> n) rs = rs" if "n \<notin> fst ` set rs"
      using that by (force simp: filter_id_conv)
    with Cons show ?case by (cases x) (auto simp del: mset_filter)
  qed simp
  then show "mset (map fst (filter (\<lambda>(m, _). m \<noteq> n) rs)) = mset (map fst rs) - {#n#}"
    by (metis add_diff_cancel_right')
  show "length rs = Suc (length (filter (\<lambda>(m, _). m \<noteq> n) rs))"
    using arg_cong [OF eq, of size] by (simp del: mset_filter)
qed

definition without_request :: "nat \<Rightarrow> 'x ep_world_scheme \<Rightarrow> 'x ep_world_scheme" where
  "without_request n w = w\<lparr>ep := (ep w)\<lparr>ep_outstanding := ep_outstanding (ep w) - 1\<rparr>,
     requests := filter (\<lambda>(m, _). m \<noteq> n) (requests w)\<rparr>"

lemma finish_request_run:
  "n \<in> fst ` set (requests w) \<Longrightarrow> run_state (finish_request n status) w =
     ((), (without_request n w)\<lparr>called := called w @ [(n, status)]\<rparr>)"
  by (simp add: finish_request_def free_request_def without_request_def)

lemma ledger_without_request:
  assumes "ledger w" and "n \<in> fst ` set (requests w)"
  shows "ledger (without_request n w)"
    and "mset (map fst (requests (without_request n w))) = mset (map fst (requests w)) - {#n#}"
proof -
  note rs = map_fst_filter_neq [of "requests w" n]
  have len: "length (requests w) = Suc (length (filter (\<lambda>(m, _). m \<noteq> n) (requests w)))"
    using assms by (intro rs(2)) (simp_all add: ledger_def)
  then have "(of_nat (length (requests w)) - 1 :: u64) = of_nat (length (filter (\<lambda>(m, _). m \<noteq> n) (requests w)))"
    by simp
  moreover have "distinct (map fst (filter (\<lambda>(m, _). m \<noteq> n) (requests w)))"
    using assms(1) by (simp add: ledger_def distinct_map_filter)
  ultimately show "ledger (without_request n w)"
    using assms len by (auto simp: ledger_def without_request_def)
  show "mset (map fst (requests (without_request n w))) = mset (map fst (requests w)) - {#n#}"
    using assms rs(1) by (simp add: ledger_def without_request_def)
qed

text \<open>Issuing a request files it with SPDK exactly when it returns 0, and changes nothing else.\<close>

definition issued :: "nat \<Rightarrow> int \<Rightarrow> 'x ep_world_scheme \<Rightarrow> 'x ep_world_scheme \<Rightarrow> bool" where
  "issued n rc w w' \<longleftrightarrow> w' = w\<lparr>log := log w', in_flight := in_flight w', waiting := waiting w'\<rparr> \<and>
     mset (in_flight w') + mset (waiting w') =
       mset (in_flight w) + mset (waiting w) + (if rc = 0 then {#n#} else {#})"

lemma issue_request_run:
  assumes "n \<in> fst ` set (requests w)" and "run_state (issue_request env n) w = (rc, w')"
  shows "issued n rc w w'"
proof -
  obtain r where r: "map_of (requests w) n = Some r"
    using assms(1) by (auto dest: weak_map_of_SomeI)
  let ?c = "io_call n r"
  let ?q = "Spdk_bdev_queue_io_wait n"
  have w': "w' = final (issue_request env n) w" and rc: "rc = result (issue_request env n) w"
    using assms(2) by simp_all
  consider "env (log w) ?c = 0" | "env (log w) ?c \<noteq> 0" "env (log w) ?c \<noteq> - ENOMEM"
    | "env (log w) ?c = - ENOMEM" "env (log w @ [?c]) ?q = 0"
    | "env (log w) ?c = - ENOMEM" "env (log w @ [?c]) ?q \<noteq> 0"
    by blast
  then show ?thesis
    unfolding w' rc by cases (use r in \<open>simp_all add: issue_request_def issued_def\<close>)
qed

text \<open>A submission that returns 0 files one new request; any other leaves the ledger as it was.\<close>

definition submitted :: "int \<Rightarrow> 'x ep_world_scheme \<Rightarrow> 'x ep_world_scheme \<Rightarrow> bool" where
  "submitted rc w w' \<longleftrightarrow> called w' = called w \<and> live w' = live w \<and> next_request w \<le> next_request w' \<and>
     ep_world.more w' = ep_world.more w \<and>
     (if rc = 0
      then next_request w' = Suc (next_request w) \<and>
        mset (map fst (requests w')) = mset (map fst (requests w)) + {#next_request w#} \<and>
        mset (in_flight w') + mset (waiting w') = mset (in_flight w) + mset (waiting w) + {#next_request w#}
      else requests w' = requests w \<and>
        mset (in_flight w') + mset (waiting w') = mset (in_flight w) + mset (waiting w))"

lemma submit_request_run:
  assumes "ledger w" and "length (requests w) + 1 < 2 ^ 64"
    and "run_state (submit_request env True operation buffer offset len True) w = (rc, w')"
  shows "ledger w' \<and> submitted rc w w'"
proof (cases "env (log w) (Calloc (Request_obj (next_request w))) = 0")
  case True
  with assms have "rc \<noteq> 0" and "w' = w\<lparr>log := log w @ [Calloc (Request_obj (next_request w))]\<rparr>"
    by (auto simp: submit_request_def)
  with assms(1) show ?thesis
    by (simp add: submitted_def ledger_def)
next
  case False
  let ?n = "next_request w"
  let ?r = "\<lparr>rq_operation = operation, rq_buffer = buffer, rq_offset = offset, rq_length = len\<rparr>"
  let ?w = "w\<lparr>log := log w @ [Calloc (Request_obj ?n)], next_request := Suc ?n,
      requests := (?n, ?r) # requests w,
      ep := (ep w)\<lparr>ep_outstanding := ep_outstanding (ep w) + 1\<rparr>\<rparr>"
  obtain rc' v where v: "run_state (issue_request env ?n) ?w = (rc', v)"
    by (rule prod.exhaust)
  have fresh: "?n \<notin> fst ` set (requests w)"
    using assms(1) by (auto simp: ledger_def)
  then have rest: "filter (\<lambda>(m, _). m \<noteq> ?n) (requests w) = requests w"
    by (force simp: filter_id_conv)
  have "issued ?n rc' ?w v"
    by (rule issue_request_run [OF _ v]) simp
  then have v': "v = ?w\<lparr>log := log v, in_flight := in_flight v, waiting := waiting v\<rparr>"
    "mset (in_flight v) + mset (waiting v) =
      mset (in_flight w) + mset (waiting w) + (if rc' = 0 then {#?n#} else {#})"
    by (simp_all add: issued_def)
  have "requests v = (?n, ?r) # requests w" "ep v = ep ?w" "aborted v = aborted w" "called v = called w"
    "live v = live w" "next_request v = Suc ?n" "ep_world.more v = ep_world.more w"
    by (subst v'(1), simp)+
  note v'' = this v'(2)
  show ?thesis
  proof (cases "rc' = 0")
    case True
    with False v assms(3) have "rc = 0" "w' = v"
      by (simp_all add: submit_request_def)
    with True v'' assms(1,2) fresh show ?thesis
      by (simp add: submitted_def ledger_def less_Suc_eq)
  next
    case failed: False
    with False v assms(3) have "rc \<noteq> 0" "w' = without_request ?n v"
      using v'' by (simp_all add: submit_request_def free_request_def without_request_def)
    with failed v'' assms(1,2) rest show ?thesis
      by (simp add: submitted_def ledger_def less_Suc_eq without_request_def)
  qed
qed

lemma submitted_refused: "rc \<noteq> 0 \<Longrightarrow> submitted rc w w"
  by (simp add: submitted_def)

lemma submit_request_no_callback:
  "run_state (submit_request env True operation buffer offset len False) w = (- EINVAL, w)"
  by (simp add: submit_request_def)

lemma run_op_run:
  assumes "ledger w" and "length (requests w) + 1 < 2 ^ 64" and "run_state (run_op env self op) w = (rc, w')"
  shows "ledger w' \<and> submitted rc w w'"
proof -
  have sub: "ledger w' \<and> submitted rc w w'"
    if "run_state (submit_request env True operation buffer offset len callback) w = (rc, w')"
    for operation buffer offset len callback
    using that submit_request_run [OF assms(1,2)] assms(1) submitted_refused [of "- EINVAL" w]
    by (cases callback) (auto simp: submit_request_no_callback)
  show ?thesis
    using assms(1,3) sub
    by (cases op) (auto simp: run_op_def zettide_spdk_bdev_read_def zettide_spdk_bdev_write_def
        zettide_spdk_bdev_flush_def Let_def submitted_refused split: if_splits)
qed

lemma bdev_event_frame:
  assumes "w' = final (bdev_event ev) w"
  shows "w' = w\<lparr>ep := (ep w)\<lparr>ep_geometry := ep_geometry (ep w'), ep_removed := ep_removed (ep w')\<rparr>,
      events := events w'\<rparr>"
    and "wf_geometry (ep_geometry (ep w)) \<Longrightarrow> wf_geometry (ep_geometry (ep w'))"
  using assms
  by (cases ev; simp add: bdev_event_def report_event_def refresh_geometry_run wf_geometry_of)+

lemma ep_sys_more:
  "ep_world.more s = ep_world.more t \<Longrightarrow> accepted s = accepted t \<and> closed s = closed t"
  by (cases s; cases t) simp

text \<open>What the invariant says of the sets of requests, apart from the ledger.\<close>

lemma ep_invD:
  assumes "ep_inv s"
  shows "ledger s" and "mset (map fst (requests s)) = mset (in_flight s) + mset (waiting s)"
    and "mset (accepted s) = mset (map fst (called s)) + mset (map fst (requests s))"
    and "n \<in> set (in_flight s) \<Longrightarrow> n \<in> fst ` set (requests s)"
    and "n \<in> set (waiting s) \<Longrightarrow> n \<in> fst ` set (requests s)"
proof -
  show "ledger s" and owed: "mset (map fst (requests s)) = mset (in_flight s) + mset (waiting s)"
    and "mset (accepted s) = mset (map fst (called s)) + mset (map fst (requests s))"
    using assms by (simp_all add: ep_inv_def)
  have "fst ` set (requests s) = set (in_flight s) \<union> set (waiting s)"
    using arg_cong [OF owed, of set_mset] by simp
  then show "n \<in> set (in_flight s) \<Longrightarrow> n \<in> fst ` set (requests s)"
    and "n \<in> set (waiting s) \<Longrightarrow> n \<in> fst ` set (requests s)"
    by blast+
qed

text \<open>A request that SPDK stopped owing is finished: the invariant holds again.\<close>

lemma ep_inv_finish:
  assumes "ep_inv s" and "\<not> closed s" and "n \<in> fst ` set (requests s)"
    and s': "s' = s\<lparr>log := log s', in_flight := in_flight s', waiting := waiting s'\<rparr>"
    and "mset (in_flight s') + mset (waiting s') = mset (in_flight s) + mset (waiting s) - {#n#}"
  shows "ep_inv (final (finish_request n status) s')"
proof -
  note inv = ep_invD(1-3) [OF assms(1)]
  have same: "requests s' = requests s" "accepted s' = accepted s" "called s' = called s" "closed s' = closed s"
    "next_request s' = next_request s" "live s' = live s" "aborted s' = aborted s" "ep s' = ep s"
    by (subst s', simp)+
  have "ledger s'"
    using inv(1) by (simp add: ledger_def same)
  note led = ledger_without_request [OF this, of n]
  have mem: "n \<in># mset (map fst (requests s))"
    using assms(3) by simp
  have "ledger ((without_request n s')\<lparr>called := called s @ [(n, status)]\<rparr>)"
    using led(1) assms(3) by (simp add: ledger_def same)
  moreover have "mset (map fst (requests (without_request n s'))) = mset (in_flight s') + mset (waiting s')"
    using led(2) assms(3,5) inv(2) by (simp add: same)
  moreover have "mset (accepted s) = mset (map fst (called s @ [(n, status)])) +
      mset (map fst (requests (without_request n s')))"
    using led(2) assms(3) inv(3) mem by (simp add: same)
  ultimately show ?thesis
    using assms(1-3) by (simp add: ep_inv_def finish_request_run same) (simp add: without_request_def same)
qed

lemma ep_inv_retry:
  assumes "ep_inv s" and "\<not> closed s" and w: "n \<in> set (waiting s)"
  shows "ep_inv (final (retry_request env n) (s\<lparr>waiting := remove1 n (waiting s)\<rparr>))"
proof -
  note n = ep_invD(5) [OF assms(1,3)]
  note finish = ep_inv_finish [OF assms(1,2) n]
  let ?s = "s\<lparr>waiting := remove1 n (waiting s)\<rparr>"
  show ?thesis
  proof (cases "ep_removed (ep s)")
    case True
    then show ?thesis
      using finish [of ?s] w by (simp add: retry_request_def)
  next
    case False
    obtain rc v where v: "run_state (issue_request env n) ?s = (rc, v)"
      by (rule prod.exhaust)
    have "issued n rc ?s v"
      using n by (intro issue_request_run [OF _ v]) simp
    then have v': "v = s\<lparr>log := log v, in_flight := in_flight v, waiting := waiting v\<rparr>"
      and owed: "mset (in_flight v) + mset (waiting v) =
        mset (in_flight s) + mset (remove1 n (waiting s)) + (if rc = 0 then {#n#} else {#})"
      by (simp_all add: issued_def)
    have same: "requests v = requests s" "accepted v = accepted s" "called v = called s" "closed v = closed s"
      "next_request v = next_request s" "live v = live s" "aborted v = aborted s" "ep v = ep s"
      by (subst v', simp)+
    show ?thesis
    proof (cases "rc = 0")
      case True
      with False v owed assms show ?thesis
        by (simp add: retry_request_def ep_inv_def ledger_def same)
    next
      case failed: False
      with False v owed finish [OF v', of rc] assms show ?thesis
        by (simp add: retry_request_def)
    qed
  qed
qed

lemma ep_inv_step:
  assumes "ep_step env s t" and "ep_inv s"
  shows "ep_inv t"
  using assms
proof (induction rule: ep_step.induct)
  case (submit s self op rc s')
  note inv = ep_invD [OF submit.prems]
  have s': "ledger s'" "submitted rc s s'"
    using run_op_run [OF inv(1) submit.hyps(2,3)] by blast+
  have more: "accepted s' = accepted s" "closed s' = closed s"
    using s'(2) ep_sys_more [of s' s] by (simp_all add: submitted_def)
  from s' submit.prems submit.hyps(1) more inv show ?case
    by (auto simp: ep_inv_def submitted_def ledger_def less_Suc_eq split: if_splits)
next
  case (complete s n success aio_status)
  note n = ep_invD(4) [OF complete.prems complete.hyps(2)]
  show ?case
    using ep_inv_finish [OF complete.prems complete.hyps(1) n] complete.hyps(2)
    by (simp add: complete_request_def)
next
  case (retry s n)
  then show ?case using ep_inv_retry [OF retry.prems retry.hyps] by simp
next
  case (event s ev b)
  note w' = bdev_event_frame [OF refl, where ev = ev and w = "s\<lparr>dev := b\<rparr>"]
  have "ledger (final (bdev_event ev) (s\<lparr>dev := b\<rparr>))"
    using event.prems w'(2) by (subst w'(1)) (simp add: ep_inv_def ledger_def)
  with event show ?case
    by (subst w'(1), subst (asm) w'(1)) (simp add: ep_inv_def)
next
  case (close s self rc s')
  then show ?case
    by (auto simp: zettide_spdk_bdev_close_def ep_inv_def ledger_def of_nat_eq_0_u64 split: if_splits)
next
  case (use_after_free s)
  then show ?case by (auto simp: ep_inv_def)
qed

lemma ep_reachable_inv: "ep_reachable env s \<Longrightarrow> ep_inv s"
proof (induction rule: ep_reachable.induct)
  case (ep_start s)
  then show ?case by (simp add: ep_initial_def ep_opened_def ep_inv_def ledger_def)
qed (rule ep_inv_step)

text \<open>
  C2: Every successful submission calls its callback exactly once.  In every state an endpoint can
  reach, whatever SPDK answers, in whatever order it completes and retries requests, and whenever the
  device is resized or removed: no freed request and no freed endpoint is used; a callback has run at
  most once, and only for a submission that returned 0; the outstanding count is the number of accepted
  submissions whose callback has not run; and when SPDK owes nothing more, or the endpoint has been
  closed, each accepted submission has had its callback.
\<close>

theorem bdev_callback_exactly_once:
  assumes "ep_reachable env s"
  shows "\<not> aborted s \<and> distinct (map fst (called s)) \<and> set (map fst (called s)) \<subseteq> set (accepted s) \<and>
    distinct (accepted s) \<and>
    unat (ep_outstanding (ep s)) = length (accepted s) - length (called s) \<and>
    (in_flight s = [] \<and> waiting s = [] \<or> closed s \<longrightarrow> mset (map fst (called s)) = mset (accepted s))"
proof -
  note inv = ep_reachable_inv [OF assms]
  note led = ep_invD(1) [OF inv] and owed = ep_invD(2) [OF inv] and acc = ep_invD(3) [OF inv]
  have sub: "mset (map fst (called s)) \<subseteq># mset (accepted s)"
    unfolding acc by (rule mset_subset_eq_add_left)
  have "distinct (accepted s)"
    using inv by (simp add: ep_inv_def)
  moreover from this have "distinct (map fst (called s))"
    using acc mset_eq_imp_distinct_iff [of "accepted s" "map fst (called s) @ map fst (requests s)"] by simp
  moreover have "length (requests s) = length (accepted s) - length (called s)"
    using arg_cong [OF acc, of size] by simp
  moreover have "mset (map fst (called s)) = mset (accepted s)" if "in_flight s = [] \<and> waiting s = [] \<or> closed s"
    using that owed acc inv by (auto simp: ep_inv_def)
  moreover have "set (map fst (called s)) \<subseteq> set (accepted s)"
    using set_mset_mono [OF sub] by simp
  ultimately show ?thesis
    using led unfolding ledger_def by (metis unat_of_nat_u64)
qed

text \<open>
  A read that SPDK first answers with \<^verbatim>\<open>-ENOMEM\<close>: it waits, is retried, completes, and the endpoint
  is closed.
\<close>

definition io_ready :: ep_sys where
  "io_ready = \<lparr>log = [], aborted = False, live = [Io_channel, Bdev_descriptor, Endpoint_obj], mailbox = [],
     ep = example_endpoint, dev = example_bdev, requests = [], next_request = 1, in_flight = [], waiting = [],
     called = [], events = [], accepted = [], closed = False\<rparr>"

definition example_read :: ep_op where
  "example_read = Op_read 0x20000 0x1000 0x2000 True"

definition io_waiting :: ep_sys where
  "io_waiting = (final (run_op io_env (Some 7) example_read) io_ready)\<lparr>accepted := [1]\<rparr>"

definition io_running :: ep_sys where
  "io_running = final (retry_request io_env 1) (io_waiting\<lparr>waiting := []\<rparr>)"

definition io_completed :: ep_sys where
  "io_completed = final (complete_request 1 False (- 5)) (io_running\<lparr>in_flight := []\<rparr>)"

definition io_closed :: ep_sys where
  "io_closed = (final (zettide_spdk_bdev_close (Some 7) True) io_completed)\<lparr>closed := True\<rparr>"

lemmas io_code = run_op_def zettide_spdk_bdev_read_def submit_request_def issue_request_def io_call_def
  retry_request_def complete_request_def finish_request_def free_request_def completion_status_def
  zettide_spdk_bdev_close_def validate_range_def on_owner_thread_def

lemmas io_states = io_closed_def io_completed_def io_running_def io_waiting_def io_ready_def
  example_read_def example_endpoint_def example_bdev_def geometry_of_def io_env_def Let_def

lemma io_states_eval:
  "run_state (run_op io_env (Some 7) example_read) io_ready = (0, io_waiting\<lparr>accepted := []\<rparr>)"
  "waiting io_waiting = [1]" "\<not> closed io_waiting" "in_flight io_running = [1]" "\<not> closed io_running"
  "run_state (zettide_spdk_bdev_close (Some 7) True) io_completed = (0, io_closed\<lparr>closed := False\<rparr>)"
  "\<not> closed io_completed" "called io_closed = [(1, - 5)]" "accepted io_closed = [1]" "closed io_closed"
  by (simp_all add: io_code io_states)

lemma io_closed_reachable: "ep_reachable io_env io_closed"
proof -
  have "ep_initial io_ready"
    using example_geometry by (simp add: ep_initial_def ep_opened_def io_ready_def example_endpoint_def)
  then have "ep_reachable io_env io_ready" by (rule ep_reachable.ep_start)
  from ep_reachable.ep_next [OF this ep_step.submit [OF _ _ io_states_eval(1)]]
  have "ep_reachable io_env io_waiting"
    by (simp add: io_ready_def io_waiting_def)
  from ep_reachable.ep_next [OF this ep_step.retry [of _ 1]] have "ep_reachable io_env io_running"
    by (simp add: io_states_eval io_running_def)
  from ep_reachable.ep_next [OF this ep_step.complete [of _ 1]] have "ep_reachable io_env io_completed"
    by (simp add: io_states_eval io_completed_def)
  moreover have "io_closed\<lparr>closed := True\<rparr> = io_closed"
    by (simp add: io_closed_def)
  ultimately show ?thesis
    using ep_reachable.ep_next [OF _ ep_step.close [OF _ io_states_eval(6)]] io_states_eval(7) by simp
qed

theorem bdev_callback_exactly_once_witness:
  "ep_reachable io_env io_closed \<and> closed io_closed \<and> mset (map fst (called io_closed)) = {#1#} \<and>
   ep_outstanding (ep io_closed) = 0"
  using bdev_callback_exactly_once [OF io_closed_reachable] io_closed_reachable io_states_eval(8-10)
  by (simp add: unat_eq_0)

end
