(* ===== verification/Rendezvous.thy ===== *)
theory Rendezvous
  imports Prelude
begin

text \<open>
  The hand-over between a blocked caller and an SPDK thread that \<^verbatim>\<open>bdev_dispatcher.c\<close>,
  \<^verbatim>\<open>bdev_provider.c\<close> and \<^verbatim>\<open>nvme_controller.c\<close> share.  The caller keeps a command on its stack, sends it
  to the owner thread and waits until the command is completed and the owner no longer uses it; the
  owner's handler either completes the command itself or starts an operation whose callback does, and
  then calls \<^verbatim>\<open>owner_done\<close>.  Each section of code under the command's mutex is one operation; the step
  relation interleaves them, with a wait that blocks until a signal and may also wake up spuriously.
  The locale states what the operations must do for the hand-over to work, and proves that it does.
\<close>

subsection \<open>The command\<close>

record command =
  cm_completed :: bool
  cm_owner_active :: bool
  cm_status :: int

text \<open>
  Lines 346 to 348 of the dispatcher's \<^verbatim>\<open>dispatch_command\<close>, and the condition of its wait loop.
\<close>

definition init_command :: "'x command_scheme \<Rightarrow> 'x command_scheme" where
  "init_command c = c\<lparr>cm_completed := False, cm_owner_active := True, cm_status := 0\<rparr>"

definition command_waits :: "'x command_scheme \<Rightarrow> bool" where
  "command_waits c \<longleftrightarrow> \<not> cm_completed c \<or> cm_owner_active c"

text \<open>
  The flag of the result says that the section signals the condition variable; \<open>None\<close> is a failed
  assertion.
\<close>

definition complete_command :: "int \<Rightarrow> 'x command_scheme \<Rightarrow> ('x command_scheme \<times> bool) option" where
  "complete_command status c =
     (if cm_completed c then None
      else Some (c\<lparr>cm_status := status, cm_completed := True\<rparr>, \<not> cm_owner_active c))"

definition owner_done :: "'x command_scheme \<Rightarrow> 'x command_scheme \<times> bool" where
  "owner_done c = (c\<lparr>cm_owner_active := False\<rparr>, cm_completed c)"

subsection \<open>The hand-over as a transition system\<close>

datatype owner_phase = Owner_pending | Owner_running | Owner_finished

text \<open>
  \<open>rv_owed\<close>: an asynchronous operation was started and its callback has not run; \<open>rv_blocked\<close>: the
  caller is inside \<^verbatim>\<open>pthread_cond_wait\<close>; \<open>rv_returned\<close>: the status the caller returned with, after
  which its stack frame is gone and any access to the command is a fault.
\<close>

record 'c rendezvous_sys =
  rv_command :: 'c
  rv_owner :: owner_phase
  rv_owed :: bool
  rv_blocked :: bool
  rv_returned :: "int option"
  rv_completions :: "int list"
  rv_fault :: bool

definition rv_complete ::
    "(int \<Rightarrow> 'c \<Rightarrow> ('c \<times> bool) option) \<Rightarrow> int \<Rightarrow> 'c rendezvous_sys \<Rightarrow> 'c rendezvous_sys" where
  "rv_complete complete status s =
     (if rv_returned s \<noteq> None then s\<lparr>rv_fault := True\<rparr>
      else case complete status (rv_command s) of
        None \<Rightarrow> s\<lparr>rv_fault := True\<rparr>
      | Some (c, signal) \<Rightarrow> s\<lparr>rv_command := c, rv_completions := status # rv_completions s,
          rv_blocked := rv_blocked s \<and> \<not> signal\<rparr>)"

definition rv_done :: "('c \<Rightarrow> 'c \<times> bool) \<Rightarrow> 'c rendezvous_sys \<Rightarrow> 'c rendezvous_sys" where
  "rv_done finish s =
     (if rv_returned s \<noteq> None then s\<lparr>rv_fault := True\<rparr>
      else case finish (rv_command s) of
        (c, signal) \<Rightarrow> s\<lparr>rv_command := c, rv_blocked := rv_blocked s \<and> \<not> signal\<rparr>)"

inductive rv_step ::
    "(int \<Rightarrow> 'c \<Rightarrow> ('c \<times> bool) option) \<Rightarrow> ('c \<Rightarrow> 'c \<times> bool) \<Rightarrow> ('c \<Rightarrow> bool) \<Rightarrow> ('c \<Rightarrow> int) \<Rightarrow>
     'c rendezvous_sys \<Rightarrow> 'c rendezvous_sys \<Rightarrow> bool"
  for complete :: "int \<Rightarrow> 'c \<Rightarrow> ('c \<times> bool) option"
    and finish :: "'c \<Rightarrow> 'c \<times> bool"
    and waits :: "'c \<Rightarrow> bool"
    and status_of :: "'c \<Rightarrow> int" where
  rv_start: "rv_owner s = Owner_pending \<Longrightarrow>
     rv_step complete finish waits status_of s (s\<lparr>rv_owner := Owner_running, rv_owed := True\<rparr>)"
| rv_sync: "rv_owner s = Owner_pending \<Longrightarrow>
     rv_step complete finish waits status_of s ((rv_complete complete status s)\<lparr>rv_owner := Owner_running\<rparr>)"
| rv_async: "rv_owed s \<Longrightarrow>
     rv_step complete finish waits status_of s ((rv_complete complete status s)\<lparr>rv_owed := False\<rparr>)"
| rv_finish: "rv_owner s = Owner_running \<Longrightarrow>
     rv_step complete finish waits status_of s ((rv_done finish s)\<lparr>rv_owner := Owner_finished\<rparr>)"
| rv_block: "rv_returned s = None \<Longrightarrow> \<not> rv_blocked s \<Longrightarrow> waits (rv_command s) \<Longrightarrow>
     rv_step complete finish waits status_of s (s\<lparr>rv_blocked := True\<rparr>)"
| rv_wake: "rv_blocked s \<Longrightarrow> rv_step complete finish waits status_of s (s\<lparr>rv_blocked := False\<rparr>)"
| rv_return: "rv_returned s = None \<Longrightarrow> \<not> rv_blocked s \<Longrightarrow> \<not> waits (rv_command s) \<Longrightarrow>
     rv_step complete finish waits status_of s (s\<lparr>rv_returned := Some (status_of (rv_command s))\<rparr>)"

definition rv_initial :: "'c \<Rightarrow> 'c rendezvous_sys" where
  "rv_initial c = \<lparr>rv_command = c, rv_owner = Owner_pending, rv_owed = False, rv_blocked = False,
     rv_returned = None, rv_completions = [], rv_fault = False\<rparr>"

subsection \<open>The contract\<close>

locale rendezvous =
  fixes complete :: "int \<Rightarrow> 'c \<Rightarrow> ('c \<times> bool) option"
    and finish :: "'c \<Rightarrow> 'c \<times> bool"
    and waits :: "'c \<Rightarrow> bool"
    and status_of :: "'c \<Rightarrow> int"
    and completed :: "'c \<Rightarrow> bool"
    and active :: "'c \<Rightarrow> bool"
  assumes complete_law: "\<not> completed c \<Longrightarrow>
      \<exists>c'. complete status c = Some (c', \<not> active c) \<and> completed c' \<and> active c' = active c \<and>
        status_of c' = status"
    and done_law: "finish c = (c', signal) \<Longrightarrow>
      \<not> active c' \<and> completed c' = completed c \<and> status_of c' = status_of c \<and> signal = completed c"
    and waits_law: "waits c \<longleftrightarrow> \<not> completed c \<or> active c"
begin

definition rv_inv :: "'c rendezvous_sys \<Rightarrow> bool" where
  "rv_inv s \<longleftrightarrow> \<not> rv_fault s \<and>
     active (rv_command s) = (rv_owner s \<noteq> Owner_finished) \<and>
     completed (rv_command s) = (rv_owner s \<noteq> Owner_pending \<and> \<not> rv_owed s) \<and>
     (rv_owner s = Owner_pending \<longrightarrow> \<not> rv_owed s) \<and>
     rv_completions s = (if completed (rv_command s) then [status_of (rv_command s)] else []) \<and>
     (rv_blocked s \<longrightarrow> \<not> completed (rv_command s) \<or> active (rv_command s)) \<and>
     (\<forall>status. rv_returned s = Some status \<longrightarrow> \<not> rv_blocked s \<and>
        completed (rv_command s) \<and> \<not> active (rv_command s) \<and> status = status_of (rv_command s))"

lemma rv_complete_run:
  assumes "rv_inv s" and "\<not> completed (rv_command s)"
  shows "\<exists>c'. rv_complete complete status s = s\<lparr>rv_command := c', rv_completions := [status],
      rv_blocked := rv_blocked s \<and> active (rv_command s)\<rparr> \<and>
    completed c' \<and> active c' = active (rv_command s) \<and> status_of c' = status"
proof -
  have "rv_returned s = None"
    using assms by (cases "rv_returned s") (auto simp: rv_inv_def waits_law)
  moreover obtain c' where "complete status (rv_command s) = Some (c', \<not> active (rv_command s))"
    "completed c'" "active c' = active (rv_command s)" "status_of c' = status"
    using complete_law [OF assms(2)] by blast
  ultimately show ?thesis
    using assms by (intro exI [of _ c']) (simp add: rv_complete_def rv_inv_def)
qed

lemma rv_inv_step:
  assumes "rv_step complete finish waits status_of s t" and "rv_inv s"
  shows "rv_inv t"
  using assms
proof (induction rule: rv_step.induct)
  case (rv_sync s status)
  then have "\<not> completed (rv_command s)" by (simp add: rv_inv_def)
  from rv_complete_run [OF rv_sync.prems this, of status] rv_sync show ?case
    by (auto simp: rv_inv_def waits_law)
next
  case (rv_async s status)
  then have "\<not> completed (rv_command s)" by (simp add: rv_inv_def)
  from rv_complete_run [OF rv_async.prems this, of status] rv_async show ?case
    by (auto simp: rv_inv_def waits_law)
next
  case (rv_finish s)
  obtain c' signal where d: "finish (rv_command s) = (c', signal)"
    by (rule prod.exhaust)
  have "rv_returned s = None"
    using rv_finish by (cases "rv_returned s") (auto simp: rv_inv_def waits_law)
  with d done_law [OF d] rv_finish show ?case
    by (auto simp: rv_inv_def rv_done_def waits_law)
qed (auto simp: rv_inv_def waits_law)

lemma rv_inv_reachable:
  assumes "(rv_step complete finish waits status_of)\<^sup>*\<^sup>* (rv_initial c) s"
    and "active c" and "\<not> completed c"
  shows "rv_inv s"
  using assms(1)
proof (induction rule: rtranclp_induct)
  case base
  show ?case using assms(2,3) by (simp add: rv_inv_def rv_initial_def)
next
  case (step s t)
  show ?case by (rule rv_inv_step [OF step.hyps(2) step.IH])
qed

text \<open>
  The hand-over is safe and never stuck: no access after the caller returned and no second completion;
  the caller returns with the one status the command was completed with, after the owner is done with
  it; and a caller that has not returned is never left blocked once the owner has finished and the
  operation has completed: it can return, or one of the other parties still has a section to run.
\<close>

lemma rendezvous_safe:
  assumes "(rv_step complete finish waits status_of)\<^sup>*\<^sup>* (rv_initial c) s"
    and "active c" and "\<not> completed c"
  shows "\<not> rv_fault s \<and> length (rv_completions s) \<le> 1 \<and>
    (\<forall>status. rv_returned s = Some status \<longrightarrow>
       rv_completions s = [status] \<and> rv_owner s = Owner_finished \<and> \<not> rv_owed s) \<and>
    (rv_returned s = None \<longrightarrow>
       rv_owner s \<noteq> Owner_finished \<or> rv_owed s \<or> (\<not> rv_blocked s \<and> \<not> waits (rv_command s)))"
  using rv_inv_reachable [OF assms] by (auto simp: rv_inv_def waits_law)

end

end
