(* ===== verification/Dispatcher.thy ===== *)
theory Dispatcher
  imports Runtime Endpoint Rendezvous
begin

text \<open>
  \<^verbatim>\<open>bdev_dispatcher.c\<close>: blocking calls on an endpoint from threads outside SPDK.  A command is sent to the
  endpoint's owner thread and waited for, as in \<open>Rendezvous\<close>; here the caller and the owner are
  composed in the order that hand-over enforces, so \<open>dispatch_command\<close> runs the owner's handler and,
  for a read, write or flush, the later events on the owner thread until the request has completed.
  Opening takes a lease on the runtime, closing gives it back.
\<close>

subsection \<open>State\<close>

record dispatcher =
  dp_owner :: "thread option"
  dp_runtime :: bool
  dp_endpoint :: bool

datatype dispatcher_operation =
    DISPATCHER_OPEN string bool
  | DISPATCHER_GET_GEOMETRY
  | DISPATCHER_GET_NAME
  | DISPATCHER_READ u64 u64 u64
  | DISPATCHER_WRITE u64 u64 u64
  | DISPATCHER_FLUSH u64 u64
  | DISPATCHER_CLOSE

text \<open>What a command leaves in its arguments for the caller.\<close>

datatype reply = No_reply | Geometry_reply geometry | Name_reply "string option"

record disp_world = ep_world +
  dp :: dispatcher
  lease_rt :: runtime

definition modify_dp :: "(dispatcher \<Rightarrow> dispatcher) \<Rightarrow> ('x disp_world_scheme, unit) state" where
  "modify_dp f = State (\<lambda>w. ((), w\<lparr>dp := f (dp w)\<rparr>))"

lemma run_modify_dp [run_simps, simp]: "run_state (modify_dp f) w = ((), w\<lparr>dp := f (dp w)\<rparr>)"
  by (simp add: modify_dp_def)

interpretation dispatcher_handover: rendezvous
  complete_command owner_done command_waits cm_status cm_completed cm_owner_active
  by unfold_locales (auto simp: complete_command_def owner_done_def command_waits_def)

subsection \<open>Commands on the owner thread\<close>

definition io_result :: "int \<Rightarrow> ('x disp_world_scheme, (int \<times> reply) option) state" where
  "io_result status = ret (if status \<noteq> 0 then Some (status, No_reply) else None)"

text \<open>
  The handler.  The result is the status it completes the command with, or \<open>None\<close> when an accepted
  request will complete it.
\<close>

definition run_command ::
    "env \<Rightarrow> thread option \<Rightarrow> dispatcher_operation \<Rightarrow> ('x disp_world_scheme, (int \<times> reply) option) state" where
  "run_command env self operation = do {
     d \<leftarrow> gets dp;
     e \<leftarrow> gets ep;
     b \<leftarrow> gets dev;
     let endpoint = (if dp_endpoint d then Some e else None);
     case operation of
       DISPATCHER_OPEN name writable \<Rightarrow> do {
         res \<leftarrow> zettide_spdk_bdev_open env self (Some name) writable False True;
         modify_dp (\<lambda>d. d\<lparr>dp_endpoint := snd res\<rparr>);
         ret (Some (fst res, No_reply))
       }
     | DISPATCHER_GET_GEOMETRY \<Rightarrow>
         (case zettide_spdk_bdev_get_geometry endpoint of
            None \<Rightarrow> ret (Some (- ENODEV, No_reply))
          | Some g \<Rightarrow> ret (Some (0, Geometry_reply g)))
     | DISPATCHER_GET_NAME \<Rightarrow>
         (case zettide_spdk_bdev_get_name self b endpoint of
            None \<Rightarrow> ret (Some (- ENODEV, No_reply))
          | Some name \<Rightarrow> do {
              ok \<leftarrow> alloc env (Strdup Name_copy) Name_copy;
              ret (Some (if ok then (0, Name_reply (Some name)) else (- ENOMEM, Name_reply None)))
            })
     | DISPATCHER_READ buffer offset len \<Rightarrow> do {
         status \<leftarrow> zettide_spdk_bdev_read env self (dp_endpoint d) buffer offset len True;
         io_result status
       }
     | DISPATCHER_WRITE buffer offset len \<Rightarrow> do {
         status \<leftarrow> zettide_spdk_bdev_write env self (dp_endpoint d) buffer offset len True;
         io_result status
       }
     | DISPATCHER_FLUSH offset len \<Rightarrow> do {
         status \<leftarrow> zettide_spdk_bdev_flush env self (dp_endpoint d) offset len True;
         io_result status
       }
     | DISPATCHER_CLOSE \<Rightarrow> do {
         status \<leftarrow> zettide_spdk_bdev_close self (dp_endpoint d);
         whenM (status = 0) (modify_dp (\<lambda>d. d\<lparr>dp_endpoint := False\<rparr>));
         ret (Some (status, No_reply))
       }
   }"

text \<open>
  What the owner thread goes on to do: SPDK completes the request that a command waits for, or
  retries it, among other events that do not concern the command.  \<^verbatim>\<open>io_complete\<close> completes the command
  with the status of the callback.  Without an event that completes it the caller stays blocked, the
  result \<open>None\<close>.
\<close>

datatype owner_event = Io_completed bool int | Io_retried

definition owner_event_step :: "env \<Rightarrow> nat \<Rightarrow> owner_event \<Rightarrow> ('x disp_world_scheme, unit) state" where
  "owner_event_step env n ev = do {
     fl \<leftarrow> gets in_flight;
     wt \<leftarrow> gets waiting;
     case ev of
       Io_completed success aio_status \<Rightarrow>
         whenM (n \<in> set fl) (do {
           modify (\<lambda>w. w\<lparr>in_flight := remove1 n fl\<rparr>);
           complete_request n success aio_status
         })
     | Io_retried \<Rightarrow>
         whenM (n \<in> set wt) (do {
           modify (\<lambda>w. w\<lparr>waiting := remove1 n wt\<rparr>);
           retry_request env n
         })
   }"

fun await_request ::
    "env \<Rightarrow> nat \<Rightarrow> owner_event list \<Rightarrow> ('x disp_world_scheme, (int \<times> reply) option) state" where
  "await_request env n evs = do {
     cs \<leftarrow> gets called;
     case map_of cs n of
       Some status \<Rightarrow> ret (Some (status, No_reply))
     | None \<Rightarrow>
         (case evs of
            [] \<Rightarrow> ret None
          | ev # evs \<Rightarrow> do { owner_event_step env n ev; await_request env n evs })
   }"

declare await_request.simps [simp del]

definition serve_command ::
    "env \<Rightarrow> thread option \<Rightarrow> dispatcher_operation \<Rightarrow> owner_event list \<Rightarrow>
     ('x disp_world_scheme, (int \<times> reply) option) state" where
  "serve_command env self operation evs = do {
     n \<leftarrow> gets next_request;
     r \<leftarrow> run_command env self operation;
     case r of Some x \<Rightarrow> ret (Some x) | None \<Rightarrow> await_request env n evs
   }"

subsection \<open>The caller\<close>

text \<open>
  \<open>on_spdk_thread\<close>: the caller runs on an SPDK thread.  The owner is the thread that serves the command.
\<close>

definition dispatch_command ::
    "env \<Rightarrow> bool \<Rightarrow> dispatcher_operation \<Rightarrow> owner_event list \<Rightarrow>
     ('x disp_world_scheme, (int \<times> reply) option) state" where
  "dispatch_command env on_spdk_thread operation evs =
     (if on_spdk_thread then ret (Some (- EDEADLK, No_reply))
      else do {
        rc \<leftarrow> ext env Pthread_setcancelstate;
        if rc \<noteq> 0 then ret (Some (- rc, No_reply))
        else do {
          rc \<leftarrow> ext env Pthread_mutex_init;
          if rc \<noteq> 0 then do { emit Pthread_setcancelstate; ret (Some (- rc, No_reply)) }
          else do {
            hold Command_mutex;
            rc \<leftarrow> ext env Pthread_cond_init;
            if rc \<noteq> 0 then do {
              emit Pthread_mutex_destroy; give_back Command_mutex;
              emit Pthread_setcancelstate;
              ret (Some (- rc, No_reply))
            } else do {
              hold Command_condition;
              d \<leftarrow> gets dp;
              rc \<leftarrow> ext env (Spdk_thread_send_msg (dp_owner d) Run_command);
              if rc \<noteq> 0 then do { c_abort; ret None }
              else do {
                r \<leftarrow> serve_command env (dp_owner d) operation evs;
                case r of
                  None \<Rightarrow> ret None
                | Some x \<Rightarrow> do {
                    emit Pthread_cond_destroy; give_back Command_condition;
                    emit Pthread_mutex_destroy; give_back Command_mutex;
                    emit Pthread_setcancelstate;
                    ret (Some x)
                  }
              }
            }
          }
        }
      })"

text \<open>The result of a call that a caller may never return from.\<close>

definition status_result :: "(int \<times> reply) option \<Rightarrow> int option" where
  "status_result r = map_option fst r"

definition open_on_owner ::
    "env \<Rightarrow> bool \<Rightarrow> thread option \<Rightarrow> bool \<Rightarrow> string option \<Rightarrow> bool \<Rightarrow> bool \<Rightarrow>
     ('x disp_world_scheme, (int \<times> bool) option) state" where
  "open_on_owner env on_spdk_thread owner runtime name writable dispatcher_out =
     (if owner = None \<or> name = None \<or> \<not> dispatcher_out then ret (Some (- EINVAL, False))
      else do {
        ok \<leftarrow> alloc env (Calloc Dispatcher_obj) Dispatcher_obj;
        if \<not> ok then ret (Some (- ENOMEM, False))
        else do {
          modify_dp (\<lambda>_. \<lparr>dp_owner = owner, dp_runtime = runtime, dp_endpoint = False\<rparr>);
          r \<leftarrow> dispatch_command env on_spdk_thread (DISPATCHER_OPEN (the name) writable) [];
          case r of
            None \<Rightarrow> ret None
          | Some (status, _) \<Rightarrow>
              if status \<noteq> 0 then do { free_ptr True Dispatcher_obj; ret (Some (status, False)) }
              else ret (Some (0, True))
        }
      })"




definition zettide_spdk_bdev_dispatcher_open_on_thread ::
    "env \<Rightarrow> bool \<Rightarrow> thread option \<Rightarrow> string option \<Rightarrow> bool \<Rightarrow> bool \<Rightarrow>
     ('x disp_world_scheme, (int \<times> bool) option) state" where
  "zettide_spdk_bdev_dispatcher_open_on_thread env on_spdk_thread owner name writable dispatcher_out =
     open_on_owner env on_spdk_thread owner False name writable dispatcher_out"

text \<open>Below, \<open>dispatcher\<close> and the out flags say that the pointers are not \<^verbatim>\<open>NULL\<close>.\<close>

definition zettide_spdk_bdev_dispatcher_get_geometry ::
    "env \<Rightarrow> bool \<Rightarrow> bool \<Rightarrow> bool \<Rightarrow> ('x disp_world_scheme, (int \<times> geometry option) option) state" where
  "zettide_spdk_bdev_dispatcher_get_geometry env on_spdk_thread dispatcher geometry_out =
     (if \<not> dispatcher \<or> \<not> geometry_out then ret (Some (- EINVAL, None))
      else do {
        r \<leftarrow> dispatch_command env on_spdk_thread DISPATCHER_GET_GEOMETRY [];
        ret (map_option (\<lambda>(status, reply). (status,
          case reply of Geometry_reply g \<Rightarrow> if status = 0 then Some g else None | _ \<Rightarrow> None)) r)
      })"

definition zettide_spdk_bdev_dispatcher_get_name ::
    "env \<Rightarrow> bool \<Rightarrow> bool \<Rightarrow> bool \<Rightarrow> ('x disp_world_scheme, (int \<times> string option) option) state" where
  "zettide_spdk_bdev_dispatcher_get_name env on_spdk_thread dispatcher name_out =
     (if \<not> dispatcher \<or> \<not> name_out then ret (Some (- EINVAL, None))
      else do {
        r \<leftarrow> dispatch_command env on_spdk_thread DISPATCHER_GET_NAME [];
        ret (map_option (\<lambda>(status, reply). (status,
          case reply of Name_reply name \<Rightarrow> if status = 0 then name else None | _ \<Rightarrow> None)) r)
      })"

definition dispatch_io ::
    "env \<Rightarrow> bool \<Rightarrow> bool \<Rightarrow> dispatcher_operation \<Rightarrow> owner_event list \<Rightarrow>
     ('x disp_world_scheme, int option) state" where
  "dispatch_io env on_spdk_thread dispatcher operation evs =
     (if \<not> dispatcher then ret (Some (- EINVAL))
      else do { r \<leftarrow> dispatch_command env on_spdk_thread operation evs; ret (status_result r) })"

definition zettide_spdk_bdev_dispatcher_read ::
    "env \<Rightarrow> bool \<Rightarrow> bool \<Rightarrow> u64 \<Rightarrow> u64 \<Rightarrow> u64 \<Rightarrow> owner_event list \<Rightarrow>
     ('x disp_world_scheme, int option) state" where
  "zettide_spdk_bdev_dispatcher_read env on_spdk_thread dispatcher buffer offset len evs =
     dispatch_io env on_spdk_thread dispatcher (DISPATCHER_READ buffer offset len) evs"

definition zettide_spdk_bdev_dispatcher_write ::
    "env \<Rightarrow> bool \<Rightarrow> bool \<Rightarrow> u64 \<Rightarrow> u64 \<Rightarrow> u64 \<Rightarrow> owner_event list \<Rightarrow>
     ('x disp_world_scheme, int option) state" where
  "zettide_spdk_bdev_dispatcher_write env on_spdk_thread dispatcher buffer offset len evs =
     dispatch_io env on_spdk_thread dispatcher (DISPATCHER_WRITE buffer offset len) evs"

definition zettide_spdk_bdev_dispatcher_flush ::
    "env \<Rightarrow> bool \<Rightarrow> bool \<Rightarrow> u64 \<Rightarrow> u64 \<Rightarrow> owner_event list \<Rightarrow>
     ('x disp_world_scheme, int option) state" where
  "zettide_spdk_bdev_dispatcher_flush env on_spdk_thread dispatcher offset len evs =
     dispatch_io env on_spdk_thread dispatcher (DISPATCHER_FLUSH offset len) evs"


subsection \<open>Opening and closing\<close>

text \<open>
  A command either fails before it is sent, with nothing changed but the log, or it is served on the
  owner thread with the caller's mutex and condition variable held, which are given back afterwards.
\<close>

lemma dispatch_command_run:
  assumes "run_state (dispatch_command env on_spdk op evs) w = (r, w')" and "sends_accepted env"
  shows "(\<exists>st l. st \<noteq> 0 \<and> r = Some (st, No_reply) \<and> w' = w\<lparr>log := l\<rparr>) \<or>
    (\<exists>l l' v. run_state (serve_command env (dp_owner (dp w)) op evs)
         (w\<lparr>live := Command_condition # Command_mutex # live w, log := l\<rparr>) = (r, v) \<and>
       (r \<noteq> None \<longrightarrow> Command_condition \<in> set (live v) \<longrightarrow> Command_mutex \<in> set (live v) \<longrightarrow>
          w' = v\<lparr>log := l', live := remove1 Command_mutex (remove1 Command_condition (live v))\<rparr>) \<and>
       (r = None \<longrightarrow> w' = v) \<and> called w' = called v)"
proof -
  let ?c = Pthread_setcancelstate and ?m = Pthread_mutex_init and ?d = Pthread_cond_init
  let ?s = "Spdk_thread_send_msg (dp_owner (dp w)) Run_command"
  have send: "env l ?s = 0" for l
    using assms(2) by (simp add: sends_accepted_def)
  show ?thesis
  proof (cases "on_spdk \<or> env (log w) ?c \<noteq> 0 \<or> env (log w @ [?c]) ?m \<noteq> 0 \<or> env (log w @ [?c, ?m]) ?d \<noteq> 0")
    case True
    then have "\<exists>st l. st \<noteq> 0 \<and> r = Some (st, No_reply) \<and> w' = w\<lparr>log := l\<rparr>"
      using assms(1) by (auto simp: dispatch_command_def intro!: exI [of _ "log w'"] split: if_splits)
    then show ?thesis ..
  next
    case False
    let ?w = "w\<lparr>live := Command_condition # Command_mutex # live w, log := log w @ [?c, ?m, ?d, ?s]\<rparr>"
    obtain q v where v: "run_state (serve_command env (dp_owner (dp w)) op evs) ?w = (q, v)"
      by (rule prod.exhaust)
    show ?thesis
      apply (rule disjI2)
      apply (rule exI [of _ "log w @ [?c, ?m, ?d, ?s]"])
      apply (rule exI [of _ "log v @ [Pthread_cond_destroy, Pthread_mutex_destroy, Pthread_setcancelstate]"])
      apply (rule exI [of _ v])
      using False v send assms(1) by (cases q) (auto simp: dispatch_command_def run_give_back)
  qed
qed










definition disp_ready :: disp_world where
  "disp_ready = \<lparr>log = [], aborted = False, live = [], mailbox = [], ep = example_endpoint, dev = example_bdev,
     requests = [], next_request = 0, in_flight = [], waiting = [], called = [], events = [],
     dp = \<lparr>dp_owner = None, dp_runtime = False, dp_endpoint = False\<rparr>,
     lease_rt = zero_runtime\<lparr>rt_state := RUNTIME_READY, rt_owner := Some 7,
       rt_dispatcher_owners := Some [Some 7, Some 9], rt_dispatcher_owner_count := 2\<rparr>\<rparr>"


subsection \<open>The hand-over to the owner thread\<close>

text \<open>
  C9: The hand-over of a command.  However the caller, the owner's handler and the completion of the
  operation interleave, with spurious wake-ups: the command is completed at most once and never touched
  after the caller returned; the caller returns only after the owner is done with the command, and with
  the status it was completed with; and a caller that has not returned is not left blocked once the
  owner is done and the operation completed.
\<close>

theorem command_handover:
  assumes "(rv_step complete_command owner_done command_waits cm_status)\<^sup>*\<^sup>* (rv_initial (init_command c)) s"
  shows "\<not> rv_fault s \<and> length (rv_completions s) \<le> 1 \<and>
    (\<forall>status. rv_returned s = Some status \<longrightarrow>
       rv_completions s = [status] \<and> rv_owner s = Owner_finished \<and> \<not> rv_owed s) \<and>
    (rv_returned s = None \<longrightarrow>
       rv_owner s \<noteq> Owner_finished \<or> rv_owed s \<or> (\<not> rv_blocked s \<and> \<not> command_waits (rv_command s)))"
  by (rule dispatcher_handover.rendezvous_safe [OF assms]) (simp_all add: init_command_def)

text \<open>The handler starts an operation, which completes with -5 after the owner is done with the command.\<close>

definition example_command :: command where
  "example_command = \<lparr>cm_completed = False, cm_owner_active = True, cm_status = 0\<rparr>"

definition handover_end :: "command rendezvous_sys" where
  "handover_end = \<lparr>rv_command = \<lparr>cm_completed = True, cm_owner_active = False, cm_status = - 5\<rparr>,
     rv_owner = Owner_finished, rv_owed = False, rv_blocked = False, rv_returned = Some (- 5),
     rv_completions = [- 5], rv_fault = False\<rparr>"

lemma handover_run:
  "(rv_step complete_command owner_done command_waits cm_status)\<^sup>*\<^sup>* (rv_initial (init_command example_command)) handover_end"
proof -
  let ?step = "rv_step complete_command owner_done command_waits cm_status"
  let ?s0 = "rv_initial (init_command example_command)"
  let ?s1 = "?s0\<lparr>rv_owner := Owner_running, rv_owed := True\<rparr>"
  let ?s2 = "?s1\<lparr>rv_blocked := True\<rparr>"
  let ?s3 = "(rv_done owner_done ?s2)\<lparr>rv_owner := Owner_finished\<rparr>"
  let ?s4 = "(rv_complete complete_command (- 5) ?s3)\<lparr>rv_owed := False\<rparr>"
  let ?s5 = "?s4\<lparr>rv_returned := Some (cm_status (rv_command ?s4))\<rparr>"
  note defs = rv_initial_def init_command_def example_command_def rv_done_def owner_done_def
    rv_complete_def complete_command_def command_waits_def
  have "?step ?s0 ?s1" by (rule rv_step.rv_start) (simp add: defs)
  moreover have "?step ?s1 ?s2" by (rule rv_step.rv_block) (simp_all add: defs)
  moreover have "?step ?s2 ?s3" by (rule rv_step.rv_finish) (simp add: defs)
  moreover have "?step ?s3 ?s4" by (rule rv_step.rv_async) (simp add: defs)
  moreover have "?step ?s4 ?s5" by (rule rv_step.rv_return) (simp_all add: defs)
  moreover have "?s5 = handover_end" by (simp add: defs handover_end_def)
  ultimately show ?thesis
    by (metis (no_types) rtranclp.rtrancl_into_rtrancl rtranclp.rtrancl_refl)
qed

theorem command_handover_witness:
  "(rv_step complete_command owner_done command_waits cm_status)\<^sup>*\<^sup>*
     (rv_initial (init_command example_command)) handover_end \<and>
   rv_returned handover_end = Some (- 5) \<and> rv_completions handover_end = [- 5]"
  using command_handover [OF handover_run] handover_run by (simp add: handover_end_def)

subsection \<open>Reads, writes and flushes\<close>

definition is_io :: "dispatcher_operation \<Rightarrow> bool" where
  "is_io op = (case op of DISPATCHER_READ _ _ _ \<Rightarrow> True | DISPATCHER_WRITE _ _ _ \<Rightarrow> True
     | DISPATCHER_FLUSH _ _ \<Rightarrow> True | _ \<Rightarrow> False)"

lemma await_request_status:
  "run_state (await_request env n evs) w = (Some (st, rep), w') \<Longrightarrow> map_of (called w') n = Some st"
proof (induction evs arbitrary: w)
  case Nil
  then show ?case
    by (subst (asm) await_request.simps) (auto split: option.splits)
next
  case (Cons ev evs)
  show ?case
  proof (cases "map_of (called w) n")
    case None
    obtain u where "run_state (owner_event_step env n ev) w = ((), u)"
      by (metis prod.exhaust unit.exhaust)
    with Cons.prems None have "run_state (await_request env n evs) u = (Some (st, rep), w')"
      by (subst (asm) await_request.simps) simp
    then show ?thesis by (rule Cons.IH)
  next
    case (Some s)
    with Cons.prems show ?thesis
      by (subst (asm) await_request.simps) simp
  qed
qed

lemma issue_request_called: "called (final (issue_request env n) w) = called w"
  by (cases "map_of (requests w) n") (simp_all add: issue_request_def)

lemma submit_request_called:
  "called (final (submit_request env endpoint operation buffer offset len callback) w) = called w"
  by (simp add: submit_request_def free_request_def split_def issue_request_called)

lemma run_command_io:
  assumes "is_io op" and "run_state (run_command env self op) w = (r, w')"
  shows "called w' = called w \<and> (\<forall>st rep. r = Some (st, rep) \<longrightarrow> st \<noteq> 0)"
proof -
  have "w' = final (run_command env self op) w" "r = result (run_command env self op) w"
    using assms(2) by simp_all
  then show ?thesis
    using assms(1)
    by (cases op) (simp_all add: run_command_def is_io_def io_result_def Let_def split_def
        zettide_spdk_bdev_read_def zettide_spdk_bdev_write_def zettide_spdk_bdev_flush_def submit_request_called)
qed

text \<open>
  C23: A blocking read, write or flush reports its own request.  Whatever SPDK answers and in whatever
  order its events reach the owner thread, when the call returns, its status is that of the callback
  of the very request it submitted, or the call was refused, with a non-zero status and no callback
  run on its behalf.  So success is reported only for a request that succeeded.
\<close>

theorem dispatch_io_status:
  assumes "is_io op" and "sends_accepted env"
    and run: "run_state (dispatch_io env on_spdk True op evs) w = (Some status, w')"
  shows "map_of (called w') (next_request w) = Some status \<or> status \<noteq> 0 \<and> called w' = called w"
proof -
  obtain rep where q: "run_state (dispatch_command env on_spdk op evs) w = (Some (status, rep), w')"
    using run by (auto simp: dispatch_io_def status_result_def split: prod.splits)
  from dispatch_command_run [OF q assms(2)] show ?thesis
  proof (elim disjE exE conjE)
    fix st l
    assume "st \<noteq> 0" "Some (status, rep) = Some (st, No_reply)" "w' = w\<lparr>log := l\<rparr>"
    then show ?thesis by simp
  next
    fix l l' v
    let ?x = "w\<lparr>live := Command_condition # Command_mutex # live w, log := l\<rparr>"
    assume serve: "run_state (serve_command env (dp_owner (dp w)) op evs) ?x = (Some (status, rep), v)"
      and c: "called w' = called v"
    obtain q y where y: "run_state (run_command env (dp_owner (dp w)) op) ?x = (q, y)"
      by (rule prod.exhaust)
    note io = run_command_io [OF assms(1) y]
    show ?thesis
    proof (cases q)
      case None
      with serve y have "run_state (await_request env (next_request w) evs) y = (Some (status, rep), v)"
        by (simp add: serve_command_def)
      from await_request_status [OF this] c show ?thesis by simp
    next
      case (Some a)
      with serve y io c show ?thesis by (auto simp: serve_command_def)
    qed
  qed
qed

text \<open>One read, submitted, queued for memory, retried and completed.\<close>

definition disp_open_world :: disp_world where
  "disp_open_world = disp_ready\<lparr>live := [Io_channel, Bdev_descriptor, Endpoint_obj, Dispatcher_obj],
     dp := \<lparr>dp_owner = Some 7, dp_runtime = True, dp_endpoint = True\<rparr>, next_request := 1\<rparr>"

theorem dispatch_io_status_witness:
  "\<exists>w'. run_state (dispatch_io io_env False True (DISPATCHER_READ 0x20000 0x1000 0x2000)
      [Io_retried, Io_completed False (- 5)]) disp_open_world = (Some (- 5), w') \<and>
    map_of (called w') 1 = Some (- 5)"
proof -
  let ?m = "dispatch_io io_env False True (DISPATCHER_READ 0x20000 0x1000 0x2000) [Io_retried, Io_completed False (- 5)]"
  have r: "result ?m disp_open_world = Some (- 5)" and c: "called (final ?m disp_open_world) \<noteq> called disp_open_world"
    by (simp_all add: dispatch_io_def status_result_def dispatch_command_def disp_open_world_def disp_ready_def
        serve_command_def run_command_def zettide_spdk_bdev_read_def validate_range_def on_owner_thread_def
        example_endpoint_def example_bdev_def geometry_of_def submit_request_def issue_request_def io_call_def
        io_env_def io_result_def await_request.simps owner_event_step_def retry_request_def complete_request_def
        completion_status_def finish_request_def free_request_def Let_def)
  from r have run: "run_state ?m disp_open_world = (Some (- 5), final ?m disp_open_world)"
    by (simp add: prod_eq_iff)
  have "sends_accepted io_env" by (simp add: sends_accepted_def io_env_def)
  from dispatch_io_status [OF _ this run] c run show ?thesis
    by (auto simp: is_io_def disp_open_world_def disp_ready_def)
qed



end
