(* ===== verification/Memory.thy ===== *)
theory Memory
  imports Prelude
begin

text \<open>
  Memory as a function from 64-bit addresses to bytes, the C library's \<^verbatim>\<open>memcpy\<close> on it, and the copies
  between a flat buffer and a scatter list in \<^verbatim>\<open>bdev_provider.c\<close> (\<^verbatim>\<open>copy_from_iovs\<close>,
  \<^verbatim>\<open>copy_to_iovs\<close>) with their correctness.
\<close>

subsection \<open>Memory\<close>

type_synonym memory = "u64 \<Rightarrow> u8"

definition memcpy :: "u64 \<Rightarrow> u64 \<Rightarrow> u64 \<Rightarrow> memory \<Rightarrow> memory" where
  "memcpy dest src len m = (\<lambda>a. if a - dest < len then m (src + (a - dest)) else m a)"

text \<open>The addresses of \<open>len\<close> bytes from \<open>base\<close> on, which may wrap around the address space.\<close>

definition bytes_at :: "u64 \<Rightarrow> u64 \<Rightarrow> u64 set" where
  "bytes_at base len = {a. a - base < len}"

lemma memcpy_inside: "k < len \<Longrightarrow> memcpy dest src len m (dest + k) = m (src + k)"
  by (simp add: memcpy_def)

lemma memcpy_outside: "a \<notin> bytes_at dest len \<Longrightarrow> memcpy dest src len m a = m a"
  by (simp add: memcpy_def bytes_at_def)

lemma bytes_at_unat:
  assumes "a \<in> bytes_at base len" and "unat base + unat len \<le> 2 ^ 64"
  shows "unat base \<le> unat a \<and> unat a < unat base + unat len"
proof -
  have k: "unat (a - base) < unat len"
    using assms(1) by (simp add: bytes_at_def word_less_nat_alt)
  define d where "d = a - base"
  have "unat (base + d) = unat base + unat d"
    using k assms(2) unfolding d_def [symmetric] by (simp add: unat_word_ariths)
  with k show ?thesis by (simp add: d_def)
qed

lemma bytes_at_disjoint:
  assumes "unat b1 + unat l1 \<le> unat b2" and "unat b2 + unat l2 \<le> 2 ^ 64"
  shows "bytes_at b1 l1 \<inter> bytes_at b2 l2 = {}" and "bytes_at b2 l2 \<inter> bytes_at b1 l1 = {}"
  using assms bytes_at_unat [of _ b1 l1] bytes_at_unat [of _ b2 l2] by fastforce+


subsection \<open>Scatter lists\<close>

record iovec =
  iov_base :: u64
  iov_len :: u64

text \<open>The loops, with \<open>copied\<close> bytes done; the result says whether all of them were.\<close>

fun copy_from_iovs_loop :: "u64 \<Rightarrow> u64 \<Rightarrow> u64 \<Rightarrow> iovec list \<Rightarrow> memory \<Rightarrow> bool \<times> memory" where
  "copy_from_iovs_loop output len copied [] m = (copied = len, m)"
| "copy_from_iovs_loop output len copied (iov # iovs) m =
     (if \<not> copied < len then (copied = len, m)
      else let amount = (if iov_len iov > len - copied then len - copied else iov_len iov)
           in copy_from_iovs_loop output len (copied + amount) iovs
                (memcpy (output + copied) (iov_base iov) amount m))"

definition copy_from_iovs :: "u64 \<Rightarrow> u64 \<Rightarrow> iovec list \<Rightarrow> memory \<Rightarrow> bool \<times> memory" where
  "copy_from_iovs destination len iovs m = copy_from_iovs_loop destination len 0 iovs m"

fun copy_to_iovs_loop :: "u64 \<Rightarrow> u64 \<Rightarrow> u64 \<Rightarrow> iovec list \<Rightarrow> memory \<Rightarrow> bool \<times> memory" where
  "copy_to_iovs_loop input len copied [] m = (copied = len, m)"
| "copy_to_iovs_loop input len copied (iov # iovs) m =
     (if \<not> copied < len then (copied = len, m)
      else let amount = (if iov_len iov > len - copied then len - copied else iov_len iov)
           in copy_to_iovs_loop input len (copied + amount) iovs
                (memcpy (iov_base iov) (input + copied) amount m))"

definition copy_to_iovs :: "iovec list \<Rightarrow> u64 \<Rightarrow> u64 \<Rightarrow> memory \<Rightarrow> bool \<times> memory" where
  "copy_to_iovs iovs source len m = copy_to_iovs_loop source len 0 iovs m"

text \<open>The addresses of a buffer and of a scatter list, in order, and the bytes at them.\<close>

definition addrs :: "u64 \<Rightarrow> nat \<Rightarrow> u64 list" where
  "addrs base n = map (\<lambda>i. base + of_nat i) [0..<n]"

definition iov_addrs :: "iovec list \<Rightarrow> u64 list" where
  "iov_addrs iovs = concat (map (\<lambda>iov. addrs (iov_base iov) (unat (iov_len iov))) iovs)"

lemma length_addrs [simp]: "length (addrs base n) = n"
  by (simp add: addrs_def)

lemma nth_addrs [simp]: "i < n \<Longrightarrow> addrs base n ! i = base + of_nat i"
  by (simp add: addrs_def)

lemma addrs_append: "addrs base (j + k) = addrs base j @ addrs (base + of_nat j) k"
  by (rule nth_equalityI) (auto simp: nth_append of_nat_diff algebra_simps)

lemma take_addrs: "take k (addrs base n) = addrs base (min k n)"
  by (rule nth_equalityI) auto

lemma set_addrs: "set (addrs base n) = (\<lambda>i. base + of_nat i) ` {0..<n}"
  by (simp add: addrs_def)

lemma addrs_inj: "n \<le> 2 ^ 64 \<Longrightarrow> distinct (addrs base n)"
  by (auto simp: distinct_conv_nth dest: arg_cong [of _ _ unat] simp: unat_of_nat_u64)

text \<open>A copy moves the list of bytes; everything else stays.\<close>

lemma memcpy_addrs:
  assumes "k \<le> unat len"
  shows "map (memcpy dest src len m) (addrs dest k) = map m (addrs src k)"
proof (rule nth_equalityI)
  fix i assume "i < length (map (memcpy dest src len m) (addrs dest k))"
  then have i: "i < k" by simp
  then have "of_nat i < len"
    using assms by (simp add: word_less_nat_alt unat_of_nat_u64 order_less_trans [OF _ unsigned_less [of len, simplified]])
  with i show "map (memcpy dest src len m) (addrs dest k) ! i = map m (addrs src k) ! i"
    by (simp add: memcpy_inside)
qed simp

lemma memcpy_other:
  assumes "a \<notin> set (addrs dest (unat len))"
  shows "memcpy dest src len m a = m a"
proof -
  have "\<not> a - dest < len"
    using assms by (auto simp: set_addrs image_iff word_less_nat_alt dest!: bspec [of _ _ "unat (a - dest)"])
  then show ?thesis by (simp add: memcpy_def)
qed


text \<open>
  The reference for a scattered copy: the bytes at the addresses \<open>ss\<close> go to the addresses \<open>ds\<close>,
  all at once.
\<close>

definition transfer :: "u64 list \<Rightarrow> u64 list \<Rightarrow> memory \<Rightarrow> memory" where
  "transfer ds ss m = (\<lambda>a. case map_of (zip ds ss) a of Some s \<Rightarrow> m s | None \<Rightarrow> m a)"

lemma transfer_Nil [simp]: "transfer [] ss m = m"
  by (simp add: transfer_def)

lemma transfer_other: "a \<notin> set ds \<Longrightarrow> transfer ds ss m a = m a"
  by (auto simp: transfer_def split: option.splits dest!: map_of_SomeD set_zip_leftD)

lemma transfer_others: "set as \<inter> set ds = {} \<Longrightarrow> map (transfer ds ss m) as = map m as"
  by (auto intro!: transfer_other)

lemma transfer_moved:
  assumes "distinct ds" and "length ds = length ss"
  shows "map (transfer ds ss m) ds = map m ss"
  using assms by (auto intro!: nth_equalityI simp: transfer_def map_of_zip_nth)

lemma transfer_append:
  assumes "length ds1 = length ss1" and "set ds1 \<inter> set ds2 = {}" and "set ds1 \<inter> set ss2 = {}"
  shows "transfer ds2 ss2 (transfer ds1 ss1 m) = transfer (ds1 @ ds2) (ss1 @ ss2) m"
proof
  fix a
  show "transfer ds2 ss2 (transfer ds1 ss1 m) a = transfer (ds1 @ ds2) (ss1 @ ss2) m a"
  proof (cases "map_of (zip ds2 ss2) a")
    case None
    then show ?thesis
      using assms(1) by (auto simp: transfer_def map_add_def split: option.splits dest!: map_of_SomeD dest: set_zip_leftD)
  next
    case (Some s)
    then have "a \<in> set ds2" "s \<in> set ss2"
      by (auto dest!: map_of_SomeD dest: set_zip_leftD set_zip_rightD)
    with assms(2,3) have "a \<notin> set ds1" "s \<notin> set ds1" by auto
    then have n: "map_of (zip ds1 ss1) a = None" "map_of (zip ds1 ss1) s = None"
      by (auto simp: map_of_eq_None_iff dest: set_zip_leftD)
    show ?thesis
      by (simp only: transfer_def zip_append [OF assms(1)] map_of_append map_add_def n Some option.case)
  qed
qed

lemma memcpy_transfer: "memcpy dest src len m = transfer (addrs dest (unat len)) (addrs src (unat len)) m"
proof
  fix a
  show "memcpy dest src len m a = transfer (addrs dest (unat len)) (addrs src (unat len)) m a"
  proof (cases "a \<in> set (addrs dest (unat len))")
    case True
    have "map (memcpy dest src len m) (addrs dest (unat len)) = map (transfer (addrs dest (unat len)) (addrs src (unat len)) m) (addrs dest (unat len))"
      by (simp add: memcpy_addrs transfer_moved addrs_inj order_less_imp_le [OF unsigned_less [of len, simplified]] del: map_eq_conv)
    with True show ?thesis by simp
  next
    case False
    then show ?thesis by (simp add: memcpy_other transfer_other)
  qed
qed

lemma iov_addrs_simps [simp]:
  "iov_addrs [] = []"
  "iov_addrs (iov # iovs) = addrs (iov_base iov) (unat (iov_len iov)) @ iov_addrs iovs"
  by (simp_all add: iov_addrs_def)

text \<open>
  One round of either loop takes \<open>amount\<close> bytes from the front of the \<open>k\<close> that are left to copy, and
  leaves \<open>k'\<close>.
\<close>

lemma iov_round:
  fixes len copied :: u64
  assumes c: "copied < len"
    and a: "amount = (if iov_len iov > len - copied then len - copied else iov_len iov)"
    and k: "k = min (length (iov_addrs (iov # iovs))) (unat (len - copied))"
    and k': "k' = min (length (iov_addrs iovs)) (unat (len - (copied + amount)))"
  shows "copied + amount \<le> len" and "k = unat amount + k'"
    and "take k (iov_addrs (iov # iovs)) = addrs (iov_base iov) (unat amount) @ take k' (iov_addrs iovs)"
    and "unat (len - (copied + amount)) \<le> length (iov_addrs iovs) \<longleftrightarrow>
           unat (len - copied) \<le> length (iov_addrs (iov # iovs))"
proof -
  have le: "amount \<le> len - copied" by (auto simp: a not_less)
  show "copied + amount \<le> len"
    using le c by (simp add: word_le_nat_alt word_less_nat_alt unat_plus_if' unat_sub order_less_imp_le) linarith
  have m: "unat amount = min (unat (iov_len iov)) (unat (len - copied))"
    by (auto simp: a word_less_nat_alt)
  have d: "unat (len - (copied + amount)) = unat (len - copied) - unat amount"
    using le by (simp only: unat_sub diff_diff_add [symmetric])
  show k2: "k = unat amount + k'"
    using k k' m d by (auto simp: min_def)
  show "take k (iov_addrs (iov # iovs)) = addrs (iov_base iov) (unat amount) @ take k' (iov_addrs iovs)"
    using k' m d by (auto simp: k2 min_def take_addrs)
  show "unat (len - (copied + amount)) \<le> length (iov_addrs iovs) \<longleftrightarrow>
      unat (len - copied) \<le> length (iov_addrs (iov # iovs))"
    using m d by (auto simp: min_def)
qed

lemma set_take_disjoint: "A \<inter> set xs = {} \<Longrightarrow> A \<inter> set (take k xs) = {}"
  using set_take_subset [of k xs] by auto

lemma copy_from_iovs_loop_run:
  assumes "copied \<le> len" and "k = min (length (iov_addrs iovs)) (unat (len - copied))"
    and "set (addrs (output + copied) k) \<inter> set (iov_addrs iovs) = {}"
  shows "copy_from_iovs_loop output len copied iovs m =
           (unat (len - copied) \<le> length (iov_addrs iovs),
            transfer (addrs (output + copied) k) (take k (iov_addrs iovs)) m)"
  using assms
proof (induction iovs arbitrary: copied m k)
  case Nil
  then show ?case by (auto simp: addrs_def unat_eq_0 dest: order_antisym)
next
  case (Cons iov iovs)
  show ?case
  proof (cases "copied < len")
    case False
    with Cons.prems show ?thesis by (simp add: addrs_def)
  next
    case True
    define amount where "amount = (if iov_len iov > len - copied then len - copied else iov_len iov)"
    define k' where "k' = min (length (iov_addrs iovs)) (unat (len - (copied + amount)))"
    note r = iov_round [OF True amount_def Cons.prems(2) k'_def]
    have d: "addrs (output + copied) k = addrs (output + copied) (unat amount) @ addrs (output + (copied + amount)) k'"
      by (simp add: r(2) addrs_append add.assoc)
    have "distinct (addrs (output + copied) k)"
      using unsigned_less [of "len - copied", where ?'a = nat] Cons.prems(2) by (intro addrs_inj) (simp add: min_le_iff_disj)
    then have j: "set (addrs (output + copied) (unat amount)) \<inter> set (addrs (output + (copied + amount)) k') = {}"
      by (simp add: d)
    have s: "set (addrs (output + (copied + amount)) k') \<inter> set (iov_addrs iovs) = {}"
      "set (addrs (output + copied) (unat amount)) \<inter> set (take k' (iov_addrs iovs)) = {}"
      using Cons.prems(3) by (auto simp: d intro!: set_take_disjoint)
    have "copy_from_iovs_loop output len copied (iov # iovs) m =
        copy_from_iovs_loop output len (copied + amount) iovs (memcpy (output + copied) (iov_base iov) amount m)"
      using True by (simp add: amount_def Let_def)
    then show ?thesis
      unfolding Cons.IH [OF r(1) k'_def s(1)] memcpy_transfer r(3,4) d
      by (subst (asm) transfer_append) (simp_all add: j s)
  qed
qed

lemma copy_to_iovs_loop_run:
  assumes "copied \<le> len" and "k = min (length (iov_addrs iovs)) (unat (len - copied))"
    and "distinct (iov_addrs iovs)" and "set (addrs (input + copied) k) \<inter> set (iov_addrs iovs) = {}"
  shows "copy_to_iovs_loop input len copied iovs m =
           (unat (len - copied) \<le> length (iov_addrs iovs),
            transfer (take k (iov_addrs iovs)) (addrs (input + copied) k) m)"
  using assms
proof (induction iovs arbitrary: copied m k)
  case Nil
  then show ?case by (auto simp: addrs_def unat_eq_0 dest: order_antisym)
next
  case (Cons iov iovs)
  show ?case
  proof (cases "copied < len")
    case False
    with Cons.prems show ?thesis by (simp add: addrs_def)
  next
    case True
    define amount where "amount = (if iov_len iov > len - copied then len - copied else iov_len iov)"
    define k' where "k' = min (length (iov_addrs iovs)) (unat (len - (copied + amount)))"
    note r = iov_round [OF True amount_def Cons.prems(2) k'_def]
    have d: "addrs (input + copied) k = addrs (input + copied) (unat amount) @ addrs (input + (copied + amount)) k'"
      by (simp add: r(2) addrs_append add.assoc)
    have "distinct (take k (iov_addrs (iov # iovs)))"
      using Cons.prems(3) by (rule distinct_take)
    then have j: "set (addrs (iov_base iov) (unat amount)) \<inter> set (take k' (iov_addrs iovs)) = {}"
      by (simp add: r(3) del: iov_addrs_simps)
    have "set (addrs (input + copied) k) \<inter> set (take k (iov_addrs (iov # iovs))) = {}"
      using Cons.prems(4) by (rule set_take_disjoint)
    then have s: "set (addrs (iov_base iov) (unat amount)) \<inter> set (addrs (input + (copied + amount)) k') = {}"
      by (auto simp: r(3) d simp del: iov_addrs_simps)
    have i: "distinct (iov_addrs iovs)" "set (addrs (input + (copied + amount)) k') \<inter> set (iov_addrs iovs) = {}"
      using Cons.prems(3,4) by (auto simp: d)
    have "copy_to_iovs_loop input len copied (iov # iovs) m =
        copy_to_iovs_loop input len (copied + amount) iovs (memcpy (iov_base iov) (input + copied) amount m)"
      using True by (simp add: amount_def Let_def)
    then show ?thesis
      unfolding Cons.IH [OF r(1) k'_def i] memcpy_transfer r(3,4) d
      by (subst (asm) transfer_append) (simp_all add: j s)
  qed
qed


text \<open>Whole buffers: the addresses of the buffer are disjoint from those of the scatter list.\<close>

lemma copy_from_iovs_run:
  assumes "k = min (length (iov_addrs iovs)) (unat len)" and "set (addrs destination k) \<inter> set (iov_addrs iovs) = {}"
  shows "copy_from_iovs destination len iovs m =
           (unat len \<le> length (iov_addrs iovs), transfer (addrs destination k) (take k (iov_addrs iovs)) m)"
  using copy_from_iovs_loop_run [of 0 len k iovs destination m] assms by (simp add: copy_from_iovs_def)

lemma copy_to_iovs_run:
  assumes "k = min (length (iov_addrs iovs)) (unat len)" and "set (addrs source k) \<inter> set (iov_addrs iovs) = {}"
    and "distinct (iov_addrs iovs)"
  shows "copy_to_iovs iovs source len m =
           (unat len \<le> length (iov_addrs iovs), transfer (take k (iov_addrs iovs)) (addrs source k) m)"
  using copy_to_iovs_loop_run [of 0 len k iovs source m] assms by (simp add: copy_to_iovs_def)

lemma distinct_addrs_u64 [simp]: "distinct (addrs base (min j (unat (len :: u64))))" "distinct (addrs base (unat len))"
  using unsigned_less [of len, where ?'a = nat] by (simp_all add: addrs_inj min_le_iff_disj)

subsection \<open>The copies are correct\<close>

text \<open>
  C31: Gathering a scatter list.  The copy succeeds exactly when the list holds enough bytes; it always
  fills the destination with the bytes of the list, in order, as far as they go, and changes no other
  byte of memory.
\<close>

theorem copy_from_iovs_correct:
  assumes "k = min (length (iov_addrs iovs)) (unat len)"
    and "set (addrs destination k) \<inter> set (iov_addrs iovs) = {}"
    and "copy_from_iovs destination len iovs m = (ok, m')"
  shows "(ok \<longleftrightarrow> unat len \<le> length (iov_addrs iovs)) \<and>
         map m' (addrs destination k) = map m (take k (iov_addrs iovs)) \<and>
         (\<forall>a. a \<notin> set (addrs destination k) \<longrightarrow> m' a = m a)"
proof -
  have "(ok, m') = (unat len \<le> length (iov_addrs iovs), transfer (addrs destination k) (take k (iov_addrs iovs)) m)"
    using copy_from_iovs_run [OF assms(1,2), of m] assms(3) by simp
  moreover have "distinct (addrs destination k)" "length (take k (iov_addrs iovs)) = k"
    using assms(1) by simp_all
  ultimately show ?thesis
    by (simp add: transfer_moved transfer_other del: map_eq_conv length_take)
qed

text \<open>
  C32: Scattering over a list whose pieces do not overlap.  The copy succeeds exactly when the list has
  room for all bytes; it fills the list in order as far as the bytes go and changes no other byte.
\<close>

theorem copy_to_iovs_correct:
  assumes "k = min (length (iov_addrs iovs)) (unat len)"
    and "set (addrs source k) \<inter> set (iov_addrs iovs) = {}" and "distinct (iov_addrs iovs)"
    and "copy_to_iovs iovs source len m = (ok, m')"
  shows "(ok \<longleftrightarrow> unat len \<le> length (iov_addrs iovs)) \<and>
         map m' (take k (iov_addrs iovs)) = map m (addrs source k) \<and>
         (\<forall>a. a \<notin> set (take k (iov_addrs iovs)) \<longrightarrow> m' a = m a)"
proof -
  have "(ok, m') = (unat len \<le> length (iov_addrs iovs), transfer (take k (iov_addrs iovs)) (addrs source k) m)"
    using copy_to_iovs_run [OF assms(1-3), of m] assms(4) by simp
  moreover have "distinct (take k (iov_addrs iovs))" "length (take k (iov_addrs iovs)) = k"
    using assms(1,3) by simp_all
  ultimately show ?thesis
    by (simp add: transfer_moved transfer_other del: map_eq_conv length_take)
qed

text \<open>
  C30: Round trip.  Bytes scattered over a list with room for them and gathered again come back
  unchanged: the buffer read equals the buffer written.
\<close>

theorem iovs_round_trip:
  assumes "unat len \<le> length (iov_addrs iovs)" and "distinct (iov_addrs iovs)"
    and "set (addrs source (unat len)) \<inter> set (iov_addrs iovs) = {}"
    and "set (addrs destination (unat len)) \<inter> set (iov_addrs iovs) = {}"
    and "copy_to_iovs iovs source len m = (ok1, m1)" and "copy_from_iovs destination len iovs m1 = (ok2, m2)"
  shows "ok1 \<and> ok2 \<and> map m2 (addrs destination (unat len)) = map m (addrs source (unat len))"
proof -
  have "ok1" "m1 = transfer (take (unat len) (iov_addrs iovs)) (addrs source (unat len)) m"
    using assms by (simp_all add: copy_to_iovs_run min_absorb2)
  moreover from this have "map m1 (take (unat len) (iov_addrs iovs)) = map m (addrs source (unat len))"
    using assms(1,2) by (simp add: transfer_moved del: map_eq_conv)
  moreover have "ok2" "m2 = transfer (addrs destination (unat len)) (take (unat len) (iov_addrs iovs)) m1"
    using assms by (simp_all add: copy_from_iovs_run min_absorb2)
  ultimately show ?thesis
    using assms(1) by (simp add: transfer_moved del: map_eq_conv)
qed

definition two_iovs :: "iovec list" where
  "two_iovs = [\<lparr>iov_base = 100, iov_len = 2\<rparr>, \<lparr>iov_base = 200, iov_len = 3\<rparr>]"

lemma two_iovs_addrs: "iov_addrs two_iovs = [100, 101, 200, 201, 202]" "addrs 10 4 = [10, 11, 12, 13]" "addrs 20 4 = [20, 21, 22, 23]"
  by (simp_all add: two_iovs_def addrs_def upt_rec)

theorem copy_from_iovs_correct_witness:
  "\<exists>m'. copy_from_iovs 10 4 two_iovs (\<lambda>a. ucast a) = (True, m') \<and> map m' [10, 11, 12, 13] = [100, 101, 200, 201]"
  using copy_from_iovs_correct [of 4 two_iovs 4 10 "\<lambda>a. ucast a"]
  by (cases "copy_from_iovs 10 4 two_iovs (\<lambda>a. ucast a)") (simp add: two_iovs_addrs)

theorem copy_to_iovs_correct_witness:
  "\<exists>m'. copy_to_iovs two_iovs 10 4 (\<lambda>a. ucast a) = (True, m') \<and> map m' [100, 101, 200, 201, 202] = [10, 11, 12, 13, 202]"
  using copy_to_iovs_correct [of 4 two_iovs 4 10 "\<lambda>a. ucast a"]
  by (cases "copy_to_iovs two_iovs 10 4 (\<lambda>a. ucast a)") (simp add: two_iovs_addrs)

theorem iovs_round_trip_witness:
  "\<exists>m1 m2. copy_to_iovs two_iovs 10 4 (\<lambda>a. ucast a) = (True, m1) \<and> copy_from_iovs 20 4 two_iovs m1 = (True, m2) \<and>
           map m2 [20, 21, 22, 23] = [10, 11, 12, 13]"
proof -
  obtain ok1 m1 where 1: "copy_to_iovs two_iovs 10 4 (\<lambda>a. ucast a) = (ok1, m1)" by fastforce
  obtain ok2 m2 where 2: "copy_from_iovs 20 4 two_iovs m1 = (ok2, m2)" by fastforce
  show ?thesis
    using iovs_round_trip [OF _ _ _ _ 1 2] 1 2 by (simp add: two_iovs_addrs)
qed

end
