(* ===== verification/Read_Batch.thy ===== *)
theory Read_Batch
  imports Dispatcher Memory
begin

text \<open>
  The batched reads of \<^verbatim>\<open>bdev_dispatcher.c\<close> (\<^verbatim>\<open>zettide_spdk_bdev_dispatcher_submit_read_many\<close>): a batch is
  sent to the owner thread, which reads straight into the destinations when all of them are DMA-capable
  and through one bounce buffer otherwise.  Memory is a function from addresses to bytes, so what is
  copied back is part of the state; the caller's array of statuses holds \<open>None\<close> where nothing has been
  written.  The layout of the bounce buffer is compared with a layout in the natural numbers.
\<close>

subsection \<open>State\<close>

record dispatcher_read =
  dr_buffer :: u64
  dr_offset :: u64
  dr_length :: u64

record read_item =
  ri_read :: dispatcher_read
  ri_io_buffer :: u64
  ri_bounce_offset :: size_t

record read_batch =
  rb_items :: "read_item list"
  rb_remaining :: size_t
  rb_submitting :: bool
  rb_direct :: bool
  rb_bounce_buffer :: u64

text \<open>
  \<open>batch_pending\<close> lists the requests that SPDK accepted for the batch with the index of their item, the
  context of their callback; \<open>batch_calls\<close> the calls of the batch's callback, with its argument.
\<close>

record batch_world = disp_world +
  mem :: "u64 \<Rightarrow> u8"
  rb :: read_batch
  statuses :: "int option list"
  batch_pending :: "(nat \<times> nat) list"
  batch_calls :: "bool list"

definition modify_rb :: "(read_batch \<Rightarrow> read_batch) \<Rightarrow> ('x batch_world_scheme, unit) state" where
  "modify_rb f = State (\<lambda>w. ((), w\<lparr>rb := f (rb w)\<rparr>))"

lemma run_modify_rb [run_simps, simp]: "run_state (modify_rb f) w = ((), w\<lparr>rb := f (rb w)\<rparr>)"
  by (simp add: modify_rb_def)

definition set_status :: "nat \<Rightarrow> int \<Rightarrow> ('x batch_world_scheme, unit) state" where
  "set_status index status = modify (\<lambda>w. w\<lparr>statuses := (statuses w)[index := Some status]\<rparr>)"

text \<open>\<^verbatim>\<open>sizeof\<close> of \<^verbatim>\<open>struct dispatcher_read_batch\<close> and of its items under LP64.\<close>

definition sizeof_read_batch :: size_t where
  "sizeof_read_batch = 64"

definition sizeof_read_item :: size_t where
  "sizeof_read_item = 48"

subsection \<open>Finishing a batch\<close>

text \<open>The loop over the items, from \<open>index\<close> on.\<close>

fun copy_back :: "int option list \<Rightarrow> read_item list \<Rightarrow> (u64 \<Rightarrow> u8) \<Rightarrow> u64 \<Rightarrow> u8" where
  "copy_back (st # sts) (item # items) m =
     copy_back sts items
       (if st = Some 0
        then memcpy (dr_buffer (ri_read item)) (ri_io_buffer item) (dr_length (ri_read item)) m
        else m)"
| "copy_back _ _ m = m"

definition finish_read_batch :: "('x batch_world_scheme, unit) state" where
  "finish_read_batch = do {
     b \<leftarrow> gets rb;
     ms \<leftarrow> gets live;
     c_assert (Batch_obj \<in> set ms);
     (if \<not> rb_direct b \<and> rb_bounce_buffer b \<noteq> 0 then do {
        modify (\<lambda>w. w\<lparr>mem := copy_back (statuses w) (rb_items b) (mem w)\<rparr>);
        zettide_spdk_dma_free (rb_bounce_buffer b)
      } else ret ());
     free_ptr True Batch_obj;
     modify (\<lambda>w. w\<lparr>batch_calls := batch_calls w @ [rb_direct b]\<rparr>)
   }"

definition read_batch_item_complete :: "nat \<Rightarrow> int \<Rightarrow> ('x batch_world_scheme, unit) state" where
  "read_batch_item_complete index status = do {
     ms \<leftarrow> gets live;
     c_assert (Batch_obj \<in> set ms);
     b \<leftarrow> gets rb;
     c_assert (rb_remaining b > 0);
     set_status index status;
     modify_rb (\<lambda>b. b\<lparr>rb_remaining := rb_remaining b - 1\<rparr>);
     b \<leftarrow> gets rb;
     if rb_remaining b = 0 \<and> \<not> rb_submitting b then finish_read_batch else ret ()
   }"

subsection \<open>The bounce buffer\<close>

text \<open>
  Where each item goes, and the size of the buffer; \<open>None\<close> when a sum would exceed \<^verbatim>\<open>SIZE_MAX\<close>.
\<close>

fun bounce_layout :: "size_t \<Rightarrow> size_t \<Rightarrow> size_t list \<Rightarrow> (size_t list \<times> size_t) option" where
  "bounce_layout alignment bounce_size [] = Some ([], bounce_size)"
| "bounce_layout alignment bounce_size (len # lens) =
     (let remainder = bounce_size mod alignment;
          padding = alignment - remainder
      in if remainder \<noteq> 0 \<and> bounce_size > SIZE_MAX - padding then None
         else let start = (if remainder \<noteq> 0 then bounce_size + padding else bounce_size)
              in if start > SIZE_MAX - len then None
                 else map_option (\<lambda>(offsets, total). (start # offsets, total))
                        (bounce_layout alignment (start + len) lens))"

definition item_lengths :: "read_batch \<Rightarrow> size_t list" where
  "item_lengths b = map (\<lambda>item. dr_length (ri_read item)) (rb_items b)"

definition place_direct :: "read_item \<Rightarrow> read_item" where
  "place_direct item = item\<lparr>ri_io_buffer := dr_buffer (ri_read item)\<rparr>"

definition place_bounce :: "u64 \<Rightarrow> read_item \<Rightarrow> size_t \<Rightarrow> read_item" where
  "place_bounce bounce item offset = item\<lparr>ri_bounce_offset := offset, ri_io_buffer := bounce + offset\<rparr>"

definition prepare_read_batch ::
    "env \<Rightarrow> vtophys \<Rightarrow> thread option \<Rightarrow> ('x batch_world_scheme, int) state" where
  "prepare_read_batch env vtophys self = do {
     b \<leftarrow> gets rb;
     d \<leftarrow> gets dp;
     e \<leftarrow> gets ep;
     let endpoint = (if dp_endpoint d then Some e else None);
     let direct = list_all (\<lambda>item. zettide_spdk_bdev_buffer_is_dma_capable vtophys self endpoint
           (dr_buffer (ri_read item)) (dr_length (ri_read item))) (rb_items b);
     modify_rb (\<lambda>b. b\<lparr>rb_direct := direct\<rparr>);
     if direct then do {
       modify_rb (\<lambda>b. b\<lparr>rb_items := map place_direct (rb_items b)\<rparr>);
       ret 0
     } else
       (case zettide_spdk_bdev_get_geometry endpoint of
          None \<Rightarrow> ret (- ENODEV)
        | Some g \<Rightarrow>
            if buffer_alignment g = 0 then ret (- ENODEV)
            else (case bounce_layout (ucast (buffer_alignment g)) 0 (item_lengths b) of
                    None \<Rightarrow> ret (- EOVERFLOW)
                  | Some (offsets, bounce_size) \<Rightarrow> do {
                      p \<leftarrow> zettide_spdk_dma_malloc env bounce_size (ucast (buffer_alignment g));
                      modify_rb (\<lambda>b. b\<lparr>rb_bounce_buffer := p\<rparr>);
                      if p = 0 then ret (- ENOMEM)
                      else do {
                        modify_rb (\<lambda>b. b\<lparr>rb_items := map2 (place_bounce p) (rb_items b) offsets\<rparr>);
                        ret 0
                      }
                    }))
   }"

subsection \<open>Running a batch on the owner thread\<close>

fun submit_items :: "env \<Rightarrow> thread option \<Rightarrow> nat \<Rightarrow> read_item list \<Rightarrow> ('x batch_world_scheme, unit) state" where
  "submit_items env self index [] = ret ()"
| "submit_items env self index (item # items) = do {
     d \<leftarrow> gets dp;
     n \<leftarrow> gets next_request;
     status \<leftarrow> zettide_spdk_bdev_read env self (dp_endpoint d) (ri_io_buffer item)
                (dr_offset (ri_read item)) (dr_length (ri_read item)) True;
     (if status \<noteq> 0 then read_batch_item_complete index status
      else modify (\<lambda>w. w\<lparr>batch_pending := (n, index) # batch_pending w\<rparr>));
     submit_items env self (Suc index) items
   }"

definition run_read_batch :: "env \<Rightarrow> vtophys \<Rightarrow> thread option \<Rightarrow> ('x batch_world_scheme, unit) state" where
  "run_read_batch env vtophys self = do {
     status \<leftarrow> prepare_read_batch env vtophys self;
     if status \<noteq> 0 then do {
       modify (\<lambda>w. w\<lparr>statuses := map (\<lambda>_. Some status) (statuses w)\<rparr>);
       modify_rb (\<lambda>b. b\<lparr>rb_remaining := 0, rb_submitting := False\<rparr>);
       finish_read_batch
     } else do {
       b \<leftarrow> gets rb;
       submit_items env self 0 (rb_items b);
       modify_rb (\<lambda>b. b\<lparr>rb_submitting := False\<rparr>);
       b \<leftarrow> gets rb;
       if rb_remaining b = 0 then finish_read_batch else ret ()
     }
   }"

text \<open>
  Later, SPDK runs the callbacks of the accepted reads, in any order and with any status.
\<close>

inductive batch_step :: "'x batch_world_scheme \<Rightarrow> 'x batch_world_scheme \<Rightarrow> bool" where
  batch_read_done: "(n, index) \<in> set (batch_pending w) \<Longrightarrow>
     batch_step w (final (read_batch_item_complete index status)
       (w\<lparr>batch_pending := remove1 (n, index) (batch_pending w)\<rparr>))"

subsection \<open>Submitting a batch\<close>

definition new_item :: "dispatcher_read \<Rightarrow> read_item" where
  "new_item r = \<lparr>ri_read = r, ri_io_buffer = 0, ri_bounce_offset = 0\<rparr>"

definition new_batch :: "dispatcher_read list \<Rightarrow> read_batch" where
  "new_batch reads = \<lparr>rb_items = map new_item reads, rb_remaining = of_nat (length reads), rb_submitting = True,
     rb_direct = False, rb_bounce_buffer = 0\<rparr>"

text \<open>
  \<open>reads\<close> is the array of \<open>read_count\<close> reads; the flags say that the pointers are given.  The test of a
  length against \<^verbatim>\<open>SIZE_MAX\<close> never holds where \<^verbatim>\<open>size_t\<close> has 64 bits.
\<close>

definition zettide_spdk_bdev_dispatcher_submit_read_many ::
    "env \<Rightarrow> bool \<Rightarrow> bool \<Rightarrow> dispatcher_read list option \<Rightarrow> size_t \<Rightarrow> bool \<Rightarrow> bool \<Rightarrow>
     ('x batch_world_scheme, int) state" where
  "zettide_spdk_bdev_dispatcher_submit_read_many env on_spdk_thread dispatcher reads read_count
     statuses_given callback =
     (if \<not> dispatcher \<or> reads = None \<or> read_count = 0 \<or> \<not> statuses_given \<or> \<not> callback then ret (- EINVAL)
      else if on_spdk_thread then ret (- EDEADLK)
      else if read_count > (SIZE_MAX - sizeof_read_batch) div sizeof_read_item then ret (- EOVERFLOW)
      else let rs = take (unat read_count) (the reads)
           in if list_ex (\<lambda>r. dr_buffer r = 0 \<or> dr_length r = 0) rs then ret (- EINVAL)
           else do {
             ok \<leftarrow> alloc env (Calloc_size Batch_obj (sizeof_read_batch + read_count * sizeof_read_item)) Batch_obj;
             if \<not> ok then ret (- ENOMEM)
             else do {
               modify_rb (\<lambda>_. new_batch rs);
               d \<leftarrow> gets dp;
               status \<leftarrow> send_msg env (dp_owner d) Run_read_batch;
               whenM (status \<noteq> 0) (free_ptr True Batch_obj);
               ret status
             }
           })"

subsection \<open>The layout of the bounce buffer\<close>

text \<open>The reference: offsets in the natural numbers, each the least multiple of \<open>a\<close> that is free.\<close>

definition align_up :: "nat \<Rightarrow> nat \<Rightarrow> nat" where
  "align_up a s = a * ((s + a - 1) div a)"

fun nat_layout :: "nat \<Rightarrow> nat \<Rightarrow> nat list \<Rightarrow> nat list \<times> nat" where
  "nat_layout a s [] = ([], s)"
| "nat_layout a s (len # lens) =
     (let start = align_up a s; (offsets, sz) = nat_layout a (start + len) lens
      in (start # offsets, sz))"

lemma align_up_eq:
  assumes "0 < a"
  shows "align_up a s = (if s mod a = 0 then s else s + (a - s mod a))"
proof -
  obtain q r where s: "s = q * a + r" and r: "r < a"
    using assms by (metis div_mult_mod_eq mod_less_divisor)
  have m: "s mod a = r" using s r by simp
  show ?thesis
  proof (cases "r = 0")
    case True
    have "(q * a + a - 1) div a = q"
      using assms by (intro div_nat_eqI) (auto simp: algebra_simps)
    with True s m show ?thesis by (simp add: align_up_def mult.commute)
  next
    case False
    have "(q * a + r + a - 1) div a = Suc q"
      using assms r False by (intro div_nat_eqI) (auto simp: algebra_simps)
    with False s m r show ?thesis by (simp add: align_up_def algebra_simps)
  qed
qed

lemma align_up_ge: "0 < a \<Longrightarrow> s \<le> align_up a s"
  by (simp only: align_up_eq le_add1 order_refl split: if_split) simp

lemma align_up_dvd: "a dvd align_up a s"
  by (simp add: align_up_def)

lemma nat_layout_bounds:
  assumes "0 < a" and "nat_layout a s lens = (offsets, sz)"
  shows "s \<le> sz \<and> length offsets = length lens \<and>
    (\<forall>i < length lens. a dvd offsets ! i \<and> s \<le> offsets ! i \<and> offsets ! i + lens ! i \<le> sz \<and>
       (\<forall>j. i < j \<and> j < length lens \<longrightarrow> offsets ! i + lens ! i \<le> offsets ! j))"
  using assms(2)
proof (induction lens arbitrary: s offsets)
  case (Cons len lens)
  let ?st = "align_up a s"
  obtain os where os: "nat_layout a (?st + len) lens = (os, sz)" "offsets = ?st # os"
    using Cons.prems by (auto simp: Let_def split: prod.splits)
  note IH = Cons.IH [OF os(1)]
  have "s \<le> ?st" using align_up_ge [OF assms(1)] .
  moreover have "a dvd (?st # os) ! i \<and> s \<le> (?st # os) ! i \<and> (?st # os) ! i + (len # lens) ! i \<le> sz \<and>
      (\<forall>j. i < j \<and> j < length (len # lens) \<longrightarrow> (?st # os) ! i + (len # lens) ! i \<le> (?st # os) ! j)"
    if "i < length (len # lens)" for i
  proof (cases i)
    case 0
    have "?st + len \<le> (?st # os) ! j" if "0 < j" "j < length (len # lens)" for j
      using IH that by (cases j) auto
    then show ?thesis
      unfolding 0 using IH calculation align_up_dvd [of a s] by auto
  next
    case (Suc k)
    have "os ! k + lens ! k \<le> (?st # os) ! j" if "Suc k < j" "j < length (len # lens)" for j
      using IH that by (cases j) auto
    moreover have "k < length lens" using that Suc by simp
    ultimately show ?thesis
      using Suc IH \<open>s \<le> ?st\<close> by (auto intro: order_trans)
  qed
  ultimately show ?case
    using IH os(2) by simp
qed simp

lemma unat_SIZE_MAX: "unat SIZE_MAX = 2 ^ 64 - 1"
  by (simp add: unsigned_minus_1_eq_mask mask_eq_exp_minus_1)

lemma exceeds_max_iff: "a > SIZE_MAX - b \<longleftrightarrow> 2 ^ 64 \<le> unat a + unat (b :: size_t)"
proof -
  have "a > SIZE_MAX - b \<longleftrightarrow> unat SIZE_MAX - unat b < unat a"
    by (simp add: word_less_nat_alt unat_sub)
  then show ?thesis
    using unsigned_less [of b, where ?'a = nat] by (auto simp: unat_SIZE_MAX)
qed

text \<open>One read: it starts at the next multiple of the alignment, unless its end does not fit a \<^verbatim>\<open>size_t\<close>.\<close>

lemma bounce_layout_step:
  fixes alignment s :: size_t
  assumes "alignment \<noteq> 0"
  defines "start \<equiv> align_up (unat alignment) (unat s)"
  shows "bounce_layout alignment s (len # lens) = (if start + unat len < 2 ^ 64
    then map_option (\<lambda>(offsets, sz). (of_nat start # offsets, sz)) (bounce_layout alignment (of_nat start + len) lens) else None)"
proof -
  let ?r = "s mod alignment" and ?p = "alignment - s mod alignment"
  have a: "0 < unat alignment" using assms(1) by (simp add: unat_gt_0)
  have "unat ?p = unat alignment - unat s mod unat alignment"
    using a by (simp add: unat_sub word_le_nat_alt unat_mod less_imp_le)
  then have st: "start = (if ?r \<noteq> 0 then unat s + unat ?p else unat s)"
    using align_up_eq [OF a, of "unat s"] by (simp add: start_def unat_mod unat_eq_0 [symmetric])
  then have first: "of_nat start = (if ?r \<noteq> 0 then s + ?p else s)" by simp
  show ?thesis
  proof (cases "?r \<noteq> 0 \<and> 2 ^ 64 \<le> unat s + unat ?p")
    case True
    with st show ?thesis by (simp add: Let_def exceeds_max_iff)
  next
    case False
    then have "unat (of_nat start :: size_t) = start"
      using st by (auto simp: unat_word_ariths split: if_splits)
    then have "of_nat start > SIZE_MAX - len \<longleftrightarrow> 2 ^ 64 \<le> start + unat len" by (simp only: exceeds_max_iff)
    with False show ?thesis
      by (auto simp: Let_def exceeds_max_iff first [symmetric] simp del: of_nat_add split: if_splits)
  qed
qed

lemma bounce_layout_refines:
  assumes "alignment \<noteq> 0"
  shows "bounce_layout alignment s lens =
    (case nat_layout (unat alignment) (unat s) (map unat lens) of (offsets, sz) \<Rightarrow>
       if sz < 2 ^ 64 then Some (map of_nat offsets, of_nat sz) else None)"
proof (induction lens arbitrary: s)
  case Nil
  show ?case using unsigned_less [of s, where ?'a = nat] by simp
next
  case (Cons len lens)
  let ?a = "unat alignment"
  let ?st = "align_up ?a (unat s)"
  have a: "0 < ?a" using assms by (simp add: unat_gt_0)
  obtain os t where os: "nat_layout ?a (?st + unat len) (map unat lens) = (os, t)"
    by (rule prod.exhaust)
  have le: "?st + unat len \<le> t"
    using nat_layout_bounds [OF a os] by simp
  show ?case
  proof (cases "?st + unat len < 2 ^ 64")
    case True
    then have "unat (of_nat ?st + len) = ?st + unat len"
      by (simp add: unat_word_ariths unsigned_of_nat take_bit_nat_eq_self)
    with Cons.IH [of "of_nat ?st + len"] os True show ?thesis
      by (subst bounce_layout_step [OF assms]) (simp add: Let_def)
  next
    case False
    with le os show ?thesis by (subst bounce_layout_step [OF assms]) (simp add: Let_def)
  qed
qed
text \<open>
  C25: The bounce buffer of a batch.  The layout computed with 64-bit sums is the one in the natural
  numbers: it is refused exactly when the buffer would need \<open>2 ^ 64\<close> bytes or more, and otherwise every
  item starts at a multiple of the device's alignment, lies inside the buffer and overlaps no other.
\<close>

theorem bounce_layout_correct:
  assumes "alignment \<noteq> 0"
  shows "(bounce_layout alignment 0 lens = None \<longleftrightarrow> 2 ^ 64 \<le> snd (nat_layout (unat alignment) 0 (map unat lens))) \<and>
    (\<forall>offsets sz. bounce_layout alignment 0 lens = Some (offsets, sz) \<longrightarrow>
       length offsets = length lens \<and>
       (\<forall>i < length lens. unat alignment dvd unat (offsets ! i) \<and>
          unat (offsets ! i) + unat (lens ! i) \<le> unat sz \<and>
          (\<forall>j. i < j \<and> j < length lens \<longrightarrow> unat (offsets ! i) + unat (lens ! i) \<le> unat (offsets ! j))))"
proof -
  obtain os t where os: "nat_layout (unat alignment) 0 (map unat lens) = (os, t)"
    by (rule prod.exhaust)
  have eq: "bounce_layout alignment 0 lens = (if t < 2 ^ 64 then Some (map of_nat os, of_nat t) else None)"
    using bounce_layout_refines [OF assms, of 0 lens] os by simp
  have a: "0 < unat alignment" using assms by (simp add: unat_gt_0)
  note b = nat_layout_bounds [OF a os, simplified]
  have small: "unat (of_nat (os ! i) :: u64) = os ! i" if "t < 2 ^ 64" "i < length lens" for i
    using b that by (intro unat_of_nat_u64) (meson add_leD1 le_less_trans)
  show ?thesis
    using eq os b small by (auto simp: unat_of_nat_u64)
qed

theorem bounce_layout_correct_witness:
  "\<exists>offsets sz. bounce_layout 512 0 [100, 600, 512] = Some (offsets, sz) \<and>
     length offsets = 3 \<and> 512 dvd unat (offsets ! 1) \<and> unat (offsets ! 1) + 600 \<le> unat (offsets ! 2)"
proof -
  have "bounce_layout 512 0 [100, 600, 512] = Some ([0, 512, 1536], 2048)"
    by simp
  with bounce_layout_correct [of 512 "[100, 600, 512]"] show ?thesis
    by auto
qed

subsection \<open>Copying back\<close>

abbreviation item_dest :: "read_item \<Rightarrow> u64 set" where
  "item_dest item \<equiv> bytes_at (dr_buffer (ri_read item)) (dr_length (ri_read item))"

abbreviation item_source :: "read_item \<Rightarrow> u64 set" where
  "item_source item \<equiv> bytes_at (ri_io_buffer item) (dr_length (ri_read item))"

lemma copy_back_outside:
  "a \<notin> (\<Union>item \<in> set items. item_dest item) \<Longrightarrow> copy_back sts items m a = m a"
  by (induction sts items m rule: copy_back.induct) (auto simp: memcpy_outside)

text \<open>
  C26: Copying a finished batch back.  If the destinations overlap neither each other nor the bounce
  buffer, then every byte of the destination of a read that succeeded is the corresponding byte of its
  slice of the bounce buffer; the destination of a failed read and all other memory are untouched.
\<close>

theorem copy_back_correct:
  assumes "length sts = length items"
    and "\<forall>i < length items. \<forall>j < length items. i \<noteq> j \<longrightarrow> item_dest (items ! i) \<inter> item_dest (items ! j) = {}"
    and "\<forall>i < length items. \<forall>j < length items. item_dest (items ! i) \<inter> item_source (items ! j) = {}"
  shows "(\<forall>i < length items. \<forall>k < dr_length (ri_read (items ! i)).
      copy_back sts items m (dr_buffer (ri_read (items ! i)) + k) =
        (if sts ! i = Some 0 then m (ri_io_buffer (items ! i) + k)
         else m (dr_buffer (ri_read (items ! i)) + k))) \<and>
    (\<forall>a. a \<notin> (\<Union>item \<in> set items. item_dest item) \<longrightarrow> copy_back sts items m a = m a)"
  using assms
proof (induction sts items arbitrary: m rule: list_induct2)
  case (Cons st sts item items)
  define m1 where "m1 = (if st = Some 0
      then memcpy (dr_buffer (ri_read item)) (ri_io_buffer item) (dr_length (ri_read item)) m else m)"
  have outside: "m1 a = m a" if "a \<notin> item_dest item" for a
    using that by (simp add: m1_def memcpy_outside)
  have head: "item_dest item \<inter> item_dest (items ! j) = {}" "item_dest item \<inter> item_source (items ! j) = {}"
    if "j < length items" for j
    using Cons.prems(1) [rule_format, of 0 "Suc j"] Cons.prems(2) [rule_format, of 0 "Suc j"] that by simp_all
  have tail: "copy_back sts items m1 (dr_buffer (ri_read (items ! j)) + k) =
      (if sts ! j = Some 0 then m (ri_io_buffer (items ! j) + k) else m (dr_buffer (ri_read (items ! j)) + k))"
    if "j < length items" "k < dr_length (ri_read (items ! j))" for j k
  proof -
    have "dr_buffer (ri_read (items ! j)) + k \<in> item_dest (items ! j)"
      "ri_io_buffer (items ! j) + k \<in> item_source (items ! j)"
      using that(2) by (simp_all add: bytes_at_def)
    with head [OF that(1)] have "m1 (dr_buffer (ri_read (items ! j)) + k) = m (dr_buffer (ri_read (items ! j)) + k)"
      "m1 (ri_io_buffer (items ! j) + k) = m (ri_io_buffer (items ! j) + k)"
      by (auto intro!: outside)
    moreover have "item_dest (items ! i) \<inter> item_dest (items ! j) = {}"
      if "i < length items" "j < length items" "i \<noteq> j" for i j
      using Cons.prems(1) [rule_format, of "Suc i" "Suc j"] that by simp
    moreover have "item_dest (items ! i) \<inter> item_source (items ! j) = {}"
      if "i < length items" "j < length items" for i j
      using Cons.prems(2) [rule_format, of "Suc i" "Suc j"] that by simp
    ultimately show ?thesis
      using Cons.IH [of m1] that by simp
  qed
  have first: "copy_back sts items m1 (dr_buffer (ri_read item) + k) =
      (if st = Some 0 then m (ri_io_buffer item + k) else m (dr_buffer (ri_read item) + k))"
    if "k < dr_length (ri_read item)" for k
  proof -
    have "dr_buffer (ri_read item) + k \<in> item_dest item"
      using that by (simp add: bytes_at_def)
    then have "dr_buffer (ri_read item) + k \<notin> (\<Union>item \<in> set items. item_dest item)"
      using head by (fastforce simp: in_set_conv_nth)
    then show ?thesis
      using that by (simp add: copy_back_outside m1_def memcpy_inside)
  qed
  have rest: "copy_back (st # sts) (item # items) m a = m a" if "a \<notin> (\<Union>x \<in> set (item # items). item_dest x)" for a
    using that by (rule copy_back_outside)
  show ?case
    using first tail rest by (auto simp: m1_def [symmetric] nth_Cons split: nat.splits)
qed simp

definition two_items :: "read_item list" where
  "two_items =
     [\<lparr>ri_read = \<lparr>dr_buffer = 0x1000, dr_offset = 0, dr_length = 512\<rparr>, ri_io_buffer = 0x8000, ri_bounce_offset = 0\<rparr>,
      \<lparr>ri_read = \<lparr>dr_buffer = 0x2000, dr_offset = 512, dr_length = 512\<rparr>, ri_io_buffer = 0x8200, ri_bounce_offset = 512\<rparr>]"

theorem copy_back_correct_witness:
  "copy_back [Some 0, Some (- 5)] two_items (\<lambda>a. ucast (a div 512)) 0x1001 = 64 \<and>
   copy_back [Some 0, Some (- 5)] two_items (\<lambda>a. ucast (a div 512)) 0x2001 = 16"
proof -
  have "\<forall>i < length two_items. \<forall>j < length two_items. i \<noteq> j \<longrightarrow>
      item_dest (two_items ! i) \<inter> item_dest (two_items ! j) = {}"
    "\<forall>i < length two_items. \<forall>j < length two_items. item_dest (two_items ! i) \<inter> item_source (two_items ! j) = {}"
    by (auto simp: two_items_def less_Suc_eq bytes_at_disjoint)
  note c = copy_back_correct [OF _ this, of "[Some 0, Some (- 5)]" "\<lambda>a. ucast (a div 512)", THEN conjunct1]
  from c [rule_format, of 0 1] c [rule_format, of 1 1] show ?thesis
    by (simp add: two_items_def)
qed

end
