(* ===== verification/Read_Batch_Life.thy ===== *)
theory Read_Batch_Life
  imports Read_Batch Endpoint_Requests
begin

text \<open>
  The life of a batch of reads from its submission to its callback: the invariant of a running batch,
  kept by every submission and completion, and the theorem that the callback runs exactly once.
\<close>

subsection \<open>The life of a batch\<close>

lemma submit_request_frame:
  assumes "w' = final (submit_request env endpoint operation buffer offset len callback) w"
  shows "aborted w' = aborted w \<and> live w' = live w \<and> ep_world.more w' = ep_world.more w"
proof (cases "endpoint \<and> callback \<and> env (log w) (Calloc (Request_obj (next_request w))) \<noteq> 0")
  case False
  with assms show ?thesis by (auto simp: submit_request_def)
next
  case True
  let ?n = "next_request w"
  let ?r = "\<lparr>rq_operation = operation, rq_buffer = buffer, rq_offset = offset, rq_length = len\<rparr>"
  let ?w = "w\<lparr>log := log w @ [Calloc (Request_obj ?n)], next_request := Suc ?n,
      requests := (?n, ?r) # requests w,
      ep := (ep w)\<lparr>ep_outstanding := ep_outstanding (ep w) + 1\<rparr>\<rparr>"
  obtain rc v where v: "run_state (issue_request env ?n) ?w = (rc, v)"
    by (rule prod.exhaust)
  have "issued ?n rc ?w v"
    by (rule issue_request_run [OF _ v]) simp
  then have v': "v = ?w\<lparr>log := log v, in_flight := in_flight v, waiting := waiting v\<rparr>"
    by (simp add: issued_def)
  have "requests v = (?n, ?r) # requests w" "aborted v = aborted w" "live v = live w"
    "ep_world.more v = ep_world.more w"
    by (subst v', simp)+
  with True v assms show ?thesis
    by (cases "rc = 0") (simp_all add: submit_request_def free_request_def)
qed

lemma bdev_read_frame:
  assumes "run_state (zettide_spdk_bdev_read env self endpoint buffer offset len callback) w = (rc, w')"
  shows "aborted w' = aborted w \<and> live w' = live w \<and> ep_world.more w' = ep_world.more w"
  using assms submit_request_frame [OF refl, where w = w]
  by (auto simp: zettide_spdk_bdev_read_def dest!: arg_cong [of _ _ snd] split: if_splits)

lemma batch_more:
  assumes "ep_world.more s = ep_world.more t"
  shows "dp s = dp t \<and> rb s = rb t \<and> statuses s = statuses t \<and> batch_pending s = batch_pending t \<and>
    batch_calls s = batch_calls t \<and> mem s = mem t"
  using assms by (cases s; cases t) simp

definition bounce_objs :: "read_batch \<Rightarrow> obj list" where
  "bounce_objs b = (if rb_direct b \<or> rb_bounce_buffer b = 0 then [] else [Dma_buffer])"

text \<open>
  A batch that is running: the items below \<open>k\<close> have been submitted, the pending ones among them are
  owed a callback, the others have their status, and the counter counts what is missing.
\<close>

definition batch_open :: "obj list \<Rightarrow> nat \<Rightarrow> 'x batch_world_scheme \<Rightarrow> bool" where
  "batch_open ms k w \<longleftrightarrow> (let n = length (rb_items (rb w)); p = map snd (batch_pending w) in
     \<not> aborted w \<and> live w = bounce_objs (rb w) @ Batch_obj # ms \<and> batch_calls w = [] \<and>
     length (statuses w) = n \<and> n < 2 ^ 64 \<and> k \<le> n \<and> distinct p \<and> (\<forall>i \<in> set p. i < k) \<and>
     (\<forall>i < k. i \<notin> set p \<longrightarrow> statuses w ! i \<noteq> None) \<and>
     rb_remaining (rb w) = of_nat (length p + (n - k)))"

definition batch_done :: "obj list \<Rightarrow> nat \<Rightarrow> 'x batch_world_scheme \<Rightarrow> bool" where
  "batch_done ms n w \<longleftrightarrow> \<not> aborted w \<and> live w = ms \<and> batch_pending w = [] \<and> length (batch_calls w) = 1 \<and>
     length (statuses w) = n \<and> None \<notin> set (statuses w)"

lemma finish_read_batch_done:
  assumes "\<not> aborted w" and "live w = bounce_objs (rb w) @ Batch_obj # ms" and "batch_calls w = []"
    and "batch_pending w = []" and "length (statuses w) = n" and "None \<notin> set (statuses w)"
  shows "batch_done ms n (final finish_read_batch w)"
  using assms by (cases "rb_direct (rb w) \<or> rb_bounce_buffer (rb w) = 0")
    (auto simp: finish_read_batch_def bounce_objs_def batch_done_def zettide_spdk_dma_free_def)

lemma distinct_below_length: "distinct p \<Longrightarrow> \<forall>i \<in> set p. i < k \<Longrightarrow> length p \<le> k"
  by (metis card_lessThan card_mono distinct_card finite_lessThan lessThan_iff subsetI)

lemma of_nat_pred_u64: "0 < n \<Longrightarrow> (of_nat n - 1 :: u64) = of_nat (n - 1)"
  by (simp add: of_nat_diff)


definition with_status :: "nat \<Rightarrow> int \<Rightarrow> 'x batch_world_scheme \<Rightarrow> 'x batch_world_scheme" where
  "with_status i st w = w\<lparr>statuses := (statuses w)[i := Some st],
     rb := (rb w)\<lparr>rb_remaining := rb_remaining (rb w) - 1\<rparr>\<rparr>"

lemma item_complete_run:
  assumes "Batch_obj \<in> set (live w)" and "rb_remaining (rb w) > 0"
  shows "final (read_batch_item_complete i st) w =
    (if rb_remaining (rb w) = 1 \<and> \<not> rb_submitting (rb w) then final finish_read_batch (with_status i st w)
     else with_status i st w)"
  using assms by (simp add: read_batch_item_complete_def set_status_def with_status_def)

lemma batch_open_remaining:
  assumes "batch_open ms k w" and "batch_pending w \<noteq> [] \<or> k < length (rb_items (rb w))"
  shows "rb_remaining (rb w) > 0"
    and "rb_remaining (rb w) = 1 \<longleftrightarrow> length (batch_pending w) + (length (rb_items (rb w)) - k) = 1"
proof -
  let ?m = "length (batch_pending w) + (length (rb_items (rb w)) - k)"
  have "length (map snd (batch_pending w)) \<le> k"
    using assms(1) by (intro distinct_below_length) (simp_all add: batch_open_def Let_def)
  moreover have "k \<le> length (rb_items (rb w))" "length (rb_items (rb w)) < 2 ^ 64"
    using assms(1) by (simp_all add: batch_open_def Let_def)
  moreover have "0 < ?m"
    using assms(2) by (cases "batch_pending w") auto
  ultimately have m: "?m < 2 ^ 64" "0 < ?m" by simp_all
  moreover have r: "rb_remaining (rb w) = of_nat ?m"
    using assms(1) by (simp add: batch_open_def Let_def del: of_nat_add)
  ultimately show "rb_remaining (rb w) > 0"
    by (simp add: of_nat_gt_0_u64 del: of_nat_add)
  have "(of_nat ?m :: u64) = 1 \<longleftrightarrow> ?m = 1"
    using m unat_of_nat_u64 [OF m(1)] by (metis of_nat_1 unsigned_1)
  then show "rb_remaining (rb w) = 1 \<longleftrightarrow> ?m = 1"
    using r by (simp del: of_nat_add)
qed

lemma batch_open_live: "batch_open ms k w \<Longrightarrow> Batch_obj \<in> set (live w)"
  by (simp add: batch_open_def Let_def)

lemma batch_open_Suc:
  assumes "batch_open ms k w" and "k < length (rb_items (rb w))"
  shows "batch_open ms (Suc k) (with_status k st w)"
    and "batch_open ms (Suc k) (w\<lparr>batch_pending := (n, k) # batch_pending w\<rparr>)"
proof -
  let ?m = "length (batch_pending w) + (length (rb_items (rb w)) - k)"
  have "rb_remaining (rb w) - 1 = of_nat (length (batch_pending w) + (length (rb_items (rb w)) - Suc k))"
    using assms of_nat_pred_u64 [of ?m] by (simp add: batch_open_def Let_def del: of_nat_add)
  then show "batch_open ms (Suc k) (with_status k st w)"
    using assms unfolding batch_open_def Let_def with_status_def
    by (auto simp: bounce_objs_def nth_list_update less_Suc_eq)
  have "length (batch_pending w) + (length (rb_items (rb w)) - k) =
      Suc (length (batch_pending w) + (length (rb_items (rb w)) - Suc k))"
    using assms(2) by simp
  then show "batch_open ms (Suc k) (w\<lparr>batch_pending := (n, k) # batch_pending w\<rparr>)"
    using assms unfolding batch_open_def Let_def by (auto simp: less_Suc_eq simp del: of_nat_add)
qed

lemma submit_items_run:
  assumes "batch_open ms k w" and "rb_submitting (rb w)" and "length (rb_items (rb w)) = k + length items"
  shows "batch_open ms (k + length items) (final (submit_items env self k items) w) \<and>
    rb_submitting (rb (final (submit_items env self k items) w)) \<and>
    length (rb_items (rb (final (submit_items env self k items) w))) = k + length items"
  using assms
proof (induction items arbitrary: k w)
  case (Cons item items)
  obtain rc v where v: "run_state (zettide_spdk_bdev_read env self (dp_endpoint (dp w)) (ri_io_buffer item)
      (dr_offset (ri_read item)) (dr_length (ri_read item)) True) w = (rc, v)"
    by (rule prod.exhaust)
  note fr = bdev_read_frame [OF v]
  note more = batch_more [OF fr [THEN conjunct2, THEN conjunct2]]
  have open_v: "batch_open ms k v"
    using Cons.prems(1) fr more by (simp add: batch_open_def Let_def)
  have k: "k < length (rb_items (rb w))" using Cons.prems(3) by simp
  let ?u = "if rc \<noteq> 0 then with_status k rc v else v\<lparr>batch_pending := (next_request w, k) # batch_pending v\<rparr>"
  have sub: "rb_submitting (rb v)" using Cons.prems(2) more by simp
  have "final (submit_items env self k (item # items)) w = final (submit_items env self (Suc k) items) ?u"
    using v item_complete_run [OF batch_open_live [OF open_v] batch_open_remaining(1) [OF open_v]] k more sub
    by (simp add: split_def)
  moreover have "batch_open ms (Suc k) ?u"
    using open_v k more batch_open_Suc [OF open_v] by (simp add: more)
  ultimately show ?case
    using Cons.IH [of "Suc k" ?u] Cons.prems(3) sub more by (simp add: with_status_def)
qed simp


definition batch_waiting :: "obj list \<Rightarrow> nat \<Rightarrow> 'x batch_world_scheme \<Rightarrow> bool" where
  "batch_waiting ms n w \<longleftrightarrow> length (rb_items (rb w)) = n \<and> batch_open ms n w \<and> \<not> rb_submitting (rb w) \<and>
     batch_pending w \<noteq> []"

lemma batch_open_all_filled:
  assumes "batch_open ms (length (rb_items (rb w))) w" and "batch_pending w = []"
  shows "None \<notin> set (statuses w)"
  using assms by (auto simp: batch_open_def Let_def in_set_conv_nth)

lemma batch_open_finish:
  assumes "batch_open ms (length (rb_items (rb w))) w" and "batch_pending w = []"
  shows "batch_done ms (length (rb_items (rb w))) (final finish_read_batch w)"
  using assms batch_open_all_filled [OF assms]
  by (intro finish_read_batch_done) (simp_all add: batch_open_def Let_def)

lemma batch_open_complete:
  assumes "batch_open ms (length (rb_items (rb w))) w" and "(n, i) \<in> set (batch_pending w)"
  shows "batch_open ms (length (rb_items (rb w)))
    (with_status i st (w\<lparr>batch_pending := remove1 (n, i) (batch_pending w)\<rparr>))"
proof -
  let ?p = "batch_pending w" and ?q = "remove1 (n, i) (batch_pending w)"
  obtain xs ys where ps: "?p = xs @ (n, i) # ys" "(n, i) \<notin> set xs"
    using split_list_first [OF assms(2)] by blast
  then have q: "?q = xs @ ys" by (simp add: remove1_append)
  have d: "distinct (map snd ?p)"
    using assms(1) by (simp add: batch_open_def Let_def)
  have r: "rb_remaining (rb w) - 1 = of_nat (length ?q)"
    using assms(1) of_nat_pred_u64 [of "length ?p"] ps q
    by (simp add: batch_open_def Let_def)
  have "(statuses w)[i := Some st] ! j \<noteq> None"
    if "j < length (rb_items (rb w))" "j \<notin> set (map snd ?q)" for j
    using assms(1) that ps(1) q by (cases "j = i") (auto simp: batch_open_def Let_def nth_list_update)
  moreover have "distinct (map snd ?q)" "\<forall>j \<in> set (map snd ?q). j < length (rb_items (rb w))"
    using assms(1) d ps(1) q by (auto simp: batch_open_def Let_def)
  ultimately show ?thesis
    using assms(1) r by (simp add: batch_open_def Let_def with_status_def bounce_objs_def)
qed

lemma batch_step_run:
  assumes "batch_step w w'" and "batch_waiting ms N w \<or> batch_done ms N w"
  shows "batch_waiting ms N w' \<or> batch_done ms N w'"
  using assms
proof cases
  case (batch_read_done n i st)
  then have wait: "batch_waiting ms N w"
    using assms(2) by (auto simp: batch_done_def)
  let ?w = "w\<lparr>batch_pending := remove1 (n, i) (batch_pending w)\<rparr>"
  let ?u = "with_status i st ?w"
  have o: "batch_open ms (length (rb_items (rb w))) w" "\<not> rb_submitting (rb w)" "length (rb_items (rb w)) = N"
    using wait by (simp_all add: batch_waiting_def)
  have pos: "rb_remaining (rb ?w) > 0"
    and one: "rb_remaining (rb ?w) = 1 \<longleftrightarrow> length (batch_pending w) = 1"
    using batch_open_remaining [OF o(1)] wait by (simp_all add: batch_waiting_def)
  have u: "batch_open ms (length (rb_items (rb w))) ?u"
    by (rule batch_open_complete [OF o(1) batch_read_done(2)])
  have "w' = (if length (batch_pending w) = 1 then final finish_read_batch ?u else ?u)"
    using batch_read_done(1) item_complete_run [of ?w i st] pos one o batch_open_live [OF o(1)] by simp
  moreover have "batch_pending ?u = [] \<longleftrightarrow> length (batch_pending w) = 1"
    using split_list_first [OF batch_read_done(2)] by (auto simp: with_status_def remove1_append)
  moreover have "rb_items (rb ?u) = rb_items (rb w)" "\<not> rb_submitting (rb ?u)"
    using o(2) by (simp_all add: with_status_def)
  ultimately show ?thesis
    using u batch_open_finish [of ms ?u] o(3) by (auto simp: batch_waiting_def)
qed


text \<open>A batch that has been sent and not run yet.\<close>

definition batch_sent :: "obj list \<Rightarrow> dispatcher_read list \<Rightarrow> 'x batch_world_scheme \<Rightarrow> bool" where
  "batch_sent ms reads w \<longleftrightarrow> \<not> aborted w \<and> rb w = new_batch reads \<and> live w = Batch_obj # ms \<and>
     statuses w = replicate (length reads) None \<and> batch_pending w = [] \<and> batch_calls w = [] \<and>
     reads \<noteq> [] \<and> length reads < 2 ^ 64"

lemma bounce_layout_length:
  "bounce_layout a s lens = Some (offsets, sz) \<Longrightarrow> length offsets = length lens"
  by (induction lens arbitrary: s offsets) (auto simp: Let_def split: if_splits)

lemma prepare_read_batch_run:
  assumes "batch_sent ms reads w" and "run_state (prepare_read_batch env vtophys self) w = (st, v)"
  shows "(st = 0 \<longrightarrow> batch_open ms 0 v) \<and> (st \<noteq> 0 \<longrightarrow> bounce_objs (rb v) = []) \<and>
    \<not> aborted v \<and> live v = bounce_objs (rb v) @ Batch_obj # ms \<and> statuses v = statuses w \<and>
    batch_pending v = [] \<and> batch_calls v = [] \<and> rb_submitting (rb v) \<and>
    length (rb_items (rb v)) = length reads"
proof -
  let ?endpoint = "if dp_endpoint (dp w) then Some (ep w) else None"
  let ?direct = "list_all (\<lambda>item. zettide_spdk_bdev_buffer_is_dma_capable vtophys self ?endpoint
     (dr_buffer (ri_read item)) (dr_length (ri_read item))) (rb_items (rb w))"
  have v: "st = result (prepare_read_batch env vtophys self) w" "v = final (prepare_read_batch env vtophys self) w"
    using assms(2) by simp_all
  note sent = assms(1) [unfolded batch_sent_def new_batch_def]
  show ?thesis
  proof (cases ?direct)
    case True
    with sent show ?thesis
      unfolding v by (simp add: prepare_read_batch_def batch_open_def bounce_objs_def)
  next
    case bounce: False
    show ?thesis
    proof (cases "dp_endpoint (dp w) \<and> buffer_alignment (ep_geometry (ep w)) \<noteq> 0")
      case False
      with bounce sent show ?thesis
        unfolding v by (auto simp: prepare_read_batch_def bounce_objs_def zettide_spdk_bdev_get_geometry_def)
    next
      case g: True
      let ?a = "ucast (buffer_alignment (ep_geometry (ep w)))"
      show ?thesis
      proof (cases "bounce_layout ?a 0 (item_lengths (rb w))")
        case None
        with g bounce sent show ?thesis
          unfolding v by (simp add: prepare_read_batch_def bounce_objs_def zettide_spdk_bdev_get_geometry_def)
      next
        case (Some l)
        obtain offsets sz where l: "l = (offsets, sz)" by (rule prod.exhaust)
        have "length offsets = length reads"
          using bounce_layout_length Some l sent by (simp add: item_lengths_def)
        with g bounce sent Some l show ?thesis
          unfolding v by (simp add: prepare_read_batch_def batch_open_def bounce_objs_def
              zettide_spdk_bdev_get_geometry_def zettide_spdk_dma_malloc_def dma_alloc_def Let_def)
      qed
    qed
  qed
qed


lemma run_read_batch_run:
  assumes "batch_sent ms reads w"
  shows "batch_waiting ms (length reads) (final (run_read_batch env vtophys self) w) \<or>
    batch_done ms (length reads) (final (run_read_batch env vtophys self) w)"
proof -
  obtain st v where v: "run_state (prepare_read_batch env vtophys self) w = (st, v)"
    by (rule prod.exhaust)
  note prep = prepare_read_batch_run [OF assms v]
  show ?thesis
  proof (cases "st = 0")
    case False
    let ?u = "v\<lparr>statuses := map (\<lambda>_. Some st) (statuses v), rb := (rb v)\<lparr>rb_remaining := 0, rb_submitting := False\<rparr>\<rparr>"
    have "final (run_read_batch env vtophys self) w = final finish_read_batch ?u"
      using v False by (simp add: run_read_batch_def)
    moreover have "batch_done ms (length reads) (final finish_read_batch ?u)"
      using prep False assms by (intro finish_read_batch_done) (auto simp: bounce_objs_def batch_sent_def)
    ultimately show ?thesis by simp
  next
    case True
    define u where "u = final (submit_items env self 0 (rb_items (rb v))) v"
    let ?x = "u\<lparr>rb := (rb u)\<lparr>rb_submitting := False\<rparr>\<rparr>"
    have o: "batch_open ms (length (rb_items (rb v))) u"
      using submit_items_run [of ms 0 v "rb_items (rb v)" env self] prep True by (simp add: u_def)
    have n: "length (rb_items (rb u)) = length (rb_items (rb v))" "length (rb_items (rb v)) = length reads"
      using submit_items_run [of ms 0 v "rb_items (rb v)" env self] prep True by (simp_all add: u_def)
    have x: "batch_open ms (length (rb_items (rb ?x))) ?x"
      using o n by (simp add: batch_open_def bounce_objs_def Let_def)
    have run: "final (run_read_batch env vtophys self) w =
        (if rb_remaining (rb u) = 0 then final finish_read_batch ?x else ?x)"
      using v True by (simp add: run_read_batch_def u_def split_def)
    show ?thesis
    proof (cases "batch_pending u = []")
      case True
      then have "rb_remaining (rb u) = 0"
        using o n by (simp add: batch_open_def Let_def)
      with run batch_open_finish [OF x] True n show ?thesis by simp
    next
      case False
      have "rb_remaining (rb ?x) > 0"
        by (rule batch_open_remaining(1) [OF x]) (simp add: False)
      then have "rb_remaining (rb u) \<noteq> 0" by auto
      with run x False n show ?thesis by (simp add: batch_waiting_def)
    qed
  qed
qed

text \<open>
  C3: A batch calls back exactly once.  Whatever path it takes (direct, bounced, refused), whatever SPDK
  answers to each read, and in whatever order the accepted reads complete: no assertion fails, and the
  batch and its bounce buffer are neither used after they are freed nor freed twice.  While a read is
  pending the callback has not run; once none is, it has run exactly once, every status has been written,
  and everything allocated for the batch is freed.
\<close>

theorem read_batch_calls_back_once:
  assumes "batch_sent ms reads w" and "batch_step\<^sup>*\<^sup>* (final (run_read_batch env vtophys self) w) w'"
  shows "\<not> aborted w' \<and>
    (if batch_pending w' = [] then length (batch_calls w') = 1 \<and> live w' = ms \<and>
       length (statuses w') = length reads \<and> None \<notin> set (statuses w')
     else batch_calls w' = [] \<and> Batch_obj \<in> set (live w'))"
proof -
  have "batch_waiting ms (length reads) w' \<or> batch_done ms (length reads) w'"
    using assms(2)
  proof (induction rule: rtranclp_induct)
    case base
    show ?case by (rule run_read_batch_run [OF assms(1)])
  next
    case (step x y)
    show ?case by (rule batch_step_run [OF step.hyps(2) step.IH])
  qed
  then show ?thesis
    by (auto simp: batch_waiting_def batch_open_def batch_done_def Let_def)
qed


text \<open>Three reads of which the first is accepted, the second refused and the third completes last.\<close>

definition batch_reads :: "dispatcher_read list" where
  "batch_reads = [\<lparr>dr_buffer = 0x1000, dr_offset = 0, dr_length = 512\<rparr>,
     \<lparr>dr_buffer = 0x2000, dr_offset = 100, dr_length = 512\<rparr>,
     \<lparr>dr_buffer = 0x3000, dr_offset = 512, dr_length = 1024\<rparr>]"

definition batch_env :: env where
  "batch_env l c = (case c of Calloc _ \<Rightarrow> 1 | Calloc_size _ _ \<Rightarrow> 1 | Spdk_dma_malloc _ _ \<Rightarrow> 0x10000 | _ \<Rightarrow> 0)"

definition batch_world0 :: batch_world where
  "batch_world0 = \<lparr>log = [], aborted = False, live = [Batch_obj], mailbox = [], ep = example_endpoint,
     dev = example_bdev, requests = [], next_request = 0, in_flight = [], waiting = [], called = [], events = [],
     dp = \<lparr>dp_owner = Some 7, dp_runtime = True, dp_endpoint = True\<rparr>, lease_rt = zero_runtime,
     mem = (\<lambda>_. 0), rb = new_batch batch_reads, statuses = [None, None, None], batch_pending = [],
     batch_calls = []\<rparr>"

definition batch_world1 :: batch_world where
  "batch_world1 = final (run_read_batch batch_env (\<lambda>_ _. None) (Some 7)) batch_world0"

lemmas batch_code = run_read_batch_def prepare_read_batch_def new_batch_def new_item_def batch_reads_def
  item_lengths_def place_bounce_def zettide_spdk_bdev_buffer_is_dma_capable_def
  zettide_spdk_bdev_get_geometry_def zettide_spdk_dma_malloc_def dma_alloc_def zettide_spdk_bdev_read_def
  validate_range_def on_owner_thread_def example_endpoint_def example_bdev_def geometry_of_def
  submit_request_def issue_request_def io_call_def read_batch_item_complete_def set_status_def
  finish_read_batch_def zettide_spdk_dma_free_def dma_walk.simps

lemma batch_world1_eval:
  "batch_pending batch_world1 = [(1, 2), (0, 0)]" "batch_calls batch_world1 = []"
  by (simp_all add: batch_world1_def batch_world0_def batch_code batch_env_def Let_def)


lemma item_complete_pending: "batch_pending (final (read_batch_item_complete i st) w) = batch_pending w"
  by (simp add: read_batch_item_complete_def finish_read_batch_def set_status_def zettide_spdk_dma_free_def
      free_ptr_def run_give_back split_def)

definition batch_world2 :: batch_world where
  "batch_world2 = final (read_batch_item_complete 0 0) (batch_world1\<lparr>batch_pending := [(1, 2)]\<rparr>)"

definition batch_world3 :: batch_world where
  "batch_world3 = final (read_batch_item_complete 2 (- 5)) (batch_world2\<lparr>batch_pending := []\<rparr>)"

theorem read_batch_calls_back_once_witness:
  "batch_sent [] batch_reads batch_world0 \<and> batch_step\<^sup>*\<^sup>* batch_world1 batch_world3 \<and>
   length (batch_calls batch_world3) = 1 \<and> live batch_world3 = [] \<and> None \<notin> set (statuses batch_world3)"
proof -
  have sent: "batch_sent [] batch_reads batch_world0"
    by (simp add: batch_sent_def batch_world0_def batch_reads_def)
  have "batch_step batch_world1 batch_world2"
    using batch_step.batch_read_done [of 0 0 batch_world1 0] by (simp add: batch_world1_eval batch_world2_def)
  moreover have "batch_pending batch_world2 = [(1, 2)]"
    by (simp add: batch_world2_def item_complete_pending)
  then have "batch_step batch_world2 batch_world3"
    using batch_step.batch_read_done [of 1 2 batch_world2 "- 5"] by (simp add: batch_world3_def)
  ultimately have steps: "batch_step\<^sup>*\<^sup>* batch_world1 batch_world3" by simp
  moreover have "batch_pending batch_world3 = []"
    by (simp add: batch_world3_def item_complete_pending)
  ultimately show ?thesis
    using read_batch_calls_back_once [OF sent steps [unfolded batch_world1_def]] sent by simp
qed

subsection \<open>Submitting\<close>

lemma batch_size_no_overflow:
  assumes "\<not> c > (SIZE_MAX - sizeof_read_batch) div sizeof_read_item"
  shows "unat (sizeof_read_batch + c * sizeof_read_item) = 64 + 48 * unat c"
proof -
  have "(SIZE_MAX - sizeof_read_batch) div sizeof_read_item = 384307168202282323"
    by (simp add: sizeof_read_batch_def sizeof_read_item_def)
  then have "unat c \<le> 384307168202282323"
    using assms by (simp add: word_le_nat_alt not_less)
  then show ?thesis
    by (simp add: sizeof_read_batch_def sizeof_read_item_def unat_word_ariths)
qed

text \<open>
  C27: Submitting a batch.  The size of its allocation never overflows.  A submission that returns 0
  has a batch of exactly the given reads, none of them empty or without a destination, waiting in the
  owner's mailbox; any other status leaves no allocation behind and no message.  It is refused from an
  SPDK thread.
\<close>

theorem submit_read_many_outcome:
  assumes "\<not> aborted w" and "length reads = unat read_count"
    and run: "run_state (zettide_spdk_bdev_dispatcher_submit_read_many env on_spdk dispatcher (Some reads) read_count
      given callback) w = (status, w')"
  shows "\<not> aborted w' \<and>
    (status = 0 \<longrightarrow> \<not> on_spdk \<and> rb w' = new_batch reads \<and> live w' = Batch_obj # live w \<and> reads \<noteq> [] \<and>
       (\<forall>r \<in> set reads. dr_buffer r \<noteq> 0 \<and> dr_length r \<noteq> 0) \<and>
       mailbox w' = mailbox w @ [(dp_owner (dp w), Run_read_batch)] \<and>
       (\<exists>sz. Calloc_size Batch_obj sz \<in> set (log w') \<and> unat sz = 64 + 48 * length reads)) \<and>
    (status \<noteq> 0 \<longrightarrow> live w' = live w \<and> mailbox w' = mailbox w)"
proof -
  let ?sz = "sizeof_read_batch + read_count * sizeof_read_item"
  let ?c = "Calloc_size Batch_obj ?sz"
  have take: "take (unat read_count) reads = reads" using assms(2) by simp
  show ?thesis
  proof (cases "\<not> dispatcher \<or> read_count = 0 \<or> \<not> given \<or> \<not> callback \<or> on_spdk \<or>
      read_count > (SIZE_MAX - sizeof_read_batch) div sizeof_read_item \<or>
      list_ex (\<lambda>r. dr_buffer r = 0 \<or> dr_length r = 0) reads \<or> env (log w) ?c = 0")
    case True
    then have "status \<noteq> 0 \<and> aborted w' = aborted w \<and> live w' = live w \<and> mailbox w' = mailbox w"
      using run take
      by (auto simp: zettide_spdk_bdev_dispatcher_submit_read_many_def Let_def split: if_splits)
    with assms(1) show ?thesis by simp
  next
    case False
    have "unat ?sz = 64 + 48 * length reads"
      using batch_size_no_overflow [of read_count] False assms(2) by simp
    moreover have "reads \<noteq> []"
      using False assms(2) by (auto simp: unat_eq_0)
    moreover have "\<forall>r \<in> set reads. dr_buffer r \<noteq> 0 \<and> dr_length r \<noteq> 0"
      using False by (auto simp: list_ex_iff)
    ultimately show ?thesis
      using False run take assms(1)
      by (auto simp: zettide_spdk_bdev_dispatcher_submit_read_many_def Let_def split: if_splits)
  qed
qed

theorem submit_read_many_outcome_witness:
  "\<exists>w'. run_state (zettide_spdk_bdev_dispatcher_submit_read_many batch_env False True (Some batch_reads) 3 True True)
      (batch_world0\<lparr>live := []\<rparr>) = (0, w') \<and> rb w' = new_batch batch_reads \<and> live w' = [Batch_obj]"
proof -
  let ?m = "zettide_spdk_bdev_dispatcher_submit_read_many batch_env False True (Some batch_reads) 3 True True"
  let ?w = "batch_world0\<lparr>live := []\<rparr>"
  have "result ?m ?w = 0"
    by (simp add: zettide_spdk_bdev_dispatcher_submit_read_many_def batch_reads_def batch_env_def
        sizeof_read_batch_def sizeof_read_item_def Let_def)
  then have run: "run_state ?m ?w = (0, final ?m ?w)"
    by (simp add: prod_eq_iff)
  from submit_read_many_outcome [OF _ _ run] run show ?thesis
    by (auto simp: batch_world0_def batch_reads_def)
qed

end
