(* ===== verification/Provider_IO.thy ===== *)
theory Provider_IO
  imports Memory
begin

text \<open>
  The I/O path of \<^verbatim>\<open>bdev_provider.c\<close>: an SPDK I/O is handed to the backend with a contiguous buffer, and the
  backend's completions are grouped by the thread that submitted each I/O and completed there, one
  message per thread.  The groups are linked lists through the per-I/O contexts, which live inside the
  SPDK I/Os and vanish when those complete; so the contexts are an explicit store, and a step to a
  context that is gone sets \<open>aborted\<close>.  The loops over the lists take fuel and set \<open>aborted\<close> when it
  runs out; the theorems show that neither happens with fuel beyond the number of I/Os.
\<close>

subsection \<open>State\<close>

datatype bdev_io_type = IO_TYPE_READ | IO_TYPE_WRITE | IO_TYPE_FLUSH | IO_TYPE_RESET | IO_TYPE_OTHER

text \<open>
  The fields of \<^verbatim>\<open>struct spdk_bdev_io\<close> and \<^verbatim>\<open>struct spdk_bdev\<close> that the sources use; \<open>bio_thread\<close> is what
  \<^verbatim>\<open>spdk_bdev_io_get_thread\<close> returns.
\<close>

record bdev_io =
  bio_type :: bdev_io_type
  bio_iovs :: "iovec list"
  bio_offset_blocks :: u64
  bio_num_blocks :: u64
  bio_thread :: "thread option"

record provider =
  pv_name :: string
  pv_write_cache :: bool
  pv_blocklen :: u32
  pv_phys_blocklen :: u32
  pv_blockcnt :: u64
  pv_write_unit_size :: u32
  pv_max_rw_size :: u32
  pv_read_buffers_unchanged :: bool

text \<open>The context of an I/O is the \<^verbatim>\<open>driver_ctx\<close> of its SPDK I/O: both have the same number.\<close>

record provider_io =
  io_bdev_io :: nat
  io_submit_thread :: "thread option"
  io_next_complete :: "nat option"
  io_next_complete_group :: "nat option"
  io_buffer :: u64
  io_length :: u64
  io_status :: int
  io_owns_buffer :: bool
  io_operation :: provider_operation

record provider_completion =
  pc_context :: "nat option"
  pc_status :: int

text \<open>
  \<open>completed_ios\<close> lists the calls of \<^verbatim>\<open>spdk_bdev_io_complete\<close> with the thread that made them,
  \<open>backend_ios\<close> the contexts the backend accepted and has not completed, and \<open>get_buf_ios\<close> the I/Os
  for which SPDK still has to provide a buffer.
\<close>

record pio_world = world +
  pv :: provider
  bdev_ios :: "nat \<Rightarrow> bdev_io option"
  ios :: "nat \<Rightarrow> provider_io option"
  pmem :: memory
  completed_ios :: "(nat \<times> bdev_io_status \<times> thread option) list"
  backend_ios :: "nat list"
  get_buf_ios :: "nat list"

definition null_io :: provider_io where
  "null_io = \<lparr>io_bdev_io = 0, io_submit_thread = None, io_next_complete = None, io_next_complete_group = None,
     io_buffer = 0, io_length = 0, io_status = 0, io_owns_buffer = False, io_operation = PROVIDER_READ\<rparr>"

definition null_bdev_io :: bdev_io where
  "null_bdev_io = \<lparr>bio_type = IO_TYPE_OTHER, bio_iovs = [], bio_offset_blocks = 0, bio_num_blocks = 0, bio_thread = None\<rparr>"

definition get_io :: "nat \<Rightarrow> ('x pio_world_scheme, provider_io) state" where
  "get_io n = do {
     m \<leftarrow> gets ios;
     case m n of None \<Rightarrow> do { c_abort; ret null_io } | Some io \<Rightarrow> ret io
   }"

definition update_io :: "nat \<Rightarrow> (provider_io \<Rightarrow> provider_io) \<Rightarrow> ('x pio_world_scheme, unit) state" where
  "update_io n f = do {
     m \<leftarrow> gets ios;
     case m n of None \<Rightarrow> c_abort | Some io \<Rightarrow> modify (\<lambda>w. w\<lparr>ios := m(n \<mapsto> f io)\<rparr>)
   }"

definition get_bdev_io :: "nat \<Rightarrow> ('x pio_world_scheme, bdev_io) state" where
  "get_bdev_io n = do {
     m \<leftarrow> gets bdev_ios;
     case m n of None \<Rightarrow> do { c_abort; ret null_bdev_io } | Some b \<Rightarrow> ret b
   }"

text \<open>\<^verbatim>\<open>spdk_bdev_io_complete\<close> takes the I/O back, and its context with it.\<close>

definition spdk_bdev_io_complete :: "thread option \<Rightarrow> nat \<Rightarrow> bdev_io_status \<Rightarrow> ('x pio_world_scheme, unit) state" where
  "spdk_bdev_io_complete self n status = do {
     m \<leftarrow> gets bdev_ios;
     c_assert (m n \<noteq> None);
     emit (Spdk_bdev_io_complete n status);
     modify (\<lambda>w. w\<lparr>bdev_ios := (bdev_ios w)(n := None), ios := (ios w)(n := None),
       completed_ios := completed_ios w @ [(n, status, self)]\<rparr>)
   }"

subsection \<open>Completing I/Os\<close>

definition single_iov_buffer :: "bdev_io \<Rightarrow> u64 \<Rightarrow> u64" where
  "single_iov_buffer b len =
     (case bio_iovs b of [iov] \<Rightarrow> if iov_len iov < len then 0 else iov_base iov | _ \<Rightarrow> 0)"

definition complete_provider_io :: "thread option \<Rightarrow> nat \<Rightarrow> ('x pio_world_scheme, unit) state" where
  "complete_provider_io self n = do {
     io \<leftarrow> get_io n;
     b \<leftarrow> get_bdev_io (io_bdev_io io);
     p \<leftarrow> gets pv;
     c_assert (self = io_submit_thread io);
     copied \<leftarrow> (if io_status io = 0 \<and> io_owns_buffer io \<and> io_operation io = PROVIDER_READ \<and>
                    \<not> pv_read_buffers_unchanged p
                 then do {
                   m \<leftarrow> gets pmem;
                   let r = copy_to_iovs (bio_iovs b) (io_buffer io) (io_length io) m;
                   modify (\<lambda>w. w\<lparr>pmem := snd r\<rparr>);
                   ret (fst r)
                 } else ret True);
     whenM (io_owns_buffer io) (free_ptr True (Provider_buffer n));
     spdk_bdev_io_complete self (io_bdev_io io)
       (if io_status io = 0 \<and> copied then IO_STATUS_SUCCESS else IO_STATUS_FAILED)
   }"

fun complete_provider_io_batch :: "nat \<Rightarrow> thread option \<Rightarrow> nat option \<Rightarrow> ('x pio_world_scheme, unit) state" where
  "complete_provider_io_batch fuel self None = ret ()"
| "complete_provider_io_batch 0 self (Some n) = c_abort"
| "complete_provider_io_batch (Suc fuel) self (Some n) = do {
     io \<leftarrow> get_io n;
     complete_provider_io self n;
     complete_provider_io_batch fuel self (io_next_complete io)
   }"

subsection \<open>Grouping a batch of completions\<close>

text \<open>The search for the group of a thread; \<open>None\<close> when there is none yet.\<close>

fun find_group :: "nat \<Rightarrow> thread option \<Rightarrow> nat option \<Rightarrow> ('x pio_world_scheme, nat option) state" where
  "find_group fuel t None = ret None"
| "find_group 0 t (Some head) = do { c_abort; ret None }"
| "find_group (Suc fuel) t (Some head) = do {
     io \<leftarrow> get_io head;
     if io_submit_thread io = t then ret (Some head)
     else find_group fuel t (io_next_complete_group io)
   }"

text \<open>One round of the first loop: the new head of the groups is the result.\<close>

definition group_completion ::
    "nat \<Rightarrow> nat option \<Rightarrow> provider_completion \<Rightarrow> ('x pio_world_scheme, nat option) state" where
  "group_completion fuel groups c =
     (case pc_context c of
        None \<Rightarrow> do { c_abort; ret groups }
      | Some n \<Rightarrow> do {
          update_io n (\<lambda>io. io\<lparr>io_status := pc_status c, io_next_complete := None, io_next_complete_group := None\<rparr>);
          io \<leftarrow> get_io n;
          h \<leftarrow> find_group fuel (io_submit_thread io) groups;
          case h of
            Some head \<Rightarrow> do {
              hio \<leftarrow> get_io head;
              update_io n (\<lambda>io. io\<lparr>io_next_complete := io_next_complete hio\<rparr>);
              update_io head (\<lambda>io. io\<lparr>io_next_complete := Some n\<rparr>);
              ret groups
            }
          | None \<Rightarrow> do {
              update_io n (\<lambda>io. io\<lparr>io_next_complete_group := groups\<rparr>);
              ret (Some n)
            }
        })"

fun group_completions ::
    "nat \<Rightarrow> nat option \<Rightarrow> provider_completion list \<Rightarrow> ('x pio_world_scheme, nat option) state" where
  "group_completions fuel groups [] = ret groups"
| "group_completions fuel groups (c # cs) = do {
     groups \<leftarrow> group_completion fuel groups c;
     group_completions fuel groups cs
   }"

fun dispatch_groups :: "env \<Rightarrow> nat \<Rightarrow> nat \<Rightarrow> thread option \<Rightarrow> nat option \<Rightarrow> ('x pio_world_scheme, unit) state" where
  "dispatch_groups env limit fuel self None = ret ()"
| "dispatch_groups env limit 0 self (Some head) = c_abort"
| "dispatch_groups env limit (Suc fuel) self (Some head) = do {
     io \<leftarrow> get_io head;
     (if self = io_submit_thread io then complete_provider_io_batch limit self (Some head)
      else do {
        rc \<leftarrow> send_msg env (io_submit_thread io) (Complete_provider_io_batch head);
        c_assert (rc = 0)
      });
     dispatch_groups env limit fuel self (io_next_complete_group io)
   }"

text \<open>The array of \<open>count\<close> completions is a list.\<close>

definition zettide_spdk_bdev_provider_complete_batch ::
    "env \<Rightarrow> nat \<Rightarrow> thread option \<Rightarrow> provider_completion list \<Rightarrow> ('x pio_world_scheme, unit) state" where
  "zettide_spdk_bdev_provider_complete_batch env fuel self completions = do {
     groups \<leftarrow> group_completions fuel None completions;
     dispatch_groups env fuel fuel self groups
   }"

definition provider_backend_complete ::
    "env \<Rightarrow> nat \<Rightarrow> thread option \<Rightarrow> nat \<Rightarrow> int \<Rightarrow> ('x pio_world_scheme, unit) state" where
  "provider_backend_complete env fuel self n status =
     zettide_spdk_bdev_provider_complete_batch env fuel self [\<lparr>pc_context = Some n, pc_status = status\<rparr>]"

subsection \<open>Submitting an I/O\<close>

text \<open>
  \<^verbatim>\<open>malloc\<close> answers an address, 0 being \<^verbatim>\<open>NULL\<close>.  The comparison of the length with \<^verbatim>\<open>SIZE_MAX\<close> never
  holds where \<^verbatim>\<open>size_t\<close> has 64 bits.  An answer 0 of the backend makes it the owner of the context.
\<close>

definition provider_malloc :: "env \<Rightarrow> nat \<Rightarrow> size_t \<Rightarrow> ('x pio_world_scheme, u64) state" where
  "provider_malloc env n len = do {
     p \<leftarrow> ext env (Malloc_size (Provider_buffer n) len);
     let a = (word_of_int p :: u64);
     whenM (a \<noteq> 0) (hold (Provider_buffer n));
     ret a
   }"

definition new_provider_io :: "nat \<Rightarrow> bdev_io \<Rightarrow> u64 \<Rightarrow> provider_operation \<Rightarrow> provider_io" where
  "new_provider_io n b len operation =
     \<lparr>io_bdev_io = n, io_submit_thread = bio_thread b, io_next_complete = None, io_next_complete_group = None,
      io_buffer = 0, io_length = len, io_status = 0, io_owns_buffer = False, io_operation = operation\<rparr>"

text \<open>The buffer of an I/O, for the operations that have one: \<open>False\<close> when the allocation failed.\<close>

definition provider_buffer ::
    "env \<Rightarrow> nat \<Rightarrow> bdev_io \<Rightarrow> u64 \<Rightarrow> provider_operation \<Rightarrow> ('x pio_world_scheme, bool) state" where
  "provider_buffer env n b len operation =
     (if \<not> (operation = PROVIDER_READ \<or> operation = PROVIDER_WRITE) then ret True
      else do {
        update_io n (\<lambda>io. io\<lparr>io_buffer := single_iov_buffer b len\<rparr>);
        if single_iov_buffer b len \<noteq> 0 then ret True
        else do {
          a \<leftarrow> provider_malloc env n len;
          update_io n (\<lambda>io. io\<lparr>io_buffer := a\<rparr>);
          if a = 0 then ret False
          else do { update_io n (\<lambda>io. io\<lparr>io_owns_buffer := True\<rparr>); ret True }
        }
      })"

definition submit_to_backend ::
    "env \<Rightarrow> nat \<Rightarrow> thread option \<Rightarrow> nat \<Rightarrow> provider_operation \<Rightarrow> u64 \<Rightarrow> u64 \<Rightarrow> ('x pio_world_scheme, unit) state" where
  "submit_to_backend env fuel self n operation offset len = do {
     io \<leftarrow> get_io n;
     status \<leftarrow> ext env (Backend_submit operation offset (io_buffer io) len n);
     if status \<noteq> 0 then provider_backend_complete env fuel self n status
     else modify (\<lambda>w. w\<lparr>backend_ios := n # backend_ios w\<rparr>)
   }"

text \<open>After the buffer was found: gather the data of a write, and hand over.\<close>

definition submit_filled ::
    "env \<Rightarrow> nat \<Rightarrow> thread option \<Rightarrow> nat \<Rightarrow> bdev_io \<Rightarrow> provider_operation \<Rightarrow> u64 \<Rightarrow> u64 \<Rightarrow> ('x pio_world_scheme, unit) state" where
  "submit_filled env fuel self n b operation offset len = do {
     io \<leftarrow> get_io n;
     copied \<leftarrow> (if operation = PROVIDER_WRITE \<and> io_owns_buffer io
                 then do {
                   m \<leftarrow> gets pmem;
                   let r = copy_from_iovs (io_buffer io) len (bio_iovs b) m;
                   modify (\<lambda>w. w\<lparr>pmem := snd r\<rparr>);
                   ret (fst r)
                 } else ret True);
     if \<not> copied then do {
       free_ptr True (Provider_buffer n);
       spdk_bdev_io_complete self n IO_STATUS_FAILED
     } else submit_to_backend env fuel self n operation offset len
   }"

definition submit_provider_io ::
    "env \<Rightarrow> nat \<Rightarrow> thread option \<Rightarrow> nat \<Rightarrow> provider_operation \<Rightarrow> ('x pio_world_scheme, unit) state" where
  "submit_provider_io env fuel self n operation = do {
     b \<leftarrow> get_bdev_io n;
     p \<leftarrow> gets pv;
     let blocklen = (ucast (pv_blocklen p) :: u64);
     if operation \<noteq> PROVIDER_RESET \<and>
        (bio_num_blocks b > UINT64_MAX div blocklen \<or> bio_offset_blocks b > UINT64_MAX div blocklen)
     then spdk_bdev_io_complete self n IO_STATUS_FAILED
     else do {
       let offset = (if operation \<noteq> PROVIDER_RESET then bio_offset_blocks b * blocklen else 0);
       let len = (if operation \<noteq> PROVIDER_RESET then bio_num_blocks b * blocklen else 0);
       modify (\<lambda>w. w\<lparr>ios := (ios w)(n \<mapsto> new_provider_io n b len operation)\<rparr>);
       ok \<leftarrow> provider_buffer env n b len operation;
       if \<not> ok then spdk_bdev_io_complete self n IO_STATUS_NOMEM
       else submit_filled env fuel self n b operation offset len
     }
   }"

definition provider_read_get_buf ::
    "env \<Rightarrow> nat \<Rightarrow> thread option \<Rightarrow> nat \<Rightarrow> bool \<Rightarrow> ('x pio_world_scheme, unit) state" where
  "provider_read_get_buf env fuel self n success =
     (if \<not> success then spdk_bdev_io_complete self n IO_STATUS_NOMEM
      else submit_provider_io env fuel self n PROVIDER_READ)"

definition provider_submit_request ::
    "env \<Rightarrow> nat \<Rightarrow> thread option \<Rightarrow> nat \<Rightarrow> ('x pio_world_scheme, unit) state" where
  "provider_submit_request env fuel self n = do {
     b \<leftarrow> get_bdev_io n;
     p \<leftarrow> gets pv;
     case bio_type b of
       IO_TYPE_READ \<Rightarrow> do {
         emit (Spdk_bdev_io_get_buf n (bio_num_blocks b * ucast (pv_blocklen p)));
         modify (\<lambda>w. w\<lparr>get_buf_ios := n # get_buf_ios w\<rparr>)
       }
     | IO_TYPE_WRITE \<Rightarrow> submit_provider_io env fuel self n PROVIDER_WRITE
     | IO_TYPE_FLUSH \<Rightarrow> submit_provider_io env fuel self n PROVIDER_FLUSH
     | IO_TYPE_RESET \<Rightarrow> submit_provider_io env fuel self n PROVIDER_RESET
     | IO_TYPE_OTHER \<Rightarrow> spdk_bdev_io_complete self n IO_STATUS_FAILED
   }"

definition provider_io_type_supported :: "bdev_io_type \<Rightarrow> bool" where
  "provider_io_type_supported type =
     (case type of IO_TYPE_READ \<Rightarrow> True | IO_TYPE_WRITE \<Rightarrow> True | IO_TYPE_FLUSH \<Rightarrow> True | IO_TYPE_RESET \<Rightarrow> True
      | IO_TYPE_OTHER \<Rightarrow> False)"

end
