(* ===== verification/Provider_Batch.thy ===== *)
theory Provider_Batch
  imports Provider_IO "HOL-Library.Multiset"
begin

text \<open>
  Correctness of \<^verbatim>\<open>zettide_spdk_bdev_provider_complete_batch\<close>.  The lists linked through the contexts are
  related to lists of groups, on which the grouping is a small functional program (\<open>group_all\<close>); the
  loops over the links refine it, and completing or sending a group does what it does to the list.
\<close>

subsection \<open>Linked groups\<close>

text \<open>\<open>chain\<close>: following \<^verbatim>\<open>next_complete\<close> from \<open>p\<close> visits exactly the listed contexts.\<close>

fun chain :: "(nat \<Rightarrow> provider_io option) \<Rightarrow> nat option \<Rightarrow> nat list \<Rightarrow> bool" where
  "chain s p [] \<longleftrightarrow> p = None"
| "chain s p (n # ns) \<longleftrightarrow> p = Some n \<and> (\<exists>io. s n = Some io \<and> chain s (io_next_complete io) ns)"

text \<open>\<open>groups_rep\<close>: following \<^verbatim>\<open>next_complete_group\<close> from \<open>p\<close> visits the heads of the listed groups.\<close>

fun groups_rep :: "(nat \<Rightarrow> provider_io option) \<Rightarrow> nat option \<Rightarrow> nat list list \<Rightarrow> bool" where
  "groups_rep s p [] \<longleftrightarrow> p = None"
| "groups_rep s p (g # gs) \<longleftrightarrow>
     (\<exists>n ns io. g = n # ns \<and> p = Some n \<and> s n = Some io \<and> chain s p g \<and> groups_rep s (io_next_complete_group io) gs)"

text \<open>The abstract grouping: behind the head of the first group of the same thread, or a new group.\<close>

fun add_to_groups :: "(nat \<Rightarrow> thread option) \<Rightarrow> nat \<Rightarrow> nat list list \<Rightarrow> nat list list option" where
  "add_to_groups home n [] = None"
| "add_to_groups home n (g # gs) =
     (if home (hd g) = home n then Some ((hd g # n # tl g) # gs)
      else map_option (\<lambda>gs. g # gs) (add_to_groups home n gs))"

definition group_by_thread :: "(nat \<Rightarrow> thread option) \<Rightarrow> nat \<Rightarrow> nat list list \<Rightarrow> nat list list" where
  "group_by_thread home n gs = (case add_to_groups home n gs of Some gs' \<Rightarrow> gs' | None \<Rightarrow> [n] # gs)"

definition homes :: "(nat \<Rightarrow> thread option) \<Rightarrow> (nat \<Rightarrow> provider_io option) \<Rightarrow> nat set \<Rightarrow> bool" where
  "homes home s A \<longleftrightarrow> (\<forall>n \<in> A. \<exists>io. s n = Some io \<and> io_submit_thread io = home n)"

lemma homes_subset: "homes home s A \<Longrightarrow> B \<subseteq> A \<Longrightarrow> homes home s B"
  by (auto simp: homes_def)

lemma groups_rep_nonempty: "groups_rep s p gs \<Longrightarrow> g \<in> set gs \<Longrightarrow> g \<noteq> []"
  by (induction gs arbitrary: p) auto

lemma find_SomeD: "find P xs = Some x \<Longrightarrow> x \<in> set xs \<and> P x"
  by (auto simp: find_Some_iff)

lemma chain_cong: "(\<And>n. n \<in> set ns \<Longrightarrow> s' n = s n) \<Longrightarrow> chain s' p ns = chain s p ns"
  by (induction ns arbitrary: p) auto

lemma groups_rep_cong: "(\<And>n. n \<in> set (concat gs) \<Longrightarrow> s' n = s n) \<Longrightarrow> groups_rep s' p gs = groups_rep s p gs"
proof (induction gs arbitrary: p)
  case (Cons g gs)
  have "chain s' p g = chain s p g"
    using Cons.prems by (intro chain_cong) auto
  moreover have "groups_rep s' q gs = groups_rep s q gs" for q
    using Cons.prems by (intro Cons.IH) auto
  ultimately show ?case
    using Cons.prems by (auto)
qed simp

lemma run_get_io [simp]: "ios w n = Some io \<Longrightarrow> run_state (get_io n) w = (io, w)"
  by (simp add: get_io_def)

lemma run_get_bdev_io [simp]: "bdev_ios w n = Some b \<Longrightarrow> run_state (get_bdev_io n) w = (b, w)"
  by (simp add: get_bdev_io_def)

lemma run_update_io [simp]:
  "ios w n = Some io \<Longrightarrow> run_state (update_io n f) w = ((), w\<lparr>ios := (ios w)(n \<mapsto> f io)\<rparr>)"
  by (simp add: update_io_def)

text \<open>The search returns the head of the group that the abstract grouping extends.\<close>

lemma find_group_run:
  assumes "groups_rep (ios w) p gs" and "homes home (ios w) (set (concat gs))" and "length gs < fuel"
  shows "run_state (find_group fuel t p) w = (map_option hd (find (\<lambda>g. home (hd g) = t) gs), w)"
  using assms
proof (induction gs arbitrary: p fuel)
  case Nil
  then show ?case by (cases fuel) auto
next
  case (Cons g gs)
  then obtain n ns io f where "g = n # ns" "p = Some n" "ios w n = Some io" "fuel = Suc f"
      "groups_rep (ios w) (io_next_complete_group io) gs" "io_submit_thread io = home n"
    by (cases fuel) (auto simp: homes_def)
  moreover have "homes home (ios w) (set (concat gs))"
    using Cons.prems(2) by (rule homes_subset) auto
  ultimately show ?case
    using Cons.prems(3) by (simp add: Cons.IH)
qed

lemma add_to_groups_None: "add_to_groups home n gs = None \<longleftrightarrow> find (\<lambda>g. home (hd g) = home n) gs = None"
  by (induction gs) auto

lemma add_to_groups_length: "add_to_groups home n gs = Some gs' \<Longrightarrow> length gs' = length gs"
  by (induction gs arbitrary: gs') (auto split: if_splits)

lemma length_group_by_thread: "length (group_by_thread home n gs) \<le> Suc (length gs)"
  by (auto simp: group_by_thread_def dest: add_to_groups_length split: option.splits)

lemma groups_rep_link:
  assumes "groups_rep s p gs" and "distinct (concat gs)" and "n \<notin> set (concat gs)" and "s n = Some nio"
    and "find (\<lambda>g. home (hd g) = home n) gs = Some g" and "s (hd g) = Some hio"
    and "s' = s(n \<mapsto> nio\<lparr>io_next_complete := io_next_complete hio\<rparr>, hd g \<mapsto> hio\<lparr>io_next_complete := Some n\<rparr>)"
  shows "\<exists>gs'. add_to_groups home n gs = Some gs' \<and> groups_rep s' p gs'"
  using assms
proof (induction gs arbitrary: p)
  case (Cons g1 gs)
  obtain m ms io where g1: "g1 = m # ms" "p = Some m" "s m = Some io" "chain s (io_next_complete io) ms"
      "groups_rep s (io_next_complete_group io) gs"
    using Cons.prems(1) by auto
  show ?case
  proof (cases "home m = home n")
    case True
    then have g: "g = g1" using Cons.prems(5) g1 by simp
    then have io: "hio = io" using g1 Cons.prems(6) by simp
    have "chain s' (io_next_complete io) ms = chain s (io_next_complete io) ms"
      using Cons.prems g g1 by (intro chain_cong) auto
    moreover have "groups_rep s' q gs = groups_rep s q gs" for q
      using Cons.prems g g1 by (intro groups_rep_cong) auto
    moreover have "m \<noteq> n" using Cons.prems(3) g1 by auto
    ultimately show ?thesis
      using True g g1 io Cons.prems(7) by auto
  next
    case False
    then have f: "find (\<lambda>g. home (hd g) = home n) gs = Some g"
      using Cons.prems(5) g1 by simp
    have "hd g \<in> set (concat gs)"
      using find_SomeD [OF f] groups_rep_nonempty [OF g1(5), of g] by (auto intro!: bexI [of _ g])
    then have "hd g \<notin> set g1" using Cons.prems(2) by auto
    then have same: "s' x = s x" if "x \<in> set g1" for x
      using Cons.prems(3,7) that by auto
    have "chain s' p g1 = chain s p g1" "s' m = s m"
      using chain_cong [OF same] same [of m] g1 by simp_all
    moreover obtain gs' where "add_to_groups home n gs = Some gs'" "groups_rep s' (io_next_complete_group io) gs'"
      using Cons.IH [OF g1(5) _ _ Cons.prems(4) f Cons.prems(6,7)] Cons.prems(2,3) by auto
    ultimately show ?thesis
      using False g1 Cons.prems(1) by auto
  qed
qed simp

lemma add_to_groups_SomeD:
  assumes "add_to_groups home n gs = Some gs'" and "[] \<notin> set gs"
  shows "\<exists>xs m ms ys. gs = xs @ (m # ms) # ys \<and> gs' = xs @ (m # n # ms) # ys \<and> home m = home n"
  using assms
proof (induction gs arbitrary: gs')
  case (Cons g gs)
  obtain m ms where g: "g = m # ms" using Cons.prems(2) by (cases g) auto
  show ?case
  proof (cases "home m = home n")
    case True
    with Cons.prems(1) g show ?thesis
      by (intro exI [of _ "[]"] exI [of _ m] exI [of _ ms] exI [of _ gs]) simp
  next
    case False
    with Cons g obtain gs1 where "add_to_groups home n gs = Some gs1" "gs' = g # gs1" by auto
    with Cons.IH [of gs1] Cons.prems(2) obtain xs k ks ys where
      "gs = xs @ (k # ks) # ys" "gs1 = xs @ (k # n # ks) # ys" "home k = home n" by auto
    with \<open>gs' = g # gs1\<close> show ?thesis
      by (intro exI [of _ "g # xs"] exI [of _ k] exI [of _ ks] exI [of _ ys]) simp
  qed
qed simp

text \<open>A list of groups as the first loop keeps it.\<close>

definition groups_ok :: "(nat \<Rightarrow> thread option) \<Rightarrow> nat list list \<Rightarrow> bool" where
  "groups_ok home gs \<longleftrightarrow> [] \<notin> set gs \<and> distinct (concat gs) \<and> distinct (map (home \<circ> hd) gs) \<and>
     (\<forall>g \<in> set gs. \<forall>x \<in> set g. home x = home (hd g))"

lemma group_by_thread_ok:
  assumes "groups_ok home gs" and "n \<notin> set (concat gs)"
  shows "groups_ok home (group_by_thread home n gs) \<and> mset (concat (group_by_thread home n gs)) = mset (concat gs) + {#n#}"
proof (cases "add_to_groups home n gs")
  case None
  then have "find (\<lambda>g. home (hd g) = home n) gs = None" by (simp add: add_to_groups_None)
  then have "home n \<notin> set (map (home \<circ> hd) gs)" by (auto simp: find_None_iff)
  with None assms show ?thesis by (auto simp: group_by_thread_def groups_ok_def)
next
  case (Some gs')
  have ne: "[] \<notin> set gs" using assms by (simp add: groups_ok_def)
  obtain xs m ms ys where "gs = xs @ (m # ms) # ys" "gs' = xs @ (m # n # ms) # ys" "home m = home n"
    using add_to_groups_SomeD [OF Some ne] by blast
  with Some assms show ?thesis by (auto simp: group_by_thread_def groups_ok_def)
qed

text \<open>What grouping leaves alone: everything but the links, and the status it sets.\<close>

definition io_core :: "provider_io \<Rightarrow> provider_io" where
  "io_core io = io\<lparr>io_next_complete := None, io_next_complete_group := None\<rparr>"

lemma io_core_simps [simp]:
  "io_core (io\<lparr>io_next_complete := x\<rparr>) = io_core io" "io_core (io\<lparr>io_next_complete_group := x\<rparr>) = io_core io"
  "io_core (io\<lparr>io_status := st\<rparr>) = (io_core io)\<lparr>io_status := st\<rparr>"
  by (simp_all add: io_core_def)

lemma io_coreD:
  assumes "io_core io = (io_core io')\<lparr>io_status := st\<rparr>"
  shows "io_bdev_io io = io_bdev_io io' \<and> io_submit_thread io = io_submit_thread io' \<and> io_status io = st \<and>
    io_owns_buffer io = io_owns_buffer io' \<and> io_buffer io = io_buffer io' \<and> io_length io = io_length io' \<and>
    io_operation io = io_operation io'"
  using assms by (cases io; cases io') (simp add: io_core_def)

definition regrouped :: "(nat \<times> int) list \<Rightarrow> (nat \<Rightarrow> provider_io option) \<Rightarrow> (nat \<Rightarrow> provider_io option) \<Rightarrow> bool" where
  "regrouped cs s s' \<longleftrightarrow> dom s' = dom s \<and>
     (\<forall>m io. s m = Some io \<longrightarrow> (\<exists>io'. s' m = Some io' \<and>
        io_core io' = (io_core io)\<lparr>io_status := (case map_of cs m of None \<Rightarrow> io_status io | Some st \<Rightarrow> st)\<rparr>))"

lemma io_core_status [simp]: "(io_core io)\<lparr>io_status := io_status io\<rparr> = io_core io"
  by (simp add: io_core_def)

lemma regroupedD:
  assumes "regrouped cs s s'" and "s m = Some io"
  obtains io' where "s' m = Some io'" "io_bdev_io io' = io_bdev_io io" "io_submit_thread io' = io_submit_thread io"
    "io_owns_buffer io' = io_owns_buffer io" "io_operation io' = io_operation io"
    "io_status io' = (case map_of cs m of None \<Rightarrow> io_status io | Some st \<Rightarrow> st)"
proof -
  obtain io' where io': "s' m = Some io'"
      "io_core io' = (io_core io)\<lparr>io_status := (case map_of cs m of None \<Rightarrow> io_status io | Some st \<Rightarrow> st)\<rparr>"
    using assms unfolding regrouped_def by blast
  with that io_coreD [OF io'(2)] show thesis by metis
qed

lemma regrouped_homes: "regrouped cs s s' \<Longrightarrow> homes home s A \<Longrightarrow> homes home s' A"
  unfolding homes_def by (metis regroupedD)

lemma regrouped_refl: "regrouped [] s s"
  by (auto simp: regrouped_def)

lemma regrouped_trans:
  assumes "regrouped [(n, st)] s s'" and "regrouped cs s' s''" and "n \<notin> fst ` set cs"
  shows "regrouped ((n, st) # cs) s s''"
  unfolding regrouped_def
proof (intro conjI allI impI)
  show "dom s'' = dom s" using assms(1,2) by (simp add: regrouped_def)
  fix m io assume "s m = Some io"
  with assms(1) obtain io' where io': "s' m = Some io'"
      "io_core io' = (io_core io)\<lparr>io_status := (if m = n then st else io_status io)\<rparr>"
    unfolding regrouped_def by (cases "m = n") fastforce+
  with assms(2) obtain io'' where io'': "s'' m = Some io''"
      "io_core io'' = (io_core io')\<lparr>io_status := (case map_of cs m of None \<Rightarrow> io_status io' | Some st \<Rightarrow> st)\<rparr>"
    unfolding regrouped_def by blast
  have "map_of cs n = None" using assms(3) by (auto simp: map_of_eq_None_iff)
  with io' io'' io_coreD [OF io'(2)]
  show "\<exists>io''. s'' m = Some io'' \<and>
      io_core io'' = (io_core io)\<lparr>io_status := (case map_of ((n, st) # cs) m of None \<Rightarrow> io_status io | Some st \<Rightarrow> st)\<rparr>"
    by (auto split: option.splits)
qed

lemma group_completion_run:
  assumes rep: "groups_rep (ios w) p gs" and ok: "groups_ok home gs"
    and h: "homes home (ios w) (insert n (set (concat gs)))" and n: "n \<notin> set (concat gs)" and f: "length gs < fuel"
    and c: "pc_context c = Some n"
  shows "\<exists>s' p'. run_state (group_completion fuel p c) w = (p', w\<lparr>ios := s'\<rparr>) \<and>
    groups_rep s' p' (group_by_thread home n gs) \<and> regrouped [(n, pc_status c)] (ios w) s' \<and>
    (\<forall>m. m \<notin> insert n (set (concat gs)) \<longrightarrow> s' m = ios w m)"
proof -
  obtain io where io: "ios w n = Some io" "io_submit_thread io = home n"
    using h by (auto simp: homes_def)
  define io1 where "io1 = io\<lparr>io_status := pc_status c, io_next_complete := None, io_next_complete_group := None\<rparr>"
  define w1 where "w1 = w\<lparr>ios := (ios w)(n \<mapsto> io1)\<rparr>"
  have rep1: "groups_rep (ios w1) p gs"
    using rep n by (subst groups_rep_cong [of gs _ "ios w"]) (auto simp: w1_def)
  have h1: "homes home (ios w1) (set (concat gs))"
    using h n by (auto simp: homes_def w1_def)
  note find = find_group_run [OF rep1 h1 f, of "home n"]
  show ?thesis
  proof (cases "find (\<lambda>g. home (hd g) = home n) gs")
    case None
    define s where "s = (ios w)(n \<mapsto> io1\<lparr>io_next_complete_group := p\<rparr>)"
    have "run_state (group_completion fuel p c) w = (Some n, w\<lparr>ios := s\<rparr>)"
      using c io find None by (simp add: group_completion_def io1_def w1_def s_def)
    moreover have "groups_rep s p gs"
      using n rep by (subst groups_rep_cong [of gs _ "ios w"]) (auto simp: s_def)
    then have "groups_rep s (Some n) (group_by_thread home n gs)"
      using None by (simp add: group_by_thread_def add_to_groups_None [THEN iffD2] io1_def s_def)
    moreover have "regrouped [(n, pc_status c)] (ios w) s"
      using io by (auto simp: regrouped_def io1_def s_def)
    moreover have "\<forall>m. m \<noteq> n \<longrightarrow> s m = ios w m" by (simp add: s_def)
    ultimately show ?thesis by (intro exI conjI) auto
  next
    case (Some g)
    then have g: "g \<in> set gs" by (auto dest: find_SomeD)
    then have hd: "hd g \<in> set (concat gs)"
      using groups_rep_nonempty [OF rep] by (auto intro!: bexI [of _ g])
    then obtain hio where hio: "ios w1 (hd g) = Some hio"
      using h1 by (auto simp: homes_def)
    have neq: "hd g \<noteq> n" using hd n by auto
    define s where "s = (ios w1)(n \<mapsto> io1\<lparr>io_next_complete := io_next_complete hio\<rparr>, hd g \<mapsto> hio\<lparr>io_next_complete := Some n\<rparr>)"
    have "run_state (group_completion fuel p c) w = (p, w\<lparr>ios := s\<rparr>)"
      using c io find Some hio neq by (simp add: group_completion_def io1_def w1_def s_def)
    moreover have "distinct (concat gs)" "ios w1 n = Some io1"
      using ok by (simp_all add: groups_ok_def w1_def)
    then obtain gs' where "add_to_groups home n gs = Some gs'" "groups_rep s p gs'"
      using groups_rep_link [OF rep1 _ n _ Some hio s_def] by blast
    moreover have "regrouped [(n, pc_status c)] (ios w) s"
      using io neq hio by (auto simp: regrouped_def io1_def w1_def s_def)
    moreover have "\<forall>m. m \<notin> insert n (set (concat gs)) \<longrightarrow> s m = ios w m"
      using hd by (auto simp: w1_def s_def)
    ultimately show ?thesis by (intro exI conjI) (auto simp: group_by_thread_def)
  qed
qed

fun group_all :: "(nat \<Rightarrow> thread option) \<Rightarrow> nat list \<Rightarrow> nat list list \<Rightarrow> nat list list" where
  "group_all home [] gs = gs"
| "group_all home (n # ns) gs = group_all home ns (group_by_thread home n gs)"

lemma group_all_ok:
  "groups_ok home gs \<Longrightarrow> distinct ns \<Longrightarrow> set ns \<inter> set (concat gs) = {} \<Longrightarrow>
   groups_ok home (group_all home ns gs) \<and> mset (concat (group_all home ns gs)) = mset (concat gs) + mset ns"
proof (induction ns arbitrary: gs)
  case (Cons n ns)
  have n: "n \<notin> set (concat gs)" using Cons.prems(3) by auto
  note g = group_by_thread_ok [OF Cons.prems(1) n]
  have "set (concat (group_by_thread home n gs)) = insert n (set (concat gs))"
    using arg_cong [OF conjunct2 [OF g], of set_mset] by simp
  with Cons.prems have "set ns \<inter> set (concat (group_by_thread home n gs)) = {}" by auto
  from Cons.IH [OF conjunct1 [OF g] _ this] Cons.prems(2) g show ?case by simp
qed simp

text \<open>The first loop refines the abstract grouping; completions are given with their contexts.\<close>

definition contexts :: "provider_completion list \<Rightarrow> (nat \<times> int) list" where
  "contexts cs = map (\<lambda>c. (the (pc_context c), pc_status c)) cs"

lemma group_completions_run:
  assumes "groups_rep (ios w) p gs" and "groups_ok home gs" and "ns = map fst (contexts cs)"
    and "homes home (ios w) (set ns \<union> set (concat gs))" and "distinct ns" and "set ns \<inter> set (concat gs) = {}"
    and "length gs + length cs < fuel" and "\<forall>c \<in> set cs. pc_context c \<noteq> None"
  shows "\<exists>s' p'. run_state (group_completions fuel p cs) w = (p', w\<lparr>ios := s'\<rparr>) \<and>
    groups_rep s' p' (group_all home ns gs) \<and> regrouped (contexts cs) (ios w) s' \<and>
    (\<forall>m. m \<notin> set ns \<union> set (concat gs) \<longrightarrow> s' m = ios w m)"
  using assms
proof (induction cs arbitrary: w p gs ns)
  case Nil
  then show ?case by (intro exI [of _ "ios w"] exI [of _ p]) (simp add: contexts_def regrouped_refl)
next
  case (Cons c cs)
  obtain n where c: "pc_context c = Some n" using Cons.prems(8) by auto
  define ms where "ms = map fst (contexts cs)"
  have ns: "ns = n # ms" using Cons.prems(3) c by (simp add: contexts_def ms_def)
  have n: "n \<notin> set (concat gs)" "n \<notin> set ms" "set ms \<inter> set (concat gs) = {}"
    using Cons.prems(5,6) ns by auto
  have h: "homes home (ios w) (insert n (set (concat gs)))"
    using Cons.prems(4) by (rule homes_subset) (auto simp: ns)
  have "length gs < fuel" using Cons.prems(7) by simp
  from group_completion_run [OF Cons.prems(1,2) h n(1) this c]
  obtain s1 p1 where s1: "run_state (group_completion fuel p c) w = (p1, w\<lparr>ios := s1\<rparr>)"
      "groups_rep s1 p1 (group_by_thread home n gs)" "regrouped [(n, pc_status c)] (ios w) s1"
      "\<forall>m. m \<notin> insert n (set (concat gs)) \<longrightarrow> s1 m = ios w m"
    by blast
  note g = group_by_thread_ok [OF Cons.prems(2) n(1)]
  have set: "set (concat (group_by_thread home n gs)) = insert n (set (concat gs))"
    using arg_cong [OF conjunct2 [OF g], of set_mset] by simp
  have len: "length (group_by_thread home n gs) \<le> Suc (length gs)" by (rule length_group_by_thread)
  have "\<exists>s' p'. run_state (group_completions fuel p1 cs) (w\<lparr>ios := s1\<rparr>) = (p', w\<lparr>ios := s1\<rparr>\<lparr>ios := s'\<rparr>) \<and>
      groups_rep s' p' (group_all home ms (group_by_thread home n gs)) \<and> regrouped (contexts cs) (ios (w\<lparr>ios := s1\<rparr>)) s' \<and>
      (\<forall>m. m \<notin> set ms \<union> set (concat (group_by_thread home n gs)) \<longrightarrow> s' m = ios (w\<lparr>ios := s1\<rparr>) m)"
  proof (rule Cons.IH [OF _ conjunct1 [OF g] ms_def])
    show "homes home (ios (w\<lparr>ios := s1\<rparr>)) (set ms \<union> set (concat (group_by_thread home n gs)))"
      using regrouped_homes [OF s1(3) Cons.prems(4)] by (simp add: ns set Un_commute insert_commute del: set_concat)
  qed (use s1 n Cons.prems len in \<open>auto simp: ns set simp del: set_concat\<close>)
  then obtain s2 p2 where s2: "run_state (group_completions fuel p1 cs) (w\<lparr>ios := s1\<rparr>) = (p2, w\<lparr>ios := s2\<rparr>)"
      "groups_rep s2 p2 (group_all home ms (group_by_thread home n gs))" "regrouped (contexts cs) s1 s2"
      "\<forall>m. m \<notin> set ms \<union> insert n (set (concat gs)) \<longrightarrow> s2 m = s1 m"
    by (auto simp: set simp del: set_concat)
  have "n \<notin> fst ` set (contexts cs)" using n(2) by (simp add: ms_def)
  from regrouped_trans [OF s1(3) s2(3) this] have "regrouped (contexts (c # cs)) (ios w) s2"
    using c by (simp add: contexts_def)
  with s1 s2 show ?case
    by (intro exI [of _ s2] exI [of _ p2]) (auto simp: ns simp del: set_concat)
qed

subsection \<open>Completing a chain\<close>

text \<open>An outstanding context: it belongs to the SPDK I/O of its number and owns the buffer held for it.\<close>

definition io_wf :: "'x pio_world_scheme \<Rightarrow> nat \<Rightarrow> bool" where
  "io_wf w n \<longleftrightarrow> (\<exists>io b. ios w n = Some io \<and> bdev_ios w n = Some b \<and> io_bdev_io io = n \<and>
     (io_owns_buffer io \<longleftrightarrow> Provider_buffer n \<in> set (live w)))"

text \<open>The world after the I/Os of \<open>es\<close> were completed, each with the status given, on the thread \<open>self\<close>.\<close>

definition after_completion ::
    "(nat \<times> bdev_io_status) list \<Rightarrow> memory \<Rightarrow> call list \<Rightarrow> thread option \<Rightarrow> 'x pio_world_scheme \<Rightarrow> 'x pio_world_scheme" where
  "after_completion es m l self w = w\<lparr>log := l, live := filter (\<lambda>x. x \<notin> Provider_buffer ` fst ` set es) (live w),
     bdev_ios := bdev_ios w |` (- fst ` set es), ios := ios w |` (- fst ` set es), pmem := m,
     completed_ios := completed_ios w @ map (\<lambda>e. (fst e, snd e, self)) es\<rparr>"

lemma after_completion_fields [simp]:
  "log (after_completion es m l self w) = l" "aborted (after_completion es m l self w) = aborted w"
  "mailbox (after_completion es m l self w) = mailbox w" "pv (after_completion es m l self w) = pv w"
  "live (after_completion es m l self w) = filter (\<lambda>x. x \<notin> Provider_buffer ` fst ` set es) (live w)"
  "bdev_ios (after_completion es m l self w) = bdev_ios w |` (- fst ` set es)"
  "ios (after_completion es m l self w) = ios w |` (- fst ` set es)"
  "completed_ios (after_completion es m l self w) = completed_ios w @ map (\<lambda>e. (fst e, snd e, self)) es"
  "backend_ios (after_completion es m l self w) = backend_ios w"
  "get_buf_ios (after_completion es m l self w) = get_buf_ios w"
  "pio_world.more (after_completion es m l self w) = pio_world.more w"
  by (simp_all add: after_completion_def)

lemma after_completion_twice:
  "after_completion es2 m2 l2 self (after_completion es1 m1 l1 self w) = after_completion (es1 @ es2) m2 l2 self w"
  by (auto simp: after_completion_def restrict_map_def fun_eq_iff image_Un intro!: filter_cong)

lemma after_completion_none: "after_completion [] (pmem w) (log w) self w = w"
  by (simp add: after_completion_def restrict_map_def)

lemma io_wf_after_completion: "io_wf w n \<Longrightarrow> n \<notin> fst ` set es \<Longrightarrow> io_wf (after_completion es m l self w) n"
  by (auto simp: io_wf_def)

lemma restrict_Compl_single [simp]: "s |` (- {n}) = s(n := None)"
  by (auto simp: restrict_map_def)

definition completes :: "provider_io \<Rightarrow> bdev_io_status \<Rightarrow> bool" where
  "completes io st \<longleftrightarrow> st \<noteq> IO_STATUS_NOMEM \<and> (st = IO_STATUS_SUCCESS \<longrightarrow> io_status io = 0)"

lemma complete_provider_io_run:
  assumes "io_wf w n" and "distinct (live w)" and "ios w n = Some io" and "io_submit_thread io = self"
  shows "\<exists>st m l. run_state (complete_provider_io self n) w = ((), after_completion [(n, st)] m l self w) \<and> completes io st"
proof -
  obtain b where b: "bdev_ios w n = Some b" "io_bdev_io io = n" "io_owns_buffer io \<longleftrightarrow> Provider_buffer n \<in> set (live w)"
    using assms by (auto simp: io_wf_def)
  have rem: "remove1 (Provider_buffer n) (live w) = filter (\<lambda>x. x \<noteq> Provider_buffer n) (live w)"
    using assms(2) by (simp add: distinct_remove1_removeAll removeAll_filter_not_eq) (metis)
  have keep: "filter (\<lambda>x. x \<noteq> Provider_buffer n) (live w) = live w" if "Provider_buffer n \<notin> set (live w)"
    using that by (auto simp: filter_id_conv)
  obtain ok m where c: "(ok, m) = (if io_status io = 0 \<and> io_owns_buffer io \<and> io_operation io = PROVIDER_READ \<and>
      \<not> pv_read_buffers_unchanged (pv w) then copy_to_iovs (bio_iovs b) (io_buffer io) (io_length io) (pmem w) else (True, pmem w))"
    by (metis surj_pair)
  let ?st = "if io_status io = 0 \<and> ok then IO_STATUS_SUCCESS else IO_STATUS_FAILED"
  have run: "run_state (complete_provider_io self n) w =
      ((), after_completion [(n, ?st)] m (log (final (complete_provider_io self n) w)) self w)"
  proof (cases "io_owns_buffer io")
    case True
    with b have l: "Provider_buffer n \<in> set (live w)" by simp
    show ?thesis
    proof (cases "io_status io = 0 \<and> io_operation io = PROVIDER_READ \<and> \<not> pv_read_buffers_unchanged (pv w)")
      case C: True
      with c True have c': "copy_to_iovs (bio_iovs b) (io_buffer io) (io_length io) (pmem w) = (ok, m)" by simp
      show ?thesis
        using assms(3,4) b True C l c' rem
        by (simp add: complete_provider_io_def spdk_bdev_io_complete_def after_completion_def Let_def)
    next
      case C: False
      with c True have c': "ok = True" "m = pmem w" by auto
      show ?thesis
        using assms(3,4) b True C l c' rem
        by (auto simp: complete_provider_io_def spdk_bdev_io_complete_def after_completion_def Let_def)
    qed
  next
    case False
    with c have c': "ok = True" "m = pmem w" by auto
    show ?thesis
      using assms(3,4) b False c' keep
      by (simp add: complete_provider_io_def spdk_bdev_io_complete_def after_completion_def Let_def)
  qed
  show ?thesis
    by (rule exI [of _ ?st], rule exI [of _ m], rule exI, rule conjI [OF run]) (simp add: completes_def)
qed


text \<open>The contexts of \<open>ns\<close> are outstanding and were submitted on their threads.\<close>

definition ready :: "(nat \<Rightarrow> thread option) \<Rightarrow> 'x pio_world_scheme \<Rightarrow> nat set \<Rightarrow> bool" where
  "ready home w A \<longleftrightarrow> distinct (live w) \<and> (\<forall>n \<in> A. io_wf w n) \<and> homes home (ios w) A"

lemma ready_subset: "ready home w A \<Longrightarrow> B \<subseteq> A \<Longrightarrow> ready home w B"
  by (auto simp: ready_def homes_def)

lemma ready_after_completion:
  "ready home w A \<Longrightarrow> A \<inter> fst ` set es = {} \<Longrightarrow> ready home (after_completion es m l self w) A"
  by (auto simp: ready_def homes_def restrict_map_def intro!: io_wf_after_completion)

definition completed_as :: "'x pio_world_scheme \<Rightarrow> (nat \<times> bdev_io_status) list \<Rightarrow> bool" where
  "completed_as w es \<longleftrightarrow> (\<forall>e \<in> set es. \<exists>io. ios w (fst e) = Some io \<and> completes io (snd e))"

lemma chain_after_completion:
  "set ns \<inter> fst ` set es = {} \<Longrightarrow> chain (ios (after_completion es m l self w)) p ns = chain (ios w) p ns"
  by (rule chain_cong) (auto simp: restrict_map_def)

lemma complete_chain_run:
  assumes "chain (ios w) p ns" and "distinct ns" and "ready home w (set ns)" and "\<forall>n \<in> set ns. home n = self"
    and "length ns \<le> fuel"
  shows "\<exists>es m l. run_state (complete_provider_io_batch fuel self p) w = ((), after_completion es m l self w) \<and>
    map fst es = ns \<and> completed_as w es"
  using assms
proof (induction ns arbitrary: w p fuel)
  case Nil
  then have "run_state (complete_provider_io_batch fuel self p) w = ((), after_completion [] (pmem w) (log w) self w)"
    by (cases fuel) (simp_all add: after_completion_none)
  then show ?case by (intro exI [of _ "[]"] exI) (auto simp: completed_as_def)
next
  case (Cons n ns)
  obtain io f where io: "ios w n = Some io" "p = Some n" "chain (ios w) (io_next_complete io) ns" "fuel = Suc f"
    using Cons.prems(1,5) by (cases fuel) auto
  have self: "io_submit_thread io = self" "io_wf w n" "distinct (live w)"
    using Cons.prems(3,4) io by (auto simp: ready_def homes_def)
  obtain st m l where one: "run_state (complete_provider_io self n) w = ((), after_completion [(n, st)] m l self w)"
      "completes io st"
    using complete_provider_io_run [OF self(2,3) io(1) self(1)] by blast
  let ?w = "after_completion [(n, st)] m l self w"
  have n: "n \<notin> set ns" using Cons.prems(2) by simp
  have ready: "ready home ?w (set ns)"
    using n by (intro ready_after_completion ready_subset [OF Cons.prems(3)]) auto
  have chain: "chain (ios ?w) (io_next_complete io) ns"
    using n io(3) by (subst chain_after_completion) simp_all
  obtain es m' l' where rest: "run_state (complete_provider_io_batch f self (io_next_complete io)) ?w =
      ((), after_completion es m' l' self ?w)" "map fst es = ns" "completed_as ?w es"
    using Cons.IH [OF chain _ ready, of f] Cons.prems io(4) by auto
  have "completed_as w ((n, st) # es)"
    using rest(3) one(2) io(1) by (auto simp: completed_as_def restrict_map_def split: if_splits)
  moreover have "run_state (complete_provider_io_batch fuel self p) w = ((), after_completion ((n, st) # es) m' l' self w)"
    using io one(1) rest(1) by (simp add: after_completion_twice)
  ultimately show ?case
    using rest(2) by (intro exI [of _ "(n, st) # es"] exI [of _ m'] exI [of _ l']) simp
qed

subsection \<open>Dispatching the groups\<close>

definition group_messages :: "(nat \<Rightarrow> thread option) \<Rightarrow> thread option \<Rightarrow> nat list list \<Rightarrow> (thread option \<times> msg) list" where
  "group_messages home self gs =
     map (\<lambda>g. (home (hd g), Complete_provider_io_batch (hd g))) (filter (\<lambda>g. home (hd g) \<noteq> self) gs)"

definition own_group :: "(nat \<Rightarrow> thread option) \<Rightarrow> thread option \<Rightarrow> nat list list \<Rightarrow> nat list" where
  "own_group home self gs = concat (filter (\<lambda>g. home (hd g) = self) gs)"

lemma own_group_run:
  assumes "chain (ios w) p g" and "distinct g" and "set g \<inter> set (concat gs) = {}" and "ready home w (set (concat (g # gs)))"
    and "\<forall>x \<in> set g. home x = self" and "length g \<le> limit" and "groups_rep (ios w) q gs"
  shows "\<exists>es m l. run_state (complete_provider_io_batch limit self p) w = ((), after_completion es m l self w) \<and>
    map fst es = g \<and> completed_as w es \<and>
    ready home (after_completion es m l self w) (set (concat gs)) \<and> groups_rep (ios (after_completion es m l self w)) q gs"
proof -
  have "ready home w (set g)" using assms(4) by (rule ready_subset) auto
  with complete_chain_run [OF assms(1,2) this, of self limit] assms(5,6)
  obtain es m l where one: "run_state (complete_provider_io_batch limit self p) w = ((), after_completion es m l self w)"
      "map fst es = g" "completed_as w es" by auto
  let ?w = "after_completion es m l self w"
  have fst: "fst ` set es = set g" using one(2) by (metis list.set_map)
  have "ready home ?w (set (concat gs))"
    using assms(3) by (intro ready_after_completion ready_subset [OF assms(4)]) (auto simp: fst)
  moreover have "groups_rep (ios ?w) q gs"
    using assms(3,7) by (subst groups_rep_cong [of gs _ "ios w"]) (auto simp: fst restrict_map_def)
  ultimately show ?thesis using one by blast
qed

lemma dispatch_groups_run:
  assumes "groups_rep (ios w) p gs" and "groups_ok home gs" and "ready home w (set (concat gs))"
    and "sends_accepted env" and "length gs \<le> fuel" and "length (concat gs) \<le> limit"
  shows "\<exists>es m l. run_state (dispatch_groups env limit fuel self p) w =
      ((), (after_completion es m l self w)\<lparr>mailbox := mailbox w @ group_messages home self gs\<rparr>) \<and>
    map fst es = own_group home self gs \<and> completed_as w es"
  using assms
proof (induction gs arbitrary: w p fuel)
  case Nil
  then have "run_state (dispatch_groups env limit fuel self p) w =
      ((), (after_completion [] (pmem w) (log w) self w)\<lparr>mailbox := mailbox w @ group_messages home self []\<rparr>)"
    by (cases fuel) (simp_all add: after_completion_none group_messages_def)
  then show ?case
    by (intro exI [of _ "[]"] exI) (auto simp: completed_as_def own_group_def)
next
  case (Cons g gs)
  obtain n ns io f where g: "g = n # ns" "p = Some n" "ios w n = Some io" "chain (ios w) p g"
      "groups_rep (ios w) (io_next_complete_group io) gs" "fuel = Suc f"
    using Cons.prems(1,5) by (cases fuel) auto
  have disj: "distinct g" "set g \<inter> set (concat gs) = {}" and ok: "groups_ok home gs"
    using Cons.prems(2) by (auto simp: groups_ok_def)
  have same: "\<forall>x \<in> set g. home x = home n" and io: "io_submit_thread io = home n"
    using Cons.prems(2,3) g by (auto simp: groups_ok_def ready_def homes_def)
  show ?case
  proof (cases "home n = self")
    case True
    have "\<forall>x \<in> set g. home x = self" "length g \<le> limit" using same True Cons.prems(6) by auto
    from own_group_run [OF g(4) disj Cons.prems(3) this g(5)] obtain es1 m1 l1 where
      one: "run_state (complete_provider_io_batch limit self p) w = ((), after_completion es1 m1 l1 self w)"
        "map fst es1 = g" "completed_as w es1" and
      w1: "ready home (after_completion es1 m1 l1 self w) (set (concat gs))"
        "groups_rep (ios (after_completion es1 m1 l1 self w)) (io_next_complete_group io) gs"
      by blast
    let ?w = "after_completion es1 m1 l1 self w"
    obtain es m l where rest: "run_state (dispatch_groups env limit f self (io_next_complete_group io)) ?w =
        ((), (after_completion es m l self ?w)\<lparr>mailbox := mailbox w @ group_messages home self gs\<rparr>)"
        "map fst es = own_group home self gs" "completed_as ?w es"
      using Cons.IH [OF w1(2) ok w1(1) Cons.prems(4), of f] Cons.prems(5,6) g(6) by auto
    have "completed_as w (es1 @ es)"
      using rest(3) one(3) by (auto simp: completed_as_def restrict_map_def split: if_splits)
    moreover have "run_state (dispatch_groups env limit fuel self p) w =
        ((), (after_completion (es1 @ es) m l self w)\<lparr>mailbox := mailbox w @ group_messages home self (g # gs)\<rparr>)"
      using g one(1) rest(1) io True by (simp add: after_completion_twice group_messages_def)
    ultimately show ?thesis
      using rest(2) one(2) g(1) True by (intro exI [of _ "es1 @ es"] exI [of _ m] exI [of _ l]) (simp add: own_group_def)
  next
    case False
    define w1 where "w1 = w\<lparr>log := log w @ [Spdk_thread_send_msg (home n) (Complete_provider_io_batch n)],
      mailbox := mailbox w @ [(home n, Complete_provider_io_batch n)]\<rparr>"
    have ready: "ready home w1 (set (concat gs))"
      using ready_subset [OF Cons.prems(3), of "set (concat gs)"] by (auto simp: w1_def ready_def homes_def io_wf_def)
    have rep: "groups_rep (ios w1) (io_next_complete_group io) gs"
      using g(5) by (simp add: w1_def)
    obtain es m l where rest: "run_state (dispatch_groups env limit f self (io_next_complete_group io)) w1 =
        ((), (after_completion es m l self w1)\<lparr>mailbox := mailbox w1 @ group_messages home self gs\<rparr>)"
        "map fst es = own_group home self gs" "completed_as w1 es"
      using Cons.IH [OF rep ok ready Cons.prems(4), of f] Cons.prems(5,6) g(6) by auto
    have "run_state (dispatch_groups env limit fuel self p) w =
        run_state (dispatch_groups env limit f self (io_next_complete_group io)) w1"
      using g(2,3,6) io False Cons.prems(4) by (simp add: w1_def sends_accepted_def Let_def)
    also have "\<dots> = ((), (after_completion es m l self w)\<lparr>mailbox := mailbox w @ group_messages home self (g # gs)\<rparr>)"
      using rest(1) g(1) False by (simp add: w1_def after_completion_def group_messages_def)
    finally show ?thesis
      using rest(2,3) g(1) False
      by (intro exI [of _ es] exI [of _ m] exI [of _ l]) (simp add: own_group_def completed_as_def w1_def)
  qed
qed

lemma groups_rep_ConsD: "groups_rep s p (h # gs) \<Longrightarrow>
  \<exists>n ns io. h = n # ns \<and> p = Some n \<and> s n = Some io \<and> chain s p h \<and> groups_rep s (io_next_complete_group io) gs"
  by (simp del: chain.simps)
lemma groups_rep_chain: "groups_rep s p gs \<Longrightarrow> g \<in> set gs \<Longrightarrow> chain s (Some (hd g)) g"
proof (induction gs arbitrary: p)
  case (Cons h gs)
  obtain n ns io where "h = n # ns" "p = Some n" "s n = Some io" "chain s p h" "groups_rep s (io_next_complete_group io) gs"
    using groups_rep_ConsD [OF Cons.prems(1)] by blast
  then show ?case
  proof (cases "g = h")
    case True
    then show ?thesis using \<open>chain s p h\<close> \<open>p = Some n\<close> \<open>h = n # ns\<close> by (simp only: list.sel)
  next
    case False
    then have "g \<in> set gs" using Cons.prems(2) by simp
    with \<open>groups_rep s (io_next_complete_group io) gs\<close> show ?thesis by (rule Cons.IH)
  qed
qed simp

lemma length_le_concat: "[] \<notin> set gs \<Longrightarrow> length gs \<le> length (concat gs)"
proof (induction gs)
  case (Cons g gs)
  then show ?case by (cases g) auto
qed simp

definition batched ::
    "(nat \<Rightarrow> thread option) \<Rightarrow> thread option \<Rightarrow> provider_completion list \<Rightarrow> nat list list \<Rightarrow>
     (nat \<times> bdev_io_status) list \<Rightarrow> 'x pio_world_scheme \<Rightarrow> 'x pio_world_scheme \<Rightarrow> bool" where
  "batched home self cs gs es w w' \<longleftrightarrow>
     groups_ok home gs \<and> mset (concat gs) = mset (map fst (contexts cs)) \<and> map fst es = own_group home self gs \<and>
     (\<exists>s m l. w' = (after_completion es m l self (w\<lparr>ios := s\<rparr>))\<lparr>mailbox := mailbox w @ group_messages home self gs\<rparr> \<and>
        completed_as (w\<lparr>ios := s\<rparr>) es \<and> regrouped (contexts cs) (ios w) s \<and>
        (\<forall>g \<in> set gs. chain s (Some (hd g)) g) \<and> (\<forall>n. n \<notin> fst ` set (contexts cs) \<longrightarrow> s n = ios w n))"

lemma regrouped_ready:
  assumes "regrouped cs (ios w) s" and "ready home w A"
  shows "ready home (w\<lparr>ios := s\<rparr>) A"
proof -
  have "io_wf (w\<lparr>ios := s\<rparr>) n" if "n \<in> A" for n
  proof -
    have "io_wf w n" using assms(2) that by (simp add: ready_def)
    then obtain io b where w: "ios w n = Some io" "bdev_ios w n = Some b" "io_bdev_io io = n"
        "io_owns_buffer io \<longleftrightarrow> Provider_buffer n \<in> set (live w)"
      unfolding io_wf_def by blast
    obtain io' where "s n = Some io'" "io_bdev_io io' = io_bdev_io io" "io_owns_buffer io' = io_owns_buffer io"
      by (rule regroupedD [OF assms(1) w(1)])
    with w show ?thesis by (simp add: io_wf_def)
  qed
  moreover have "homes home s A" "distinct (live w)"
    using assms(2) regrouped_homes [OF assms(1), of home A] by (simp_all add: ready_def)
  ultimately show ?thesis by (simp add: ready_def)
qed

lemma complete_batch_run:
  assumes "\<forall>c \<in> set cs. pc_context c \<noteq> None" and "distinct (map fst (contexts cs))"
    and "ready home w (fst ` set (contexts cs))" and "sends_accepted env" and "length cs < fuel"
  shows "\<exists>es w'. run_state (zettide_spdk_bdev_provider_complete_batch env fuel self cs) w = ((), w') \<and>
    batched home self cs (group_all home (map fst (contexts cs)) []) es w w'"
proof -
  let ?ns = "map fst (contexts cs)" and ?gs = "group_all home (map fst (contexts cs)) []"
  have ok: "groups_ok home ?gs" "mset (concat ?gs) = mset ?ns"
    using group_all_ok [of home "[]" ?ns] assms(2) by (simp_all add: groups_ok_def)
  have set: "set (concat ?gs) = fst ` set (contexts cs)"
    using arg_cong [OF ok(2), of set_mset] by simp
  have len: "length (concat ?gs) = length cs"
    using arg_cong [OF ok(2), of size] by (simp add: contexts_def)
  have "length ?gs \<le> length (concat ?gs)"
    using ok(1) by (intro length_le_concat) (simp add: groups_ok_def)
  have "homes home (ios w) (set ?ns \<union> set (concat []))" "groups_ok home []"
    using assms(3) by (simp_all add: ready_def groups_ok_def)
  from group_completions_run [OF _ this(2) refl this(1) assms(2) _ _ assms(1), of None fuel] assms(5)
  obtain s p where s: "run_state (group_completions fuel None cs) w = (p, w\<lparr>ios := s\<rparr>)"
      "groups_rep s p ?gs" "regrouped (contexts cs) (ios w) s" "\<forall>n. n \<notin> fst ` set (contexts cs) \<longrightarrow> s n = ios w n"
    by auto
  have "ready home (w\<lparr>ios := s\<rparr>) (set (concat ?gs))"
    using regrouped_ready [OF s(3) assms(3)] set by simp
  from dispatch_groups_run [OF _ ok(1) this assms(4), of p fuel fuel self] s(2) len assms(5) \<open>length ?gs \<le> length (concat ?gs)\<close>
  obtain es m l where d: "run_state (dispatch_groups env fuel fuel self p) (w\<lparr>ios := s\<rparr>) =
        ((), (after_completion es m l self (w\<lparr>ios := s\<rparr>))\<lparr>mailbox := mailbox w @ group_messages home self ?gs\<rparr>)"
      "map fst es = own_group home self ?gs" "completed_as (w\<lparr>ios := s\<rparr>) es"
    by auto
  have "batched home self cs ?gs es w
      ((after_completion es m l self (w\<lparr>ios := s\<rparr>))\<lparr>mailbox := mailbox w @ group_messages home self ?gs\<rparr>)"
    unfolding batched_def using ok d(2,3) s(3,4) groups_rep_chain [OF s(2)] by blast
  then show ?thesis
    using s(1) d(1) by (intro exI conjI) (simp_all add: zettide_spdk_bdev_provider_complete_batch_def)
qed

lemma own_group_disjoint:
  assumes "groups_ok home gs" and "g \<in> set gs" and "home (hd g) \<noteq> self"
  shows "set g \<inter> set (own_group home self gs) = {}"
proof -
  have "home x = home (hd g)" if "x \<in> set g" for x
    using assms(1,2) that by (simp add: groups_ok_def)
  moreover have "home x = self" if "x \<in> set (own_group home self gs)" for x
    using assms(1) that by (auto simp: groups_ok_def own_group_def)
  ultimately show ?thesis using assms(3) by fastforce
qed

text \<open>A group that was sent off is a chain in the final world.\<close>

lemma batched_chain:
  assumes "batched home self cs gs es w w'" and "g \<in> set gs" and "home (hd g) \<noteq> self"
  shows "chain (ios w') (Some (hd g)) g"
proof -
  obtain s m l where s: "w' = (after_completion es m l self (w\<lparr>ios := s\<rparr>))\<lparr>mailbox := mailbox w @ group_messages home self gs\<rparr>"
      "\<forall>g \<in> set gs. chain s (Some (hd g)) g" and ok: "groups_ok home gs" and es: "map fst es = own_group home self gs"
    using assms(1) unfolding batched_def by blast
  have "set g \<inter> fst ` set es = {}"
    using own_group_disjoint [OF ok assms(2,3)] es by (metis list.set_map)
  then have "chain (ios w') (Some (hd g)) g = chain s (Some (hd g)) g"
    by (intro chain_cong) (auto simp: s(1) restrict_map_def)
  then show ?thesis using s(2) assms(2) by simp
qed

text \<open>
  C8: Completing a batch.  The linked lists built through the contexts are the groups of the
  completions by submitting thread: every context is in exactly one group and every group has its own
  thread.  The group of the calling thread is completed at once, on that thread; for every other
  thread exactly one message is sent, and the list that starts at the context it carries is its group.
  No context is used after it was completed, and the loops end.
\<close>

theorem complete_batch_groups:
  assumes "\<forall>c \<in> set cs. pc_context c \<noteq> None" and "distinct (map fst (contexts cs))"
    and "ready home w (fst ` set (contexts cs))" and "sends_accepted env" and "length cs < fuel"
  shows "\<exists>gs w' new. run_state (zettide_spdk_bdev_provider_complete_batch env fuel self cs) w = ((), w') \<and>
    aborted w' = aborted w \<and> mset (concat gs) = mset (map fst (contexts cs)) \<and>
    [] \<notin> set gs \<and> distinct (map (home \<circ> hd) gs) \<and> (\<forall>g \<in> set gs. \<forall>n \<in> set g. home n = home (hd g)) \<and>
    completed_ios w' = completed_ios w @ new \<and> map fst new = concat (filter (\<lambda>g. home (hd g) = self) gs) \<and>
    (\<forall>e \<in> set new. snd (snd e) = self) \<and>
    mailbox w' = mailbox w @
      map (\<lambda>g. (home (hd g), Complete_provider_io_batch (hd g))) (filter (\<lambda>g. home (hd g) \<noteq> self) gs) \<and>
    (\<forall>g \<in> set gs. home (hd g) \<noteq> self \<longrightarrow> chain (ios w') (Some (hd g)) g)"
proof -
  let ?gs = "group_all home (map fst (contexts cs)) []"
  obtain es w' where b: "run_state (zettide_spdk_bdev_provider_complete_batch env fuel self cs) w = ((), w')"
      "batched home self cs ?gs es w w'"
    using complete_batch_run [OF assms] by blast
  obtain s m l where s: "w' = (after_completion es m l self (w\<lparr>ios := s\<rparr>))\<lparr>mailbox := mailbox w @ group_messages home self ?gs\<rparr>"
      and ok: "groups_ok home ?gs" "mset (concat ?gs) = mset (map fst (contexts cs))" and es: "map fst es = own_group home self ?gs"
    using b(2) unfolding batched_def by blast
  have "aborted w' = aborted w" "completed_ios w' = completed_ios w @ map (\<lambda>e. (fst e, snd e, self)) es"
    "mailbox w' = mailbox w @ group_messages home self ?gs"
    by (simp_all add: s)
  moreover have "map fst (map (\<lambda>e. (fst e, snd e, self)) es) = concat (filter (\<lambda>g. home (hd g) = self) ?gs)"
    using es by (simp add: own_group_def comp_def)
  moreover have "\<forall>e \<in> set (map (\<lambda>e. (fst e, snd e, self)) es). snd (snd e) = self" by simp
  ultimately show ?thesis
    using b(1) batched_chain [OF b(2)] ok unfolding groups_ok_def group_messages_def
    by (intro exI conjI ballI impI; (assumption | blast))
qed

end
