(* ===== verification/Provider_IO_Life.thy ===== *)
theory Provider_IO_Life
  imports Provider_Batch
begin

text \<open>
  The life of an I/O of a bdev provider: what a submission can lead to, and the transition system of
  submissions, buffer callbacks, batches of backend completions and messages between threads, with the
  ledger that accounts for every I/O until it has completed.
\<close>

subsection \<open>Submitting an I/O\<close>

text \<open>What stays the same of a world when one I/O is worked on.\<close>

definition others_same :: "nat \<Rightarrow> 'x pio_world_scheme \<Rightarrow> 'x pio_world_scheme \<Rightarrow> bool" where
  "others_same n w w' \<longleftrightarrow> aborted w' = aborted w \<and> mailbox w' = mailbox w \<and> get_buf_ios w' = get_buf_ios w \<and>
     pv w' = pv w \<and> pio_world.more w' = pio_world.more w \<and> distinct (live w') \<and>
     (\<forall>k. k \<noteq> n \<longrightarrow> ios w' k = ios w k \<and> bdev_ios w' k = bdev_ios w k \<and>
        (Provider_buffer k \<in> set (live w') \<longleftrightarrow> Provider_buffer k \<in> set (live w)))"

text \<open>
  The outcome of a submission: the I/O is completed at once, unsuccessfully and with its buffer given
  back, or the backend has it.
\<close>

definition submit_outcome :: "nat \<Rightarrow> thread option \<Rightarrow> 'x pio_world_scheme \<Rightarrow> 'x pio_world_scheme \<Rightarrow> bool" where
  "submit_outcome n self w w' \<longleftrightarrow> others_same n w w' \<and>
     (if bdev_ios w' n = None
      then backend_ios w' = backend_ios w \<and> ios w' n = None \<and> Provider_buffer n \<notin> set (live w') \<and>
        (\<exists>st. completed_ios w' = completed_ios w @ [(n, st, self)] \<and> st \<noteq> IO_STATUS_SUCCESS)
      else backend_ios w' = n # backend_ios w \<and> completed_ios w' = completed_ios w \<and> io_wf w' n \<and>
        (\<exists>io. ios w' n = Some io \<and> io_submit_thread io = self))"

lemma submit_outcome_trans:
  assumes "others_same n w w1" and "backend_ios w1 = backend_ios w" and "completed_ios w1 = completed_ios w"
    and "submit_outcome n self w1 w'"
  shows "submit_outcome n self w w'"
  using assms by (auto simp: submit_outcome_def others_same_def)

lemma complete_now:
  assumes "bdev_ios w n = Some b" and "distinct (live w)" and "Provider_buffer n \<notin> set (live w)" and "st \<noteq> IO_STATUS_SUCCESS"
  shows "submit_outcome n self w (final (spdk_bdev_io_complete self n st) w)"
  using assms by (simp add: spdk_bdev_io_complete_def submit_outcome_def others_same_def)

text \<open>A refusal of the backend completes the I/O.\<close>

lemma submit_to_backend_accepted:
  assumes "ios w n = Some io" and "env (log w) (Backend_submit operation offset (io_buffer io) len n) = 0"
  shows "final (submit_to_backend env fuel self n operation offset len) w =
    w\<lparr>log := log w @ [Backend_submit operation offset (io_buffer io) len n], backend_ios := n # backend_ios w\<rparr>"
  using assms by (simp add: submit_to_backend_def)

lemma submit_to_backend_refused:
  assumes "ready (\<lambda>_. self) w {n}" and "sends_accepted env" and "1 < fuel"
    and "ios w n = Some io" and "env (log w) (Backend_submit operation offset (io_buffer io) len n) \<noteq> 0"
    and "w' = final (submit_to_backend env fuel self n operation offset len) w"
  shows "submit_outcome n self w w' \<and> bdev_ios w' n = None"
proof -
  let ?c = "Backend_submit operation offset (io_buffer io) len n"
  let ?w = "w\<lparr>log := log w @ [?c]\<rparr>"
  define st where "st = env (log w) ?c"
  let ?cs = "[\<lparr>pc_context = Some n, pc_status = st\<rparr>]"
  have "ready (\<lambda>_. self) ?w (fst ` set (contexts ?cs))"
    using assms(1) by (simp add: contexts_def ready_def io_wf_def)
  from complete_batch_run [OF _ _ this assms(2), of fuel self] assms(3)
  obtain es v where b: "run_state (zettide_spdk_bdev_provider_complete_batch env fuel self ?cs) ?w = ((), v)"
      "batched (\<lambda>_. self) self ?cs [[n]] es ?w v"
    by (auto simp: contexts_def group_by_thread_def)
  obtain s m l where s: "v = (after_completion es m l self (?w\<lparr>ios := s\<rparr>))\<lparr>mailbox := mailbox w\<rparr>"
      "completed_as (?w\<lparr>ios := s\<rparr>) es" "regrouped [(n, st)] (ios w) s" "\<forall>k. k \<noteq> n \<longrightarrow> s k = ios w k" "map fst es = [n]"
    using b(2) by (auto simp: batched_def group_messages_def own_group_def contexts_def)
  obtain e where e: "es = [(n, e)]" using s(5) by (cases es) auto
  obtain io' where io': "s n = Some io'" "io_status io' = st"
    by (rule regroupedD [OF s(3) assms(4)]) simp
  have "e \<noteq> IO_STATUS_SUCCESS"
    using s(2) e io' assms(5) by (auto simp: completed_as_def completes_def st_def)
  moreover have "w' = v"
    using assms(4-6) b(1) by (simp add: submit_to_backend_def provider_backend_complete_def st_def)
  ultimately show ?thesis
    using s(4) e assms(1) by (auto simp: s(1) submit_outcome_def others_same_def ready_def)
qed

lemma submit_to_backend_run:
  assumes "ready (\<lambda>_. self) w {n}" and "sends_accepted env" and "1 < fuel"
  shows "submit_outcome n self w (final (submit_to_backend env fuel self n operation offset len) w)"
proof -
  obtain io b where io: "ios w n = Some io" "bdev_ios w n = Some b" "io_submit_thread io = self"
    using assms(1) unfolding ready_def homes_def io_wf_def by auto
  show ?thesis
  proof (cases "env (log w) (Backend_submit operation offset (io_buffer io) len n) = 0")
    case True
    have "io_wf w n" "distinct (live w)" using assms(1) by (simp_all add: ready_def)
    with True io show ?thesis
      by (simp add: submit_to_backend_accepted submit_outcome_def others_same_def io_wf_def)
  next
    case False
    with submit_to_backend_refused [OF assms io(1) False refl] show ?thesis by blast
  qed
qed

definition with_buffer :: "nat \<Rightarrow> provider_io \<Rightarrow> u64 \<Rightarrow> bool \<Rightarrow> call list \<Rightarrow> 'x pio_world_scheme \<Rightarrow> 'x pio_world_scheme" where
  "with_buffer n io a owns l w = w\<lparr>log := l, live := (if owns then Provider_buffer n # live w else live w),
     ios := (ios w)(n \<mapsto> io\<lparr>io_buffer := a, io_owns_buffer := owns\<rparr>)\<rparr>"

lemma provider_buffer_run:
  assumes "ios w n = Some io" and "\<not> io_owns_buffer io"
  shows "\<exists>ok a owns l. run_state (provider_buffer env n b len operation) w = (ok, with_buffer n io a owns l w) \<and> (owns \<longrightarrow> ok) \<and>
    (owns \<longrightarrow> a = word_of_int (env (log w) (Malloc_size (Provider_buffer n) len)) \<and> a \<noteq> 0) \<and>
    (operation = PROVIDER_WRITE \<and> ok \<and> \<not> owns \<longrightarrow> a = single_iov_buffer b len \<and> a \<noteq> 0)"
proof -
  have keep: "io\<lparr>io_buffer := a, io_owns_buffer := False\<rparr> = io\<lparr>io_buffer := a\<rparr>" for a
    using assms(2) by (cases io) simp
  let ?c = "Malloc_size (Provider_buffer n) len"
  let ?a = "word_of_int (env (log w) ?c) :: u64"
  consider (other) "\<not> (operation = PROVIDER_READ \<or> operation = PROVIDER_WRITE)"
    | (io) "operation = PROVIDER_READ \<or> operation = PROVIDER_WRITE" by blast
  then show ?thesis
  proof cases
    case other
    then have "operation \<noteq> PROVIDER_WRITE" by blast
    have "with_buffer n io (io_buffer io) False (log w) w = w"
      using assms keep [of "io_buffer io"] by (simp add: with_buffer_def fun_upd_idem)
    with other \<open>operation \<noteq> PROVIDER_WRITE\<close> show ?thesis
      by (intro exI [of _ True] exI [of _ "io_buffer io"] exI [of _ False] exI [of _ "log w"]) (simp add: provider_buffer_def)
  next
    case io
    consider "single_iov_buffer b len \<noteq> 0" | "single_iov_buffer b len = 0" "?a = 0" | "single_iov_buffer b len = 0" "?a \<noteq> 0" by blast
    then show ?thesis
    proof cases
      case 1
      then have "run_state (provider_buffer env n b len operation) w = (True, with_buffer n io (single_iov_buffer b len) False (log w) w)"
        using assms(1) io by (simp add: provider_buffer_def with_buffer_def keep)
      with 1 show ?thesis by blast
    next
      case 2
      then have "run_state (provider_buffer env n b len operation) w = (False, with_buffer n io 0 False (log w @ [?c]) w)"
        using assms(1) io by (simp add: provider_buffer_def provider_malloc_def with_buffer_def keep Let_def)
      with 2 show ?thesis by blast
    next
      case 3
      then have "run_state (provider_buffer env n b len operation) w = (True, with_buffer n io ?a True (log w @ [?c]) w)"
        using assms(1) io by (simp add: provider_buffer_def provider_malloc_def with_buffer_def Let_def)
      with 3 show ?thesis by blast
    qed
  qed
qed

lemma with_buffer_simps [simp]:
  "aborted (with_buffer n io a owns l w) = aborted w" "mailbox (with_buffer n io a owns l w) = mailbox w"
  "live (with_buffer n io a owns l w) = (if owns then Provider_buffer n # live w else live w)"
  "ios (with_buffer n io a owns l w) = (ios w)(n \<mapsto> io\<lparr>io_buffer := a, io_owns_buffer := owns\<rparr>)"
  "bdev_ios (with_buffer n io a owns l w) = bdev_ios w" "pmem (with_buffer n io a owns l w) = pmem w"
  "completed_ios (with_buffer n io a owns l w) = completed_ios w" "backend_ios (with_buffer n io a owns l w) = backend_ios w"
  "get_buf_ios (with_buffer n io a owns l w) = get_buf_ios w" "pv (with_buffer n io a owns l w) = pv w"
  "pio_world.more (with_buffer n io a owns l w) = pio_world.more w"
  by (simp_all add: with_buffer_def)

lemma submit_filled_run:
  assumes "ios w n = Some io" and "bdev_ios w n = Some b" and "io_bdev_io io = n" and "io_submit_thread io = self"
    and "distinct (live w)" and "io_owns_buffer io \<longleftrightarrow> Provider_buffer n \<in> set (live w)"
    and "sends_accepted env" and "1 < fuel"
  shows "submit_outcome n self w (final (submit_filled env fuel self n b operation offset len) w)"
proof -
  have ready: "ready (\<lambda>_. self) (w\<lparr>pmem := m\<rparr>) {n}" for m
    using assms by (simp add: ready_def homes_def io_wf_def)
  show ?thesis
  proof (cases "operation = PROVIDER_WRITE \<and> io_owns_buffer io")
    case True
    obtain ok m where r: "copy_from_iovs (io_buffer io) len (bio_iovs b) (pmem w) = (ok, m)" by fastforce
    let ?w = "w\<lparr>pmem := m\<rparr>"
    have same: "others_same n w ?w" "backend_ios ?w = backend_ios w" "completed_ios ?w = completed_ios w"
      using assms(5) by (simp_all add: others_same_def)
    show ?thesis
    proof (cases ok)
      case ok: True
      then have "final (submit_filled env fuel self n b operation offset len) w =
          final (submit_to_backend env fuel self n operation offset len) ?w"
        using True assms(1) r by (simp add: submit_filled_def Let_def)
      then show ?thesis
        using submit_outcome_trans [OF same submit_to_backend_run [OF ready assms(7,8)]] by simp
    next
      case bad: False
      let ?w2 = "?w\<lparr>log := log w @ [Free (Provider_buffer n)], live := remove1 (Provider_buffer n) (live w)\<rparr>"
      have "final (submit_filled env fuel self n b operation offset len) w =
          final (spdk_bdev_io_complete self n IO_STATUS_FAILED) ?w2"
        using True assms(1,6) r bad by (simp add: submit_filled_def Let_def)
      moreover have "others_same n w ?w2" "backend_ios ?w2 = backend_ios w" "completed_ios ?w2 = completed_ios w"
        using assms(5) by (simp_all add: others_same_def)
      moreover have "submit_outcome n self ?w2 (final (spdk_bdev_io_complete self n IO_STATUS_FAILED) ?w2)"
        using assms(2,5) by (intro complete_now [where b = b]) simp_all
      ultimately show ?thesis by (metis submit_outcome_trans)
    qed
  next
    case False
    then have "final (submit_filled env fuel self n b operation offset len) w =
        final (submit_to_backend env fuel self n operation offset len) w"
      using assms(1) by (auto simp: submit_filled_def)
    then show ?thesis
      using submit_to_backend_run [OF ready [of "pmem w", simplified] assms(7,8)] by simp
  qed
qed

lemma submit_provider_io_run:
  assumes "bdev_ios w n = Some b" and "bio_thread b = self" and "distinct (live w)"
    and "Provider_buffer n \<notin> set (live w)" and "sends_accepted env" and "1 < fuel"
  shows "submit_outcome n self w (final (submit_provider_io env fuel self n operation) w)"
proof (cases "operation \<noteq> PROVIDER_RESET \<and> (bio_num_blocks b > UINT64_MAX div ucast (pv_blocklen (pv w)) \<or>
      bio_offset_blocks b > UINT64_MAX div ucast (pv_blocklen (pv w)))")
  case True
  then have "final (submit_provider_io env fuel self n operation) w = final (spdk_bdev_io_complete self n IO_STATUS_FAILED) w"
    using assms(1) by (simp add: submit_provider_io_def Let_def)
  then show ?thesis using complete_now [OF assms(1,3,4)] by simp
next
  case False
  define len where "len = (if operation \<noteq> PROVIDER_RESET then bio_num_blocks b * ucast (pv_blocklen (pv w)) else 0)"
  define offset where "offset = (if operation \<noteq> PROVIDER_RESET then bio_offset_blocks b * ucast (pv_blocklen (pv w)) else 0)"
  define io where "io = new_provider_io n b len operation"
  define w1 where "w1 = w\<lparr>ios := (ios w)(n \<mapsto> io)\<rparr>"
  have io: "\<not> io_owns_buffer io" "io_bdev_io io = n" "io_submit_thread io = self" "ios w1 n = Some io"
    using assms(2) by (simp_all add: io_def new_provider_io_def w1_def)
  obtain ok a owns l where buf: "run_state (provider_buffer env n b len operation) w1 = (ok, with_buffer n io a owns l w1)"
      "owns \<longrightarrow> ok"
    using provider_buffer_run [OF io(4,1)] by blast
  let ?w2 = "with_buffer n io a owns l w1"
  have run: "final (submit_provider_io env fuel self n operation) w =
      (if ok then final (submit_filled env fuel self n b operation offset len) ?w2
       else final (spdk_bdev_io_complete self n IO_STATUS_NOMEM) ?w2)"
    using False assms(1) buf(1)
    by (cases "operation = PROVIDER_RESET") (simp_all add: submit_provider_io_def Let_def io_def len_def offset_def w1_def)
  have same: "others_same n w ?w2" "backend_ios ?w2 = backend_ios w" "completed_ios ?w2 = completed_ios w"
    using assms(3,4) by (auto simp: others_same_def w1_def)
  show ?thesis
  proof (cases ok)
    case True
    have "submit_outcome n self ?w2 (final (submit_filled env fuel self n b operation offset len) ?w2)"
      using assms io by (intro submit_filled_run [where io = "io\<lparr>io_buffer := a, io_owns_buffer := owns\<rparr>"]) (simp_all add: w1_def)
    then show ?thesis using submit_outcome_trans [OF same] run True by simp
  next
    case bad: False
    then have "submit_outcome n self ?w2 (final (spdk_bdev_io_complete self n IO_STATUS_NOMEM) ?w2)"
      using assms buf(2) by (intro complete_now [where b = b]) (simp_all add: w1_def)
    then show ?thesis using submit_outcome_trans [OF same] run bad by simp
  qed
qed

subsection \<open>The provider as a transition system\<close>

text \<open>
  SPDK submits I/Os, each on its thread \<open>home n\<close>, and provides buffers for reads; the backend completes
  batches of what it accepted, from any thread, after writing to memory; and the threads take the
  messages sent to them, in any order.  \<open>submitted\<close> lists the I/Os in the order of their submission,
  \<open>reported\<close> the completions the backend has made.
\<close>

record pio_sys = pio_world +
  submitted_ios :: "nat list"
  reported :: "(nat \<times> int) list"

inductive pio_step :: "env \<Rightarrow> (nat \<Rightarrow> thread option) \<Rightarrow> pio_sys \<Rightarrow> pio_sys \<Rightarrow> bool" for env home where
  pio_submit: "n \<notin> set (submitted_ios s) \<Longrightarrow> bio_thread b = home n \<Longrightarrow> 1 < fuel \<Longrightarrow>
     pio_step env home s (final (provider_submit_request env fuel (home n) n)
       (s\<lparr>bdev_ios := (bdev_ios s)(n \<mapsto> b), submitted_ios := n # submitted_ios s\<rparr>))"
| pio_got_buf: "n \<in> set (get_buf_ios s) \<Longrightarrow> bio_thread b = home n \<Longrightarrow> 1 < fuel \<Longrightarrow>
     pio_step env home s (final (provider_read_get_buf env fuel (home n) n success)
       (s\<lparr>bdev_ios := (bdev_ios s)(n \<mapsto> b), get_buf_ios := remove1 n (get_buf_ios s)\<rparr>))"
| pio_complete: "\<forall>c \<in> set cs. pc_context c \<noteq> None \<Longrightarrow> distinct (map fst (contexts cs)) \<Longrightarrow>
     fst ` set (contexts cs) \<subseteq> set (backend_ios s) \<Longrightarrow> length cs < fuel \<Longrightarrow>
     pio_step env home s (final (zettide_spdk_bdev_provider_complete_batch env fuel self cs)
       (s\<lparr>pmem := m, backend_ios := filter (\<lambda>n. n \<notin> fst ` set (contexts cs)) (backend_ios s),
          reported := contexts cs @ reported s\<rparr>))"
| pio_deliver: "mailbox s = ms1 @ (t, Complete_provider_io_batch h) # ms2 \<Longrightarrow> length (submitted_ios s) < fuel \<Longrightarrow>
     pio_step env home s (final (complete_provider_io_batch fuel t (Some h)) (s\<lparr>mailbox := ms1 @ ms2\<rparr>))"

definition pio_initial :: "pio_sys \<Rightarrow> bool" where
  "pio_initial s \<longleftrightarrow> \<not> aborted s \<and> distinct (live s) \<and> (\<forall>n. Provider_buffer n \<notin> set (live s)) \<and> mailbox s = [] \<and>
     completed_ios s = [] \<and> backend_ios s = [] \<and> get_buf_ios s = [] \<and> submitted_ios s = [] \<and> reported s = []"

inductive pio_reachable :: "env \<Rightarrow> (nat \<Rightarrow> thread option) \<Rightarrow> pio_sys \<Rightarrow> bool" for env home where
  pio_start: "pio_initial s \<Longrightarrow> pio_reachable env home s"
| pio_next: "pio_reachable env home s \<Longrightarrow> pio_step env home s t \<Longrightarrow> pio_reachable env home t"

text \<open>
  The ledger: every message carries a chain of contexts of its thread, and every submitted I/O is
  completed, waiting for a buffer, with the backend, or in exactly one chain.
\<close>

definition carries :: "(nat \<Rightarrow> thread option) \<Rightarrow> (nat \<Rightarrow> provider_io option) \<Rightarrow> thread option \<times> msg \<Rightarrow> nat list \<Rightarrow> bool" where
  "carries home s m c \<longleftrightarrow> (\<exists>h. m = (home h, Complete_provider_io_batch h) \<and> chain s (Some h) c \<and> (\<forall>n \<in> set c. home n = home h))"

definition pio_ledger :: "(nat \<Rightarrow> thread option) \<Rightarrow> nat list \<Rightarrow> nat list list \<Rightarrow> pio_sys \<Rightarrow> bool" where
  "pio_ledger home xs css s \<longleftrightarrow> \<not> aborted s \<and> distinct (submitted_ios s) \<and>
     list_all2 (carries home (ios s)) (mailbox s) css \<and>
     mset (submitted_ios s) =
       mset (map fst (completed_ios s)) + mset (get_buf_ios s) + mset (backend_ios s) + mset (concat css) + mset xs \<and>
     ready home s (set (backend_ios s) \<union> set (concat css)) \<and>
     (\<forall>n \<in> set (get_buf_ios s). bdev_ios s n \<noteq> None) \<and>
     (\<forall>n. Provider_buffer n \<in> set (live s) \<longrightarrow> n \<in> set (backend_ios s) \<union> set (concat css) \<union> set xs) \<and>
     (\<forall>n \<in> set (concat css). \<exists>io. ios s n = Some io \<and> (n, io_status io) \<in> set (reported s)) \<and>
     (\<forall>e \<in> set (completed_ios s). snd (snd e) = home (fst e) \<and>
        (fst (snd e) = IO_STATUS_SUCCESS \<longrightarrow> (fst e, 0) \<in> set (reported s)))"

text \<open>\<open>xs\<close> lists I/Os that a step has in hand; between steps there are none.\<close>

definition pio_inv :: "(nat \<Rightarrow> thread option) \<Rightarrow> pio_sys \<Rightarrow> bool" where
  "pio_inv home s \<longleftrightarrow> (\<exists>css. pio_ledger home [] css s)"

lemma carries_cong:
  assumes "\<And>n. n \<in> set c \<Longrightarrow> s' n = s n"
  shows "carries home s' m c = carries home s m c"
proof -
  have "chain s' p c = chain s p c" for p using assms by (rule chain_cong)
  then show ?thesis by (simp add: carries_def)
qed

lemma all_carry_cong:
  assumes "\<And>n. n \<in> set (concat css) \<Longrightarrow> s' n = s n"
  shows "list_all2 (carries home s') ms css = list_all2 (carries home s) ms css"
  using assms
proof (induction css arbitrary: ms)
  case (Cons c css)
  have "carries home s' m c = carries home s m c" for m
    using Cons.prems by (intro carries_cong) simp
  moreover have "list_all2 (carries home s') ms css = list_all2 (carries home s) ms css" for ms
    using Cons.prems by (intro Cons.IH) simp
  ultimately show ?case by (cases ms) simp_all
qed simp

lemma pio_ledgerD:
  assumes "pio_ledger home xs css s"
  shows "\<not> aborted s" and "distinct (submitted_ios s)" and "list_all2 (carries home (ios s)) (mailbox s) css"
    and "mset (submitted_ios s) =
       mset (map fst (completed_ios s)) + mset (get_buf_ios s) + mset (backend_ios s) + mset (concat css) + mset xs"
    and "ready home s (set (backend_ios s) \<union> set (concat css))"
    and "n \<in> set (get_buf_ios s) \<Longrightarrow> bdev_ios s n \<noteq> None"
    and "Provider_buffer n \<in> set (live s) \<Longrightarrow> n \<in> set (backend_ios s) \<union> set (concat css) \<union> set xs"
    and "n \<in> set (concat css) \<Longrightarrow> \<exists>io. ios s n = Some io \<and> (n, io_status io) \<in> set (reported s)"
    and "e \<in> set (completed_ios s) \<Longrightarrow> snd (snd e) = home (fst e)"
    and "e \<in> set (completed_ios s) \<Longrightarrow> fst (snd e) = IO_STATUS_SUCCESS \<Longrightarrow> (fst e, 0) \<in> set (reported s)"
  using assms unfolding pio_ledger_def by blast+

lemma pio_ledger_disjoint:
  assumes "pio_ledger home xs css s"
  shows "distinct (map fst (completed_ios s) @ get_buf_ios s @ backend_ios s @ concat css @ xs)"
proof -
  have "mset (submitted_ios s) = mset (map fst (completed_ios s) @ get_buf_ios s @ backend_ios s @ concat css @ xs)"
    using assms by (simp add: pio_ledger_def)
  moreover have "distinct (submitted_ios s)" using assms by (simp add: pio_ledger_def)
  ultimately show ?thesis by (metis mset_eq_imp_distinct_iff)
qed

lemma io_wf_same:
  "ios w' n = ios w n \<Longrightarrow> bdev_ios w' n = bdev_ios w n \<Longrightarrow>
   (Provider_buffer n \<in> set (live w') \<longleftrightarrow> Provider_buffer n \<in> set (live w)) \<Longrightarrow> io_wf w' n = io_wf w n"
  by (simp add: io_wf_def)

lemma ready_same:
  assumes "ready home w A" and "n \<notin> A" and "others_same n w w'"
  shows "ready home w' A"
proof -
  have "io_wf w' k" "ios w' k = ios w k" if "k \<in> A" for k
  proof -
    have "k \<noteq> n" using that assms(2) by blast
    with assms(3) show "ios w' k = ios w k" by (simp add: others_same_def)
    show "io_wf w' k"
      using assms(1,3) that \<open>k \<noteq> n\<close> io_wf_same [of w' k w] by (simp add: ready_def others_same_def)
  qed
  with assms show ?thesis by (simp add: ready_def homes_def others_same_def)
qed

lemma pio_sys_more:
  "pio_world.more s = pio_world.more t \<Longrightarrow> submitted_ios s = submitted_ios t \<and> reported s = reported t"
  by (cases s; cases t) simp

text \<open>A submission settles the I/O in hand.\<close>

lemma ledger_submit:
  assumes inv: "pio_ledger home [n] css s" and out: "submit_outcome n (home n) s s'"
  shows "pio_ledger home [] css s'"
proof -
  note d = pio_ledger_disjoint [OF inv]
  have same: "others_same n s s'" using out by (simp add: submit_outcome_def)
  have more: "submitted_ios s' = submitted_ios s" "reported s' = reported s"
    using same pio_sys_more [of s' s] by (simp_all add: others_same_def)
  have eqs: "aborted s' = aborted s" "mailbox s' = mailbox s" "get_buf_ios s' = get_buf_ios s"
    using same by (simp_all add: others_same_def)
  have ios: "ios s' k = ios s k" "bdev_ios s' k = bdev_ios s k"
      "Provider_buffer k \<in> set (live s') \<longleftrightarrow> Provider_buffer k \<in> set (live s)" if "k \<noteq> n" for k
    using same that by (simp_all add: others_same_def)
  have n: "n \<notin> set (concat css)" "n \<notin> set (get_buf_ios s)" "n \<notin> set (backend_ios s) \<union> set (concat css)"
    using d by auto
  have carry: "list_all2 (carries home (ios s')) (mailbox s') css"
    using inv n(1) unfolding eqs pio_ledger_def by (subst all_carry_cong [of css _ "ios s"]) (auto intro!: ios)
  have ready: "ready home s' (set (backend_ios s) \<union> set (concat css))"
    by (rule ready_same [OF pio_ledgerD(5) [OF inv] n(3) same])
  have status: "\<forall>k \<in> set (concat css). \<exists>io. ios s' k = Some io \<and> (k, io_status io) \<in> set (reported s')"
  proof
    fix k assume k: "k \<in> set (concat css)"
    then have "k \<noteq> n" using n(1) by blast
    with pio_ledgerD(8) [OF inv k] ios(1) [of k] show "\<exists>io. ios s' k = Some io \<and> (k, io_status io) \<in> set (reported s')"
      by (simp add: more)
  qed
  show ?thesis
  proof (cases "bdev_ios s' n = None")
    case True
    then obtain st where "backend_ios s' = backend_ios s" "Provider_buffer n \<notin> set (live s')"
        "completed_ios s' = completed_ios s @ [(n, st, home n)]" "st \<noteq> IO_STATUS_SUCCESS"
      using out by (auto simp: submit_outcome_def)
    note u = this
    have "Provider_buffer k \<in> set (live s') \<Longrightarrow> k \<in> set (backend_ios s) \<union> set (concat css)" for k
      using u(2) ios(3) [of k] pio_ledgerD(7) [OF inv, of k] by (cases "k = n") auto
    moreover have "k \<in> set (get_buf_ios s) \<Longrightarrow> bdev_ios s' k \<noteq> None" for k
      using n(2) ios(2) [of k] pio_ledgerD(6) [OF inv, of k] by (cases "k = n") auto
    moreover have "e \<in> set (completed_ios s') \<Longrightarrow> snd (snd e) = home (fst e) \<and>
        (fst (snd e) = IO_STATUS_SUCCESS \<longrightarrow> (fst e, 0) \<in> set (reported s'))" for e
      using u(3,4) pio_ledgerD(9,10) [OF inv, of e] by (auto simp: more)
    ultimately show ?thesis
      using carry ready status pio_ledgerD(1,2,4) [OF inv] u(1,3)
      unfolding pio_ledger_def eqs more u(1) by simp
  next
    case False
    then have u: "backend_ios s' = n # backend_ios s" "completed_ios s' = completed_ios s" "ready home s' {n}"
      using out same by (auto simp: submit_outcome_def others_same_def ready_def homes_def)
    have "ready home s' (set (backend_ios s') \<union> set (concat css))"
      using ready u(3) by (auto simp: u(1) ready_def homes_def)
    moreover have "Provider_buffer k \<in> set (live s') \<Longrightarrow> k \<in> set (backend_ios s') \<union> set (concat css)" for k
      using u(1) ios(3) [of k] pio_ledgerD(7) [OF inv, of k] by (cases "k = n") auto
    moreover have "k \<in> set (get_buf_ios s) \<Longrightarrow> bdev_ios s' k \<noteq> None" for k
      using n(2) ios(2) [of k] pio_ledgerD(6) [OF inv, of k] by (cases "k = n") auto
    ultimately show ?thesis
      using carry status pio_ledgerD(1,2,4,9,10) [OF inv] u(1)
      unfolding pio_ledger_def eqs more u(2) by simp
  qed
qed

text \<open>A message that is delivered completes its chain.\<close>

lemma ready_cong:
  "live w' = live w \<Longrightarrow> ios w' = ios w \<Longrightarrow> bdev_ios w' = bdev_ios w \<Longrightarrow> ready home w' A = ready home w A"
  by (simp add: ready_def io_wf_def)

text \<open>The I/Os in hand are completed on the thread \<open>t\<close>.\<close>

lemma ledger_after_completion:
  assumes inv: "pio_ledger home (map fst es) css s" and as: "completed_as s es"
    and hand: "\<And>n. n \<in> fst ` set es \<Longrightarrow> home n = t \<and> (\<exists>io. ios s n = Some io \<and> (n, io_status io) \<in> set (reported s))"
  shows "pio_ledger home [] css (after_completion es m l t s)"
proof -
  let ?t = "after_completion es m l t s"
  have d: "fst ` set es \<inter> set (get_buf_ios s) = {}" "fst ` set es \<inter> (set (backend_ios s) \<union> set (concat css)) = {}"
    using pio_ledger_disjoint [OF inv] by auto
  have "ios ?t n = ios s n" if "n \<in> set (concat css)" for n
    using that d(2) by (auto simp: restrict_map_def)
  then have "list_all2 (carries home (ios ?t)) (mailbox ?t) css"
    using pio_ledgerD(3) [OF inv] all_carry_cong [of css "ios ?t" "ios s"] by simp
  moreover have "ready home ?t (set (backend_ios s) \<union> set (concat css))"
    using d(2) by (intro ready_after_completion pio_ledgerD(5) [OF inv]) auto
  moreover have "bdev_ios ?t n \<noteq> None" if "n \<in> set (get_buf_ios s)" for n
    using that d(1) pio_ledgerD(6) [OF inv that] by (auto simp: restrict_map_def)
  moreover have "n \<in> set (backend_ios s) \<union> set (concat css)" if "Provider_buffer n \<in> set (live ?t)" for n
    using that pio_ledgerD(7) [OF inv, of n] by auto
  moreover have "\<exists>io. ios ?t n = Some io \<and> (n, io_status io) \<in> set (reported s)" if "n \<in> set (concat css)" for n
    using that d(2) pio_ledgerD(8) [OF inv that] by (auto simp: restrict_map_def)
  moreover have "snd (snd e) = home (fst e) \<and> (fst (snd e) = IO_STATUS_SUCCESS \<longrightarrow> (fst e, 0) \<in> set (reported s))"
    if e: "e \<in> set (completed_ios ?t)" for e
  proof (cases "e \<in> set (completed_ios s)")
    case True
    then show ?thesis using pio_ledgerD(9,10) [OF inv] by blast
  next
    case False
    then obtain x where x: "x \<in> set es" "e = (fst x, snd x, t)" using e by auto
    then obtain io where "ios s (fst x) = Some io" "completes io (snd x)"
      using as by (auto simp: completed_as_def)
    with hand [of "fst x"] x show ?thesis by (auto simp: completes_def)
  qed
  moreover have "submitted_ios ?t = submitted_ios s" "reported ?t = reported s"
    using pio_sys_more [of ?t s] by (simp_all)
  ultimately show ?thesis
    using pio_ledgerD(1,2,4) [OF inv] unfolding pio_ledger_def by (simp add: comp_def)
qed

lemma ledger_deliver:
  assumes inv: "pio_ledger home [] css s" and mail: "mailbox s = ms1 @ (t, Complete_provider_io_batch h) # ms2"
    and fuel: "length (submitted_ios s) < fuel"
  shows "pio_inv home (final (complete_provider_io_batch fuel t (Some h)) (s\<lparr>mailbox := ms1 @ ms2\<rparr>))"
proof -
  obtain css1 c css2 where css: "css = css1 @ c # css2" "list_all2 (carries home (ios s)) ms1 css1"
      "carries home (ios s) (t, Complete_provider_io_batch h) c" "list_all2 (carries home (ios s)) ms2 css2"
    using pio_ledgerD(3) [OF inv] unfolding mail list_all2_append1 list_all2_Cons1 by blast
  have c: "chain (ios s) (Some h) c" "\<forall>n \<in> set c. home n = t" "distinct c"
    using css(3) pio_ledger_disjoint [OF inv] by (auto simp: carries_def css(1))
  let ?s = "s\<lparr>mailbox := ms1 @ ms2\<rparr>"
  have ready: "ready home ?s (set (backend_ios s) \<union> set (concat css))"
    using pio_ledgerD(5) [OF inv] by (subst ready_cong) simp_all
  have "length c \<le> size (mset (submitted_ios s))"
    unfolding pio_ledgerD(4) [OF inv] by (simp add: css(1))
  then have "length c \<le> fuel" using fuel by simp
  moreover have "ready home ?s (set c)" by (rule ready_subset [OF ready]) (auto simp: css(1))
  ultimately obtain es m l where run: "run_state (complete_provider_io_batch fuel t (Some h)) ?s = ((), after_completion es m l t ?s)"
      "map fst es = c" "completed_as ?s es"
    using complete_chain_run [of ?s "Some h" c home t fuel] c by auto
  have "list_all2 (carries home (ios s)) (ms1 @ ms2) (css1 @ css2)"
    using css by (simp add: list_all2_appendI)
  moreover have "ready home ?s (set (backend_ios s) \<union> set (concat (css1 @ css2)))"
    by (rule ready_subset [OF ready]) (auto simp: css(1))
  ultimately have "pio_ledger home (map fst es) (css1 @ css2) ?s"
    using inv unfolding pio_ledger_def run(2) by (auto simp: css(1) run(2))
  moreover have "home n = t \<and> (\<exists>io. ios ?s n = Some io \<and> (n, io_status io) \<in> set (reported ?s))" if "n \<in> fst ` set es" for n
  proof -
    have "n \<in> set c" using that run(2) by (metis list.set_map)
    with c(2) pio_ledgerD(8) [OF inv, of n] show ?thesis by (simp add: css(1))
  qed
  ultimately have "pio_ledger home [] (css1 @ css2) (after_completion es m l t ?s)"
    using run(3) by (intro ledger_after_completion)
  then show ?thesis using run(1) by (auto simp: pio_inv_def)
qed

text \<open>The backend's batch leaves the groups of other threads in the mailbox, and the own group in hand.\<close>

lemma filter_partition_mset: "mset (filter P xs) + mset (filter (\<lambda>x. \<not> P x) xs) = mset xs"
  by (induction xs) auto

lemma concat_partition_mset: "mset (concat (filter P gs)) + mset (concat (filter (\<lambda>g. \<not> P g) gs)) = mset (concat gs)"
  by (induction gs) auto

lemma distinct_filter_mset:
  assumes "distinct xs" and "distinct ys" and "set ys \<subseteq> set xs"
  shows "mset (filter (\<lambda>x. x \<notin> set ys) xs) + mset ys = mset xs"
proof -
  have "mset (filter (\<lambda>x. x \<in> set ys) xs) = mset ys"
    using assms by (intro set_eq_iff_mset_eq_distinct [THEN iffD1]) auto
  then show ?thesis
    using filter_partition_mset [of "\<lambda>x. x \<in> set ys" xs] by (simp add: add.commute)
qed

lemma regrouped_status:
  assumes "regrouped cs s s'" and "n \<in> fst ` set cs" and "s n \<noteq> None"
  shows "\<exists>io. s' n = Some io \<and> (n, io_status io) \<in> set cs"
proof -
  obtain io where "s n = Some io" using assms(3) by blast
  then obtain io' where io': "s' n = Some io'" "io_status io' = (case map_of cs n of None \<Rightarrow> io_status io | Some st \<Rightarrow> st)"
    by (rule regroupedD [OF assms(1)])
  moreover obtain st where "map_of cs n = Some st"
    using assms(2) by (metis map_of_eq_None_iff not_None_eq)
  ultimately show ?thesis by (auto dest: map_of_SomeD)
qed

lemma groups_carried:
  "\<forall>g \<in> set gs. chain st (Some (hd g)) g \<Longrightarrow> groups_ok home gs \<Longrightarrow>
   list_all2 (carries home st) (group_messages home self gs) (filter (\<lambda>g. home (hd g) \<noteq> self) gs)"
  unfolding group_messages_def
  by (auto simp: list_all2_map1 list.rel_refl_strong carries_def groups_ok_def intro!: list.rel_refl_strong)

text \<open>The ledger after the completions \<open>cs\<close> were linked into the groups \<open>gs\<close>, of which the own one is completed next.\<close>

lemma ledger_grouped:
  assumes inv: "pio_ledger home [] css s" and ctx: "distinct (map fst (contexts cs))" "fst ` set (contexts cs) \<subseteq> set (backend_ios s)"
    and st: "regrouped (contexts cs) (ios s) st" "\<forall>g \<in> set gs. chain st (Some (hd g)) g" "\<forall>n. n \<notin> fst ` set (contexts cs) \<longrightarrow> st n = ios s n"
    and gs: "groups_ok home gs" "mset (concat gs) = mset (map fst (contexts cs))"
    and s1: "s1 = s\<lparr>pmem := m, backend_ios := filter (\<lambda>n. n \<notin> fst ` set (contexts cs)) (backend_ios s),
      reported := contexts cs @ reported s, ios := st, mailbox := mailbox s @ group_messages home self gs\<rparr>"
    and status: "\<forall>n \<in> fst ` set (contexts cs). \<exists>io. st n = Some io \<and> (n, io_status io) \<in> set (contexts cs)"
  shows "pio_ledger home (own_group home self gs) (css @ filter (\<lambda>g. home (hd g) \<noteq> self) gs) s1"
proof -
  let ?A = "fst ` set (contexts cs)" and ?os = "filter (\<lambda>g. home (hd g) \<noteq> self) gs"
  note d = pio_ledger_disjoint [OF inv]
  have own: "mset (own_group home self gs) + mset (concat ?os) = mset (map fst (contexts cs))"
    unfolding own_group_def gs(2) [symmetric] by (rule concat_partition_mset)
  have sets: "set (own_group home self gs) \<union> set (concat ?os) = ?A"
    using arg_cong [OF own, of set_mset] by simp
  have disj: "?A \<inter> set (concat css) = {}" using d ctx(2) by auto
  have ready1: "ready home s1 (set (backend_ios s) \<union> set (concat css))"
    using regrouped_ready [OF st(1) pio_ledgerD(5) [OF inv]] by (subst ready_cong [of _ "s\<lparr>ios := st\<rparr>"]) (simp_all add: s1)
  have "list_all2 (carries home st) (mailbox s) css"
    using pio_ledgerD(3) [OF inv] st(3) disj by (subst all_carry_cong [of css _ "ios s"]) auto
  then have carry: "list_all2 (carries home (ios s1)) (mailbox s1) (css @ ?os)"
    using list_all2_appendI [OF _ groups_carried [OF st(2) gs(1)]] by (simp add: s1)
  show ?thesis
    unfolding pio_ledger_def
  proof (intro conjI allI ballI impI)
    have "mset (backend_ios s1) + mset (own_group home self gs) + mset (concat ?os) = mset (backend_ios s)"
      using distinct_filter_mset [of "backend_ios s" "map fst (contexts cs)"] d ctx own by (simp add: s1 add.assoc)
    then show "mset (submitted_ios s1) = mset (map fst (completed_ios s1)) + mset (get_buf_ios s1) +
        mset (backend_ios s1) + mset (concat (css @ ?os)) + mset (own_group home self gs)"
      using pio_ledgerD(4) [OF inv] by (simp add: s1 ac_simps)
    show "ready home s1 (set (backend_ios s1) \<union> set (concat (css @ ?os)))"
      by (rule ready_subset [OF ready1]) (use sets ctx(2) in \<open>auto simp: s1\<close>)
    fix n
    show "n \<in> set (backend_ios s1) \<union> set (concat (css @ ?os)) \<union> set (own_group home self gs)" if "Provider_buffer n \<in> set (live s1)"
      using pio_ledgerD(7) [OF inv, of n] that sets by (auto simp: s1)
    show "\<exists>io. ios s1 n = Some io \<and> (n, io_status io) \<in> set (reported s1)" if "n \<in> set (concat (css @ ?os))"
    proof (cases "n \<in> ?A")
      case True
      with status show ?thesis by (auto simp: s1)
    next
      case False
      then have "n \<in> set (concat css)" using that sets by auto
      with pio_ledgerD(8) [OF inv this] False st(3) show ?thesis by (auto simp: s1)
    qed
  qed (use carry pio_ledgerD(1,2,6,9,10) [OF inv] in \<open>auto simp: s1\<close>)
qed

lemma ledger_complete:
  assumes inv: "pio_ledger home [] css s" and ctx: "\<forall>c \<in> set cs. pc_context c \<noteq> None" "distinct (map fst (contexts cs))"
      "fst ` set (contexts cs) \<subseteq> set (backend_ios s)" and fuel: "length cs < fuel" and env: "sends_accepted env"
  shows "pio_inv home (final (zettide_spdk_bdev_provider_complete_batch env fuel self cs)
       (s\<lparr>pmem := m, backend_ios := filter (\<lambda>n. n \<notin> fst ` set (contexts cs)) (backend_ios s),
          reported := contexts cs @ reported s\<rparr>))"
proof -
  let ?A = "fst ` set (contexts cs)"
  define s0 where "s0 = s\<lparr>pmem := m, backend_ios := filter (\<lambda>n. n \<notin> ?A) (backend_ios s), reported := contexts cs @ reported s\<rparr>"
  have ready0: "ready home s0 (set (backend_ios s) \<union> set (concat css))"
    using pio_ledgerD(5) [OF inv] by (subst ready_cong [of _ s]) (simp_all add: s0_def)
  have ready: "ready home s0 ?A"
    by (rule ready_subset [OF ready0]) (use ctx(3) in auto)
  then obtain gs es w' where run: "run_state (zettide_spdk_bdev_provider_complete_batch env fuel self cs) s0 = ((), w')"
      and b: "batched home self cs gs es s0 w'"
    using complete_batch_run [OF ctx(1,2) _ env fuel, of home s0 self] by blast
  obtain st m' l where w': "w' = (after_completion es m' l self (s0\<lparr>ios := st\<rparr>))\<lparr>mailbox := mailbox s0 @ group_messages home self gs\<rparr>"
      "completed_as (s0\<lparr>ios := st\<rparr>) es" "regrouped (contexts cs) (ios s0) st" "\<forall>g \<in> set gs. chain st (Some (hd g)) g"
      "\<forall>n. n \<notin> ?A \<longrightarrow> st n = ios s0 n"
      and gs: "groups_ok home gs" "mset (concat gs) = mset (map fst (contexts cs))" "map fst es = own_group home self gs"
    using b unfolding batched_def by blast
  define s1 where "s1 = s0\<lparr>ios := st, mailbox := mailbox s @ group_messages home self gs\<rparr>"
  have status: "\<forall>n \<in> ?A. \<exists>io. st n = Some io \<and> (n, io_status io) \<in> set (contexts cs)"
  proof
    fix n assume n: "n \<in> ?A"
    with ready have "ios s0 n \<noteq> None" by (auto simp: ready_def io_wf_def)
    with regrouped_status [OF w'(3)] n show "\<exists>io. st n = Some io \<and> (n, io_status io) \<in> set (contexts cs)" by simp
  qed
  have "pio_ledger home (map fst es) (css @ filter (\<lambda>g. home (hd g) \<noteq> self) gs) s1"
    unfolding gs(3)
    by (rule ledger_grouped [OF inv ctx(2,3) _ w'(4) _ gs(1,2) _ status]) (use w' in \<open>simp_all add: s1_def s0_def\<close>)
  moreover have "home n = self \<and> (\<exists>io. ios s1 n = Some io \<and> (n, io_status io) \<in> set (reported s1))" if "n \<in> fst ` set es" for n
  proof -
    have n: "n \<in> set (own_group home self gs)" using that gs(3) by (metis list.set_map)
    then have "home n = self" "n \<in> ?A"
      using gs(1) arg_cong [OF gs(2), of set_mset] by (auto simp: own_group_def groups_ok_def)
    with status show ?thesis by (auto simp: s1_def s0_def)
  qed
  ultimately have "pio_ledger home [] (css @ filter (\<lambda>g. home (hd g) \<noteq> self) gs) (after_completion es m' l self s1)"
    using w'(2) by (intro ledger_after_completion) (simp_all add: completed_as_def s1_def)
  moreover have "after_completion es m' l self s1 = w'"
    by (simp add: w'(1) s1_def after_completion_def s0_def)
  ultimately show ?thesis
    using run unfolding pio_inv_def s0_def by auto
qed

subsection \<open>Every I/O completes exactly once\<close>

text \<open>SPDK hands over an I/O: it is in hand, and holds no buffer.\<close>

lemma ready_new_bdev_io:
  assumes "ready home s A" and "n \<notin> A" and "live s' = live s" and "ios s' = ios s" and "bdev_ios s' = (bdev_ios s)(n \<mapsto> b)"
  shows "ready home s' A"
proof -
  have "io_wf s' k = io_wf s k" if "k \<in> A" for k
    using that assms(2-5) by (auto simp: io_wf_def)
  with assms show ?thesis by (simp add: ready_def)
qed

lemma ledger_new_io:
  assumes inv: "pio_ledger home [] css s" and n: "n \<notin> set (submitted_ios s)"
    and s': "s' = s\<lparr>bdev_ios := (bdev_ios s)(n \<mapsto> b), submitted_ios := n # submitted_ios s\<rparr>"
  shows "pio_ledger home [n] css s'" and "Provider_buffer n \<notin> set (live s')" and "n \<notin> set (get_buf_ios s')"
proof -
  have "set (submitted_ios s) = set (map fst (completed_ios s)) \<union> set (get_buf_ios s) \<union> set (backend_ios s) \<union> set (concat css)"
    using arg_cong [OF pio_ledgerD(4) [OF inv], of set_mset] by simp
  then have n': "n \<notin> set (backend_ios s) \<union> set (concat css)" "n \<notin> set (get_buf_ios s)" using n by auto
  have "ready home s' (set (backend_ios s) \<union> set (concat css))"
    by (rule ready_new_bdev_io [OF pio_ledgerD(5) [OF inv] n'(1)]) (simp_all add: s')
  then show "pio_ledger home [n] css s'"
    using inv n n' unfolding pio_ledger_def by (auto simp: s')
  show "Provider_buffer n \<notin> set (live s')" "n \<notin> set (get_buf_ios s')"
    using n' pio_ledgerD(7) [OF inv, of n] by (auto simp: s')
qed

lemma ledger_got_buf:
  assumes inv: "pio_ledger home [] css s" and n: "n \<in> set (get_buf_ios s)"
    and s': "s' = s\<lparr>bdev_ios := (bdev_ios s)(n \<mapsto> b), get_buf_ios := remove1 n (get_buf_ios s)\<rparr>"
  shows "pio_ledger home [n] css s'" and "Provider_buffer n \<notin> set (live s')"
proof -
  have n': "n \<notin> set (backend_ios s) \<union> set (concat css)"
    using n pio_ledger_disjoint [OF inv] by auto
  have "ready home s' (set (backend_ios s) \<union> set (concat css))"
    by (rule ready_new_bdev_io [OF pio_ledgerD(5) [OF inv] n']) (simp_all add: s')
  moreover have "mset (get_buf_ios s) = mset (remove1 n (get_buf_ios s)) + {#n#}" using n by simp
  ultimately show "pio_ledger home [n] css s'"
    using inv n' unfolding pio_ledger_def by (auto simp: s' dest: notin_set_remove1)
  show "Provider_buffer n \<notin> set (live s')"
    using n' pio_ledgerD(7) [OF inv, of n] by (auto simp: s')
qed

lemma provider_submit_request_outcome:
  assumes "bdev_ios w n = Some b" and "bio_thread b = self" and "distinct (live w)"
    and "Provider_buffer n \<notin> set (live w)" and "sends_accepted env" and "1 < fuel" and "bio_type b \<noteq> IO_TYPE_READ"
  shows "submit_outcome n self w (final (provider_submit_request env fuel self n) w)"
  using assms submit_provider_io_run [OF assms(1-6)] complete_now [OF assms(1,3,4), of IO_STATUS_FAILED self]
  by (cases "bio_type b") (simp_all add: provider_submit_request_def)

lemma pio_inv_step:
  assumes "pio_step env home s t" and "pio_inv home s" and env: "sends_accepted env"
  shows "pio_inv home t"
  using assms(1,2)
proof (induction rule: pio_step.induct)
  case (pio_submit n s b fuel)
  then obtain css where inv: "pio_ledger home [] css s" by (auto simp: pio_inv_def)
  define s' where "s' = s\<lparr>bdev_ios := (bdev_ios s)(n \<mapsto> b), submitted_ios := n # submitted_ios s\<rparr>"
  note l = ledger_new_io [OF inv pio_submit.hyps(1) s'_def]
  have s': "bdev_ios s' n = Some b" "distinct (live s')"
    using pio_ledgerD(5) [OF l(1)] by (simp_all add: s'_def ready_def)
  show ?case
  proof (cases "bio_type b = IO_TYPE_READ")
    case True
    let ?t = "final (provider_submit_request env fuel (home n) n) s'"
    have "pio_ledger home [] css ?t"
      using True s'(1) l(1,2) unfolding pio_ledger_def by (auto simp: provider_submit_request_def ready_def io_wf_def)
    then show ?thesis by (auto simp: pio_inv_def s'_def)
  next
    case False
    from ledger_submit [OF l(1) provider_submit_request_outcome [OF s'(1) pio_submit.hyps(2) s'(2) l(2) env pio_submit.hyps(3) False]]
    show ?thesis by (auto simp: pio_inv_def s'_def)
  qed
next
  case (pio_got_buf n s b fuel success)
  then obtain css where inv: "pio_ledger home [] css s" by (auto simp: pio_inv_def)
  define s' where "s' = s\<lparr>bdev_ios := (bdev_ios s)(n \<mapsto> b), get_buf_ios := remove1 n (get_buf_ios s)\<rparr>"
  note l = ledger_got_buf [OF inv pio_got_buf.hyps(1) s'_def]
  have s': "bdev_ios s' n = Some b" "distinct (live s')"
    using pio_ledgerD(5) [OF l(1)] by (simp_all add: s'_def ready_def)
  have "submit_outcome n (home n) s' (final (provider_read_get_buf env fuel (home n) n success) s')"
    using submit_provider_io_run [OF s'(1) pio_got_buf.hyps(2) s'(2) l(2) env pio_got_buf.hyps(3)]
      complete_now [OF s'(1,2) l(2)] by (simp add: provider_read_get_buf_def)
  from ledger_submit [OF l(1) this] show ?case by (auto simp: pio_inv_def s'_def)
next
  case (pio_complete cs s fuel self m)
  then show ?case using ledger_complete [OF _ pio_complete.hyps(1-4) env] by (auto simp: pio_inv_def)
next
  case (pio_deliver s ms1 t h ms2 fuel)
  then show ?case using ledger_deliver [OF _ pio_deliver.hyps] by (auto simp: pio_inv_def)
qed

lemma pio_reachable_inv: "pio_reachable env home s \<Longrightarrow> sends_accepted env \<Longrightarrow> pio_inv home s"
proof (induction rule: pio_reachable.induct)
  case (pio_start s)
  then have "pio_ledger home [] [] s" by (auto simp: pio_initial_def pio_ledger_def ready_def homes_def)
  then show ?case by (auto simp: pio_inv_def)
qed (rule pio_inv_step)

text \<open>
  C1: Every I/O of a provider completes exactly once.  In every state that submissions, buffer
  callbacks, batches of backend completions from any thread, and messages in any order can reach:
  nothing is used after it completed and no loop runs out of fuel; an I/O has been completed at most
  once, on the thread that submitted it, and with success only if the backend reported success; and
  when nothing is outstanding, every submitted I/O has completed and every bounce buffer is freed.
\<close>

theorem provider_io_exactly_once:
  assumes "pio_reachable env home s" and "sends_accepted env"
  shows "\<not> aborted s \<and> distinct (map fst (completed_ios s)) \<and> set (map fst (completed_ios s)) \<subseteq> set (submitted_ios s) \<and>
    (\<forall>(n, st, t) \<in> set (completed_ios s). t = home n \<and> (st = IO_STATUS_SUCCESS \<longrightarrow> (n, 0) \<in> set (reported s))) \<and>
    (get_buf_ios s = [] \<and> backend_ios s = [] \<and> mailbox s = [] \<longrightarrow>
       mset (map fst (completed_ios s)) = mset (submitted_ios s) \<and> (\<forall>n. Provider_buffer n \<notin> set (live s)))"
proof -
  obtain css where inv: "pio_ledger home [] css s"
    using pio_reachable_inv [OF assms] by (auto simp: pio_inv_def)
  have "set (map fst (completed_ios s)) \<subseteq> set (submitted_ios s)"
    using arg_cong [OF pio_ledgerD(4) [OF inv], of set_mset] by auto
  moreover have "distinct (map fst (completed_ios s))"
    using pio_ledger_disjoint [OF inv] by simp
  moreover have "css = []" if "mailbox s = []"
    using pio_ledgerD(3) [OF inv] that by simp
  ultimately show ?thesis
    using pio_ledgerD(1,4,7,9,10) [OF inv] by fastforce
qed
end
