(* ===== verification/Provider_Data.thy ===== *)
theory Provider_Data
  imports Provider_IO_Life
begin

text \<open>
  The data an I/O of a bdev provider carries: what the backend is handed, what a read leaves in the
  caller's memory, and example runs of the whole I/O path.
\<close>

subsection \<open>The bytes that are transferred\<close>

text \<open>The data of a write: the buffer holds the bytes of the scatter list.\<close>

definition holds_data :: "memory \<Rightarrow> memory \<Rightarrow> u64 \<Rightarrow> u64 \<Rightarrow> iovec list \<Rightarrow> bool" where
  "holds_data m m' a len iovs \<longleftrightarrow> map m' (addrs a (unat len)) = map m (take (unat len) (iov_addrs iovs))"

lemma holds_data_single:
  assumes "single_iov_buffer b len \<noteq> 0"
  shows "holds_data m m (single_iov_buffer b len) len (bio_iovs b)"
proof -
  obtain iov where iov: "bio_iovs b = [iov]" "\<not> iov_len iov < len" "single_iov_buffer b len = iov_base iov"
    using assms by (auto simp: single_iov_buffer_def split: list.splits if_splits)
  then have "unat len \<le> unat (iov_len iov)" by (simp add: word_le_nat_alt not_less)
  with iov show ?thesis by (simp add: holds_data_def take_addrs min_absorb1)
qed

lemma holds_data_gathered:
  assumes "copy_from_iovs a len iovs m = (True, m')" and "set (addrs a (unat len)) \<inter> set (iov_addrs iovs) = {}"
  shows "holds_data m m' a len iovs"
proof -
  let ?k = "min (length (iov_addrs iovs)) (unat len)"
  have "set (addrs a ?k) \<subseteq> set (addrs a (unat len))" by (auto simp: set_addrs)
  then have "set (addrs a ?k) \<inter> set (iov_addrs iovs) = {}" using assms(2) by blast
  from copy_from_iovs_run [OF refl this, of m] assms(1)
  have le: "unat len \<le> length (iov_addrs iovs)" and "m' = transfer (addrs a ?k) (take ?k (iov_addrs iovs)) m" by simp_all
  then have "m' = transfer (addrs a (unat len)) (take (unat len) (iov_addrs iovs)) m" by (simp add: min_absorb2)
  with le show ?thesis by (simp add: holds_data_def transfer_moved del: map_eq_conv)
qed

lemma submit_filled_accepted:
  assumes "ios w n = Some io" and "bdev_ios w n = Some b" and "io_bdev_io io = n" and "io_submit_thread io = self"
    and "distinct (live w)" and "io_owns_buffer io \<longleftrightarrow> Provider_buffer n \<in> set (live w)"
    and "sends_accepted env" and "1 < fuel" and "w' = final (submit_filled env fuel self n b operation offset len) w"
    and "n \<notin> set (backend_ios w)" and "n \<in> set (backend_ios w')"
  shows "\<exists>l. log w' = l @ [Backend_submit operation offset (io_buffer io) len n] \<and>
    (if operation = PROVIDER_WRITE \<and> io_owns_buffer io
     then copy_from_iovs (io_buffer io) len (bio_iovs b) (pmem w) = (True, pmem w') else pmem w' = pmem w)"
proof -
  have sub: "log v' = log v @ [Backend_submit operation offset (io_buffer io) len n] \<and> pmem v' = pmem v"
    if v: "v = w\<lparr>pmem := m\<rparr>" "v' = final (submit_to_backend env fuel self n operation offset len) v" "n \<in> set (backend_ios v')" for v v' m
  proof (cases "env (log v) (Backend_submit operation offset (io_buffer io) len n) = 0")
    case True
    then show ?thesis using submit_to_backend_accepted [of v n io env] assms(1) v by simp
  next
    case False
    have "ready (\<lambda>_. self) v {n}" "ios v n = Some io" using assms v(1) by (simp_all add: ready_def homes_def io_wf_def)
    from submit_to_backend_refused [OF this(1) assms(7,8) this(2) False v(2)]
    have "backend_ios v' = backend_ios v" by (simp add: submit_outcome_def)
    then show ?thesis using v assms(10) by simp
  qed
  show ?thesis
  proof (cases "operation = PROVIDER_WRITE \<and> io_owns_buffer io")
    case True
    obtain ok m where r: "copy_from_iovs (io_buffer io) len (bio_iovs b) (pmem w) = (ok, m)" by fastforce
    show ?thesis
    proof (cases ok)
      case ok: True
      then have "w' = final (submit_to_backend env fuel self n operation offset len) (w\<lparr>pmem := m\<rparr>)"
        using True assms(1,9) r by (simp add: submit_filled_def Let_def)
      from sub [OF refl this assms(11)] True ok r show ?thesis by simp
    next
      case False
      then have "w' = final (spdk_bdev_io_complete self n IO_STATUS_FAILED) (w\<lparr>pmem := m, log := log w @ [Free (Provider_buffer n)],
          live := remove1 (Provider_buffer n) (live w)\<rparr>)"
        using True assms(1,6,9) r by (simp add: submit_filled_def Let_def)
      then show ?thesis using assms(2,10,11) by (simp add: spdk_bdev_io_complete_def)
    qed
  next
    case False
    then have "w' = final (submit_to_backend env fuel self n operation offset len) (w\<lparr>pmem := pmem w\<rparr>)"
      using assms(1,9) by (auto simp: submit_filled_def)
    from sub [OF refl this assms(11)] False show ?thesis by auto
  qed
qed

text \<open>
  C28: What the backend is given.  When a provider hands an I/O to the backend, the byte offset and the
  byte length are the block numbers times the block size, without overflow; and for a write, if the
  allocator returned memory apart from the caller's, the buffer holds the bytes of the scatter list,
  in order.
\<close>

theorem provider_handover:
  assumes b: "bdev_ios w n = Some b" "bio_thread b = self" and blk: "pv_blocklen (pv w) \<noteq> 0"
    and acc: "n \<notin> set (backend_ios w)" "w' = final (submit_provider_io env fuel self n operation) w" "n \<in> set (backend_ios w')"
    and wf: "distinct (live w)" "Provider_buffer n \<notin> set (live w)" "sends_accepted env" "1 < fuel"
    and heap: "\<And>l a len. len = bio_num_blocks b * ucast (pv_blocklen (pv w)) \<Longrightarrow>
       a = word_of_int (env l (Malloc_size (Provider_buffer n) len)) \<Longrightarrow> a \<noteq> 0 \<Longrightarrow>
       set (addrs a (unat len)) \<inter> set (iov_addrs (bio_iovs b)) = {}"
  shows "\<exists>l offset a len. log w' = l @ [Backend_submit operation offset a len n] \<and>
    (operation \<noteq> PROVIDER_RESET \<longrightarrow> unat offset = unat (bio_offset_blocks b) * unat (pv_blocklen (pv w)) \<and>
       unat len = unat (bio_num_blocks b) * unat (pv_blocklen (pv w))) \<and>
    (operation = PROVIDER_WRITE \<longrightarrow> holds_data (pmem w) (pmem w') a len (bio_iovs b))"
proof (cases "operation \<noteq> PROVIDER_RESET \<and> (bio_num_blocks b > UINT64_MAX div ucast (pv_blocklen (pv w)) \<or>
      bio_offset_blocks b > UINT64_MAX div ucast (pv_blocklen (pv w)))")
  case True
  then have "w' = final (spdk_bdev_io_complete self n IO_STATUS_FAILED) w"
    using b(1) acc(2) by (simp add: submit_provider_io_def Let_def)
  then show ?thesis using b(1) acc(1,3) by (simp add: spdk_bdev_io_complete_def)
next
  case False
  let ?blk = "ucast (pv_blocklen (pv w)) :: u64"
  define len where "len = (if operation \<noteq> PROVIDER_RESET then bio_num_blocks b * ?blk else 0)"
  define offset where "offset = (if operation \<noteq> PROVIDER_RESET then bio_offset_blocks b * ?blk else 0)"
  define io where "io = new_provider_io n b len operation"
  define w1 where "w1 = w\<lparr>ios := (ios w)(n \<mapsto> io)\<rparr>"
  have io: "\<not> io_owns_buffer io" "io_bdev_io io = n" "io_submit_thread io = self" "ios w1 n = Some io"
    using b(2) by (simp_all add: io_def new_provider_io_def w1_def)
  have bytes: "operation \<noteq> PROVIDER_RESET \<longrightarrow> unat offset = unat (bio_offset_blocks b) * unat (pv_blocklen (pv w)) \<and>
       unat len = unat (bio_num_blocks b) * unat (pv_blocklen (pv w))"
    using False blk by (auto simp: offset_def len_def not_less unat_mult_le_max_div)
  obtain ok a owns l where buf: "run_state (provider_buffer env n b len operation) w1 = (ok, with_buffer n io a owns l w1)"
      "owns \<longrightarrow> ok" "owns \<longrightarrow> a = word_of_int (env (log w1) (Malloc_size (Provider_buffer n) len)) \<and> a \<noteq> 0"
      "operation = PROVIDER_WRITE \<and> ok \<and> \<not> owns \<longrightarrow> a = single_iov_buffer b len \<and> a \<noteq> 0"
    using provider_buffer_run [OF io(4,1), of env b len operation] by blast
  let ?w2 = "with_buffer n io a owns l w1" and ?io2 = "io\<lparr>io_buffer := a, io_owns_buffer := owns\<rparr>"
  have run: "w' = (if ok then final (submit_filled env fuel self n b operation offset len) ?w2
       else final (spdk_bdev_io_complete self n IO_STATUS_NOMEM) ?w2)"
    using False b(1) buf(1) acc(2)
    by (cases "operation = PROVIDER_RESET") (simp_all add: submit_provider_io_def Let_def io_def len_def offset_def w1_def)
  have ok: ok
    using run b(1) acc(1,3) by (cases ok) (simp_all add: spdk_bdev_io_complete_def w1_def)
  have "\<exists>l. log w' = l @ [Backend_submit operation offset (io_buffer ?io2) len n] \<and>
      (if operation = PROVIDER_WRITE \<and> io_owns_buffer ?io2
       then copy_from_iovs (io_buffer ?io2) len (bio_iovs b) (pmem ?w2) = (True, pmem w') else pmem w' = pmem ?w2)"
    using b wf io acc(1,3) run ok
    by (intro submit_filled_accepted [where w = ?w2 and self = self and env = env and fuel = fuel]) (simp_all add: w1_def)
  then obtain l' where l': "log w' = l' @ [Backend_submit operation offset a len n]"
      "if operation = PROVIDER_WRITE \<and> owns then copy_from_iovs a len (bio_iovs b) (pmem w) = (True, pmem w') else pmem w' = pmem w"
    by (auto simp: w1_def cong: if_cong)
  have "holds_data (pmem w) (pmem w') a len (bio_iovs b)" if wr: "operation = PROVIDER_WRITE"
  proof (cases owns)
    case True
    with buf(3) wr have "set (addrs a (unat len)) \<inter> set (iov_addrs (bio_iovs b)) = {}"
      by (intro heap [where l = "log w1"]) (auto simp: len_def)
    with l'(2) wr True show ?thesis by (simp add: holds_data_gathered)
  next
    case False
    with buf(4) ok l'(2) wr show ?thesis using holds_data_single [of b len "pmem w"] by auto
  qed
  with l'(1) bytes show ?thesis by blast
qed

text \<open>
  C29: What a read returns.  When a read that the backend finished into a bounce buffer is completed, the
  bytes of the buffer are in the caller's scatter list, in order, nothing else in memory has changed,
  and the I/O succeeds exactly when the list has room for all of them.
\<close>

theorem provider_read_delivers:
  assumes "io_wf w n" and "distinct (live w)" and "ios w n = Some io" and "bdev_ios w n = Some b"
    and "io_status io = 0" and "io_owns_buffer io" and "io_operation io = PROVIDER_READ" and "\<not> pv_read_buffers_unchanged (pv w)"
    and "distinct (iov_addrs (bio_iovs b))"
    and "set (addrs (io_buffer io) (unat (io_length io))) \<inter> set (iov_addrs (bio_iovs b)) = {}"
    and "w' = final (complete_provider_io (io_submit_thread io) n) w" and "A = take (unat (io_length io)) (iov_addrs (bio_iovs b))"
  shows "aborted w' = aborted w \<and> map (pmem w') A = map (pmem w) (addrs (io_buffer io) (length A)) \<and>
    (\<forall>x. x \<notin> set A \<longrightarrow> pmem w' x = pmem w x) \<and>
    completed_ios w' = completed_ios w @ [(n, if unat (io_length io) \<le> length (iov_addrs (bio_iovs b))
       then IO_STATUS_SUCCESS else IO_STATUS_FAILED, io_submit_thread io)]"
proof -
  let ?k = "min (length (iov_addrs (bio_iovs b))) (unat (io_length io))"
  let ?m = "transfer (take ?k (iov_addrs (bio_iovs b))) (addrs (io_buffer io) ?k) (pmem w)"
  have "set (addrs (io_buffer io) ?k) \<subseteq> set (addrs (io_buffer io) (unat (io_length io)))" by (auto simp: set_addrs)
  then have "set (addrs (io_buffer io) ?k) \<inter> set (iov_addrs (bio_iovs b)) = {}" using assms(10) by blast
  from copy_to_iovs_run [OF refl this assms(9)]
  have copy: "copy_to_iovs (bio_iovs b) (io_buffer io) (io_length io) (pmem w) =
      (unat (io_length io) \<le> length (iov_addrs (bio_iovs b)), ?m)" .
  have n: "io_bdev_io io = n" "Provider_buffer n \<in> set (live w)" using assms(1,3,6) by (auto simp: io_wf_def)
  have A: "A = take ?k (iov_addrs (bio_iovs b))" "length A = ?k"
    unfolding assms(12) by (auto simp: min_def)
  have "pmem w' = ?m" "aborted w' = aborted w" "completed_ios w' = completed_ios w @ [(n, if unat (io_length io) \<le> length (iov_addrs (bio_iovs b))
       then IO_STATUS_SUCCESS else IO_STATUS_FAILED, io_submit_thread io)]"
    using assms(3-8,11) copy n by (simp_all add: complete_provider_io_def spdk_bdev_io_complete_def Let_def)
  moreover have "distinct A" using assms(9) by (simp add: assms(12))
  ultimately show ?thesis
    using transfer_moved [of A "addrs (io_buffer io) ?k" "pmem w"] transfer_other [of _ A "addrs (io_buffer io) ?k" "pmem w"] A
    by (simp del: map_eq_conv)
qed

subsection \<open>Examples\<close>

definition pio_env :: env where
  "pio_env l c = (case c of Malloc_size _ _ \<Rightarrow> 0x9000 | _ \<Rightarrow> 0)"

definition example_provider :: provider where
  "example_provider = \<lparr>pv_name = ''vol'', pv_write_cache = True, pv_blocklen = 4, pv_phys_blocklen = 4, pv_blockcnt = 64,
     pv_write_unit_size = 1, pv_max_rw_size = 16, pv_read_buffers_unchanged = False\<rparr>"

definition example_bio :: "bdev_io_type \<Rightarrow> nat \<Rightarrow> bdev_io" where
  "example_bio type t = \<lparr>bio_type = type, bio_iovs = two_iovs, bio_offset_blocks = 3, bio_num_blocks = 1, bio_thread = Some t\<rparr>"

definition pio_empty :: pio_sys where
  "pio_empty = \<lparr>log = [], aborted = False, live = [], mailbox = [], pv = example_provider, bdev_ios = (\<lambda>_. None),
     ios = (\<lambda>_. None), pmem = (\<lambda>a. ucast a), completed_ios = [], backend_ios = [], get_buf_ios = [],
     submitted_ios = [], reported = []\<rparr>"

lemma pio_env_accepts: "sends_accepted pio_env"
  by (simp add: sends_accepted_def pio_env_def)

text \<open>A flush submitted on thread 7, completed by the backend on thread 9, and so by a message.\<close>

definition pio_flushing :: pio_sys where
  "pio_flushing = final (provider_submit_request pio_env (Suc (Suc 0)) (Some 7) 1)
     (pio_empty\<lparr>bdev_ios := (bdev_ios pio_empty)(1 \<mapsto> example_bio IO_TYPE_FLUSH 7), submitted_ios := [1]\<rparr>)"

definition flush_done :: "provider_completion list" where
  "flush_done = [\<lparr>pc_context = Some 1, pc_status = 0\<rparr>]"

definition pio_sent :: pio_sys where
  "pio_sent = final (zettide_spdk_bdev_provider_complete_batch pio_env (Suc (Suc 0)) (Some 9) flush_done)
     (pio_flushing\<lparr>pmem := pmem pio_empty, backend_ios := filter (\<lambda>n. n \<notin> fst ` set (contexts flush_done)) (backend_ios pio_flushing),
        reported := contexts flush_done @ reported pio_flushing\<rparr>)"

definition pio_flushed :: pio_sys where
  "pio_flushed = final (complete_provider_io_batch (Suc (Suc 0)) (Some 7) (Some 1)) (pio_sent\<lparr>mailbox := []\<rparr>)"

lemmas pio_code = provider_submit_request_def submit_provider_io_def provider_buffer_def submit_filled_def submit_to_backend_def
  get_io_def get_bdev_io_def update_io_def zettide_spdk_bdev_provider_complete_batch_def group_completion_def
  complete_provider_io_def spdk_bdev_io_complete_def new_provider_io_def Let_def

lemmas pio_states = pio_flushing_def pio_empty_def example_bio_def example_provider_def pio_env_def flush_done_def contexts_def

lemma pio_flushing_eval: "backend_ios pio_flushing = [1]" "submitted_ios pio_flushing = [1]"
  by (simp_all add: pio_code pio_states)

lemma pio_sent_eval: "mailbox pio_sent = [(Some 7, Complete_provider_io_batch 1)]" "submitted_ios pio_sent = [1]"
  by (simp_all add: pio_sent_def pio_code pio_states)

lemma pio_flushed_eval:
  "get_buf_ios pio_flushed = []" "backend_ios pio_flushed = []" "mailbox pio_flushed = []"
  "completed_ios pio_flushed = [(1, IO_STATUS_SUCCESS, Some 7)]"
  by (simp_all add: pio_flushed_def pio_sent_def pio_code pio_states)

lemma pio_flushed_reachable: "pio_reachable pio_env (\<lambda>_. Some 7) pio_flushed"
proof -
  have "pio_initial pio_empty" by (simp add: pio_initial_def pio_empty_def)
  then have "pio_reachable pio_env (\<lambda>_. Some 7) pio_empty" by (rule pio_reachable.pio_start)
  from pio_reachable.pio_next [OF this pio_step.pio_submit [of 1 _ "example_bio IO_TYPE_FLUSH 7" _ "Suc (Suc 0)"]]
  have "pio_reachable pio_env (\<lambda>_. Some 7) pio_flushing"
    by (simp add: pio_flushing_def pio_empty_def example_bio_def)
  from pio_reachable.pio_next [OF this pio_step.pio_complete [of flush_done _ "Suc (Suc 0)" _ _ "Some 9" "pmem pio_empty"]]
  have "pio_reachable pio_env (\<lambda>_. Some 7) pio_sent"
    by (simp add: pio_sent_def pio_flushing_eval) (simp add: flush_done_def contexts_def)
  from pio_reachable.pio_next [OF this pio_step.pio_deliver [of _ "[]" "Some 7" 1 "[]" "Suc (Suc 0)"]] show ?thesis
    by (simp add: pio_sent_eval pio_flushed_def)
qed

theorem provider_io_exactly_once_witness:
  "pio_reachable pio_env (\<lambda>_. Some 7) pio_flushed \<and> completed_ios pio_flushed = [(1, IO_STATUS_SUCCESS, Some 7)] \<and>
   mset (submitted_ios pio_flushed) = {#1#} \<and> (1, 0) \<in> set (reported pio_flushed)"
  using provider_io_exactly_once [OF pio_flushed_reachable pio_env_accepts] pio_flushed_reachable pio_flushed_eval by simp

text \<open>Three contexts of two threads, completed from one of them.\<close>

definition batch_home :: "nat \<Rightarrow> thread option" where
  "batch_home n = (if n = 2 then Some 8 else Some 7)"

definition three_ios :: pio_sys where
  "three_ios = pio_empty\<lparr>
     bdev_ios := (\<lambda>n. if n \<in> {1, 2, 3} then Some (example_bio IO_TYPE_FLUSH (the (batch_home n))) else None),
     ios := (\<lambda>n. if n \<in> {1, 2, 3} then Some (new_provider_io n (example_bio IO_TYPE_FLUSH (the (batch_home n))) 4 PROVIDER_FLUSH) else None)\<rparr>"

definition three_completions :: "provider_completion list" where
  "three_completions = [\<lparr>pc_context = Some 1, pc_status = 0\<rparr>, \<lparr>pc_context = Some 2, pc_status = - 5\<rparr>, \<lparr>pc_context = Some 3, pc_status = 0\<rparr>]"

lemma three_ios_ready: "ready batch_home three_ios {1, 2, 3}"
  by (auto simp: ready_def homes_def io_wf_def three_ios_def pio_empty_def new_provider_io_def example_bio_def batch_home_def)

theorem complete_batch_groups_witness:
  "ready batch_home three_ios {1, 2, 3} \<and>
   (\<exists>gs w'. run_state (zettide_spdk_bdev_provider_complete_batch pio_env 4 (Some 7) three_completions) three_ios = ((), w') \<and>
      \<not> aborted w' \<and> mset (concat gs) = {#1, 2, 3#} \<and> distinct (map (batch_home \<circ> hd) gs) \<and>
      (\<forall>g \<in> set gs. batch_home (hd g) \<noteq> Some 7 \<longrightarrow> chain (ios w') (Some (hd g)) g))"
proof -
  have c: "contexts three_completions = [(1, 0), (2, - 5), (3, 0)]" "\<forall>c \<in> set three_completions. pc_context c \<noteq> None"
    "length three_completions < 4"
    by (simp_all add: contexts_def three_completions_def)
  have "\<not> aborted three_ios" by (simp add: three_ios_def pio_empty_def)
  with complete_batch_groups [OF c(2) _ _ pio_env_accepts c(3), of batch_home three_ios "Some 7"] three_ios_ready
  show ?thesis by (fastforce simp: c(1))
qed


text \<open>A write of one block of four bytes from two pieces, and the completion of such a read.\<close>

definition pio_write :: pio_sys where
  "pio_write = pio_empty\<lparr>bdev_ios := (\<lambda>n. if n = 1 then Some (example_bio IO_TYPE_WRITE 7) else None)\<rparr>"

lemma pio_write_eval:
  "backend_ios (final (submit_provider_io pio_env (Suc (Suc 0)) (Some 7) 1 PROVIDER_WRITE) pio_write) = [1]"
  by (simp add: pio_write_def pio_code provider_malloc_def pio_states single_iov_buffer_def copy_from_iovs_def two_iovs_def)

theorem provider_handover_witness:
  "\<exists>l offset a len. log (final (submit_provider_io pio_env (Suc (Suc 0)) (Some 7) 1 PROVIDER_WRITE) pio_write) =
       l @ [Backend_submit PROVIDER_WRITE offset a len 1] \<and> unat offset = 12 \<and> unat len = 4 \<and>
     holds_data (\<lambda>a. ucast a) (pmem (final (submit_provider_io pio_env (Suc (Suc 0)) (Some 7) 1 PROVIDER_WRITE) pio_write)) a len two_iovs"
proof -
  let ?b = "example_bio IO_TYPE_WRITE 7"
  have w: "bdev_ios pio_write 1 = Some ?b" "bio_thread ?b = Some 7" "pv_blocklen (pv pio_write) \<noteq> 0" "1 \<notin> set (backend_ios pio_write)"
    "distinct (live pio_write)" "Provider_buffer 1 \<notin> set (live pio_write)" "pmem pio_write = (\<lambda>a. ucast a)" "pv_blocklen (pv pio_write) = 4"
    by (simp_all add: pio_write_def pio_empty_def example_bio_def example_provider_def)
  have "1 \<in> set (backend_ios (final (submit_provider_io pio_env (Suc (Suc 0)) (Some 7) 1 PROVIDER_WRITE) pio_write))"
    unfolding pio_write_eval by simp
  from provider_handover [OF w(1-4) refl this w(5,6) pio_env_accepts]
  show ?thesis
    by (simp add: w(7,8) example_bio_def pio_env_def two_iovs_addrs addrs_def upt_rec del: One_nat_def)
qed

definition read_io :: provider_io where
  "read_io = (new_provider_io 1 (example_bio IO_TYPE_READ 7) 4 PROVIDER_READ)\<lparr>io_buffer := 10, io_owns_buffer := True\<rparr>"

definition pio_read :: pio_sys where
  "pio_read = pio_empty\<lparr>live := [Provider_buffer 1], bdev_ios := (\<lambda>n. if n = 1 then Some (example_bio IO_TYPE_READ 7) else None),
     ios := (\<lambda>n. if n = 1 then Some read_io else None)\<rparr>"

theorem provider_read_delivers_witness:
  "map (pmem (final (complete_provider_io (Some 7) 1) pio_read)) [100, 101, 200, 201] = [10, 11, 12, 13] \<and>
   completed_ios (final (complete_provider_io (Some 7) 1) pio_read) = [(1, IO_STATUS_SUCCESS, Some 7)]"
  using provider_read_delivers [of pio_read 1 read_io "example_bio IO_TYPE_READ 7" _ "[100, 101, 200, 201]"]
  by (simp add: pio_read_def read_io_def io_wf_def new_provider_io_def example_bio_def pio_empty_def example_provider_def two_iovs_addrs)
    (simp add: addrs_def)

end
