(* ===== verification/Runtime_Lifecycle.thy ===== *)
theory Runtime_Lifecycle
  imports Runtime
begin

text \<open>
  Start, stop and destroy of the runtime: what each call returns on every branch, which resources it
  holds afterwards, and what the published runtime guarantees to threads that use it concurrently.
\<close>

subsection \<open>Start: every allocation is accounted for\<close>

text \<open>Sending the stop messages touches nothing but the log and the mailbox, whatever happens.\<close>

lemma stop_owners_loop_frame:
  "\<exists>l ms. run_state (stop_owners_loop env ts) w = ((), w\<lparr>log := l, mailbox := ms\<rparr>)"
proof (induction ts arbitrary: w)
  case Nil
  show ?case by (auto intro!: exI [of _ "log w"] exI [of _ "mailbox w"])
next
  case (Cons t ts)
  show ?case
  proof (cases "env (log w) (Spdk_thread_send_msg t Stop_dispatcher_owner) = 0")
    case True
    from Cons.IH [of "w\<lparr>log := log w @ [Spdk_thread_send_msg t Stop_dispatcher_owner],
        mailbox := mailbox w @ [(t, Stop_dispatcher_owner)]\<rparr>"] True
    show ?thesis by (auto simp: Let_def)
  next
    case False
    then show ?thesis
      by (auto simp: Let_def intro!: exI [of _ "mailbox w"])
  qed
qed

lemma stop_dispatcher_owners_frame:
  assumes "rt_owner (rt w) = self" and "rt_dispatcher_owners_stopping (rt w) = 0"
  shows "\<exists>l ms n. run_state (stop_dispatcher_owners env self) w =
     ((), w\<lparr>log := l, mailbox := ms, rt := (rt w)\<lparr>rt_dispatcher_owners_stopping := n\<rparr>\<rparr>)"
proof (cases "rt_dispatcher_owner_count (rt w) < 2")
  case True
  with assms show ?thesis
    by (intro exI [of _ "log w @ [Spdk_app_stop (rt_app_status (rt w))]"] exI [of _ "mailbox w"]
        exI [of _ "rt_dispatcher_owners_stopping (rt w)"]) (simp add: stop_dispatcher_owners_def)
next
  case False
  let ?n = "rt_dispatcher_owner_count (rt w) - 1"
  obtain l ms where "run_state (stop_owners_loop env (secondary_owners (rt w)))
      (w\<lparr>rt := (rt w)\<lparr>rt_dispatcher_owners_stopping := ?n\<rparr>\<rparr>) =
    ((), w\<lparr>rt := (rt w)\<lparr>rt_dispatcher_owners_stopping := ?n\<rparr>, log := l, mailbox := ms\<rparr>)"
    using stop_owners_loop_frame by blast
  with False assms show ?thesis
    by (intro exI [of _ l] exI [of _ ms] exI [of _ ?n]) (simp add: stop_dispatcher_owners_def)
qed

definition owners_filled :: "runtime \<Rightarrow> nat \<Rightarrow> bool" where
  "owners_filled r n \<longleftrightarrow> rt_dispatcher_owners r \<noteq> None \<and> n \<le> length (owner_slots r) \<and>
     unat (rt_dispatcher_owner_count r) = n \<and> (\<forall>i < n. owner_slots r ! i \<noteq> None)"

text \<open>Nothing but the log, the mailbox and the owner table differs.\<close>

definition only_owners :: "'x rt_world_scheme \<Rightarrow> 'x rt_world_scheme \<Rightarrow> bool" where
  "only_owners w w' \<longleftrightarrow> (\<exists>l ms ts c. w' = w\<lparr>log := l, mailbox := ms,
     rt := (rt w)\<lparr>rt_dispatcher_owners := ts, rt_dispatcher_owner_count := c\<rparr>\<rparr>)"

lemma only_owners_rt:
  "only_owners w (w\<lparr>log := l, mailbox := ms,
     rt := (rt w)\<lparr>rt_dispatcher_owners := ts, rt_dispatcher_owner_count := c\<rparr>\<rparr>)"
  unfolding only_owners_def by blast

lemma only_owners_upd:
  "only_owners w (w\<lparr>log := l\<rparr>)" "only_owners w (w\<lparr>log := l, mailbox := ms\<rparr>)"
  "only_owners w (w\<lparr>rt := (rt w)\<lparr>rt_dispatcher_owners := ts, rt_dispatcher_owner_count := c\<rparr>\<rparr>)"
  using only_owners_rt [where w = w and l = l and ms = "mailbox w" and
      ts = "rt_dispatcher_owners (rt w)" and c = "rt_dispatcher_owner_count (rt w)"]
    only_owners_rt [where w = w and l = l and ms = ms and
      ts = "rt_dispatcher_owners (rt w)" and c = "rt_dispatcher_owner_count (rt w)"]
    only_owners_rt [where w = w and l = "log w" and ms = "mailbox w" and ts = ts and c = c]
  by simp_all

lemma only_owners_trans [trans]: "only_owners u v \<Longrightarrow> only_owners v w \<Longrightarrow> only_owners u w"
  unfolding only_owners_def by (elim exE) (simp, blast)

lemma push_dispatcher_owner_run:
  assumes "owners_filled (rt w) n" and "n < length (owner_slots (rt w))"
    and "length (owner_slots (rt w)) < 2 ^ 64" and "t \<noteq> None"
  shows "only_owners w (final (push_dispatcher_owner t) w) \<and>
    length (owner_slots (rt (final (push_dispatcher_owner t) w))) = length (owner_slots (rt w)) \<and>
    owners_filled (rt (final (push_dispatcher_owner t) w)) (Suc n)"
proof -
  obtain ts where ts: "rt_dispatcher_owners (rt w) = Some ts"
    using assms(1) by (auto simp: owners_filled_def)
  have "rt_dispatcher_owner_count (rt w) \<noteq> - 1"
    using assms(1-3) ts
    by (auto simp: owners_filled_def owner_slots_def unsigned_minus_1_eq_mask mask_eq_exp_minus_1)
  then have "unat (rt_dispatcher_owner_count (rt w) + 1) = Suc n"
    using assms(1) by (simp add: unat_add_of_nat_one owners_filled_def)
  with assms ts show ?thesis
    by (auto simp: push_dispatcher_owner_def owners_filled_def owner_slots_def nth_list_update
        less_Suc_eq only_owners_upd)
qed

lemma create_owners_loop_run:
  assumes "owners_filled (rt w) n"
    and "n + length (filter (\<lambda>c. c \<noteq> app_core) cores) \<le> length (owner_slots (rt w))"
    and "length (owner_slots (rt w)) < 2 ^ 64"
    and "run_state (create_owners_loop env app_core cores) w = (status, w')"
  shows "only_owners w w' \<and> length (owner_slots (rt w')) = length (owner_slots (rt w)) \<and>
    (\<exists>m \<ge> n. owners_filled (rt w') m \<and>
      (status = 0 \<longrightarrow> m = n + length (filter (\<lambda>c. c \<noteq> app_core) cores)))"
  using assms
proof (induction cores arbitrary: w n)
  case Nil
  then show ?case
    using only_owners_upd(1) [of w "log w"] by auto
next
  case (Cons core cores)
  let ?c = "Spdk_thread_create core"
  let ?p = "env (log w) ?c"
  consider "core = app_core" | "core \<noteq> app_core" "?p = 0" | "core \<noteq> app_core" "?p \<noteq> 0"
    by blast
  then show ?case
  proof cases
    case 1
    with Cons.IH [OF Cons.prems(1)] Cons.prems(2-4) show ?thesis by simp
  next
    case 2
    with Cons.prems only_owners_upd(1) [of w] show ?thesis by auto
  next
    case 3
    let ?t = "Some (nat \<bar>?p\<bar>)"
    let ?v = "final (push_dispatcher_owner ?t) (w\<lparr>log := log w @ [?c]\<rparr>)"
    have v: "only_owners w ?v" "length (owner_slots (rt ?v)) = length (owner_slots (rt w))"
        "owners_filled (rt ?v) (Suc n)"
      using push_dispatcher_owner_run [of "w\<lparr>log := log w @ [?c]\<rparr>" n ?t] Cons.prems(1-3) 3
        only_owners_trans [OF only_owners_upd(1)] by auto
    obtain rc u where u: "run_state (send_msg env ?t Bind_dispatcher_owner) ?v = (rc, u)"
      by fastforce
    then have u': "only_owners w u" "rt u = rt ?v"
      using only_owners_trans [OF v(1) only_owners_upd(1)] only_owners_trans [OF v(1) only_owners_upd(2)]
      by (auto simp: Let_def split: if_splits)
    show ?thesis
    proof (cases "rc = 0")
      case True
      with 3 u Cons.prems(4) have rec: "run_state (create_owners_loop env app_core cores) u = (status, w')"
        by (simp add: split_def Let_def del: run_send_msg)
      from Cons.IH [of u "Suc n", OF _ _ _ rec] v(2,3) u'(2) Cons.prems(2,3) 3
      obtain m where m: "only_owners u w'" "length (owner_slots (rt w')) = length (owner_slots (rt u))"
          "Suc n \<le> m" "owners_filled (rt w') m"
          "status = 0 \<Longrightarrow> m = Suc n + length (filter (\<lambda>c. c \<noteq> app_core) cores)"
        by auto
      then show ?thesis
        using only_owners_trans [OF u'(1) m(1)] v(2) u'(2) 3 by (auto intro!: exI [of _ m])
    next
      case False
      with 3 u Cons.prems(4) have "w' = u" "status = rc"
        by (simp_all add: split_def Let_def del: run_send_msg)
      with False u' v show ?thesis
        by (auto intro!: exI [of _ "Suc n"])
    qed
  qed
qed


text \<open>What starting the reactors never changes.\<close>

definition rt_kept :: "'x rt_world_scheme \<Rightarrow> 'x rt_world_scheme \<Rightarrow> bool" where
  "rt_kept w w' \<longleftrightarrow> aborted w' = aborted w \<and> g_runtime_active w' = g_runtime_active w \<and>
     rt_name (rt w') = rt_name (rt w) \<and>
     rt_reactor_mask (rt w') = rt_reactor_mask (rt w) \<and> rt_json_data (rt w') = rt_json_data (rt w) \<and>
     rt_active_leases (rt w') = rt_active_leases (rt w) \<and>
     rt_next_dispatcher_owner (rt w') = rt_next_dispatcher_owner (rt w)"

lemma only_owners_kept:
  "only_owners w w' \<Longrightarrow> rt_kept w w' \<and> rt_owner (rt w') = rt_owner (rt w) \<and>
     rt_state (rt w') = rt_state (rt w) \<and> live w' = live w \<and> thread_done w' = thread_done w \<and>
     rt_dispatcher_owners_stopping (rt w') = rt_dispatcher_owners_stopping (rt w)"
  by (auto simp: only_owners_def rt_kept_def)

text \<open>A table with at least the application thread in it, and no empty slot below the count.\<close>

definition owners_ready :: "runtime \<Rightarrow> bool" where
  "owners_ready r \<longleftrightarrow> rt_dispatcher_owner_count r > 0 \<and> owners_filled r (unat (rt_dispatcher_owner_count r))"

lemma owners_readyI: "owners_filled r m \<Longrightarrow> 1 \<le> m \<Longrightarrow> owners_ready r"
  by (auto simp: owners_ready_def owners_filled_def word_less_nat_alt)

lemma owners_ready_frame [simp]:
  "owners_ready (r\<lparr>rt_state := s\<rparr>) = owners_ready r"
  by (simp add: owners_ready_def owners_filled_def owner_slots_def)

lemma create_dispatcher_owners_run:
  assumes "rt_owner (rt w) \<noteq> None" and "app_core \<in> set cores" and "length cores < 2 ^ 64"
    and "rt_dispatcher_owners (rt w) = None"
    and run: "run_state (create_dispatcher_owners env app_core cores) w = (status, w')"
  shows "rt_kept w w' \<and> rt_owner (rt w') = rt_owner (rt w) \<and> rt_state (rt w') = rt_state (rt w) \<and>
    thread_done w' = thread_done w \<and>
    rt_dispatcher_owners_stopping (rt w') = rt_dispatcher_owners_stopping (rt w) \<and>
    live w' = (if rt_dispatcher_owners (rt w') = None then live w else Runtime_dispatcher_owners # live w) \<and>
    (status = 0 \<longrightarrow> owners_ready (rt w'))"
proof (cases "env (log w) (Calloc Runtime_dispatcher_owners) = 0")
  case True
  with run assms(4) show ?thesis
    by (auto simp: create_dispatcher_owners_def rt_kept_def)
next
  case False
  let ?ts = "(replicate (length cores) None)[0 := rt_owner (rt w)]"
  let ?v = "w\<lparr>log := log w @ [Calloc Runtime_dispatcher_owners], live := Runtime_dispatcher_owners # live w,
      rt := (rt w)\<lparr>rt_dispatcher_owners := Some ?ts, rt_dispatcher_owner_count := 1\<rparr>\<rparr>"
  have len: "0 < length cores" "length (filter (\<lambda>c. c \<noteq> app_core) cores) < length cores"
    using assms(2) length_filter_less [of app_core cores] by (cases cores, auto)
  then have filled: "owners_filled (rt ?v) 1" and slots: "length (owner_slots (rt ?v)) = length cores"
    using assms(1) by (auto simp: owners_filled_def owner_slots_def)
  have "run_state (create_owners_loop env app_core cores) ?v = (status, w')"
    using run False by (simp add: create_dispatcher_owners_def)
  with len obtain m where m: "only_owners ?v w'" "owners_filled (rt w') m" "1 \<le> m"
    using create_owners_loop_run [OF filled, of app_core cores env status w'] assms(3) slots by auto
  have "rt_dispatcher_owners (rt w') \<noteq> None"
    using m(2) by (simp add: owners_filled_def)
  with only_owners_kept [OF m(1)] owners_readyI [OF m(2,3)] show ?thesis
    by (simp add: rt_kept_def)
qed

lemma runtime_started_run:
  assumes "app_core \<in> set cores" and "length cores < 2 ^ 64"
    and "rt_dispatcher_owners (rt w) = None" and "rt_state (rt w) = RUNTIME_STARTING"
    and "rt_dispatcher_owners_stopping (rt w) = 0"
    and run: "run_state (runtime_started env self app_core cores) w = (x, w')"
  shows "rt_kept w w' \<and> thread_done w' = thread_done w \<and>
    live w' = (if rt_dispatcher_owners (rt w') = None then live w else Runtime_dispatcher_owners # live w) \<and>
    (if rt_state (rt w') = RUNTIME_READY then rt_owner (rt w') \<noteq> None \<and> owners_ready (rt w')
     else rt_state (rt w') = RUNTIME_STARTING)"
proof (cases "self = None")
  case True
  with run assms(3,4) show ?thesis
    by (auto simp: runtime_started_def rt_kept_def)
next
  case False
  let ?w = "w\<lparr>rt := (rt w)\<lparr>rt_owner := self\<rparr>\<rparr>"
  obtain status v where v: "run_state (create_dispatcher_owners env app_core cores) ?w = (status, v)"
    by fastforce
  have c: "rt_kept ?w v" "rt_owner (rt v) = self" "rt_state (rt v) = RUNTIME_STARTING"
      "thread_done v = thread_done w" "rt_dispatcher_owners_stopping (rt v) = 0"
      "live v = (if rt_dispatcher_owners (rt v) = None then live w else Runtime_dispatcher_owners # live w)"
      "status = 0 \<Longrightarrow> owners_ready (rt v)"
    using create_dispatcher_owners_run [OF _ assms(1,2) _ v] assms(3-5) False by simp_all
  have w': "w' = final (if status = 0 then modify_rt (\<lambda>r. r\<lparr>rt_state := RUNTIME_READY\<rparr>)
      else do { modify_rt (\<lambda>r. r\<lparr>rt_app_status := status\<rparr>); stop_dispatcher_owners env self }) v"
    using run False v c(3) by (simp add: runtime_started_def split_def split: if_splits)
  show ?thesis
  proof (cases "status = 0")
    case True
    with w' c False show ?thesis
      by (simp add: rt_kept_def)
  next
    case failed: False
    let ?v = "v\<lparr>rt := (rt v)\<lparr>rt_app_status := status\<rparr>\<rparr>"
    obtain l ms n where "run_state (stop_dispatcher_owners env self) ?v =
        ((), ?v\<lparr>log := l, mailbox := ms, rt := (rt ?v)\<lparr>rt_dispatcher_owners_stopping := n\<rparr>\<rparr>)"
      using stop_dispatcher_owners_frame [of ?v self env] c(2,5) by auto
    with w' failed c(1,3,4,6) show ?thesis
      by (simp add: rt_kept_def)
  qed
qed

lemma run_runtime_run:
  assumes "app_core \<in> set cores" and "length cores < 2 ^ 64"
    and "rt_dispatcher_owners (rt w) = None" and "rt_state (rt w) = RUNTIME_STARTING"
    and "rt_dispatcher_owners_stopping (rt w) = 0" and "\<not> thread_done w"
    and run: "run_state (run_runtime env leave self app_core cores) w = (x, w')"
  shows "rt_kept w w' \<and>
    live w' = (if rt_dispatcher_owners (rt w') = None then live w else Runtime_dispatcher_owners # live w) \<and>
    (if rt_state (rt w') = RUNTIME_READY
     then rt_owner (rt w') \<noteq> None \<and> \<not> thread_done w' \<and> owners_ready (rt w')
     else rt_state (rt w') = RUNTIME_FAILED \<and> thread_done w')"
proof -
  let ?c = "Spdk_app_start (app_options_of (rt w))"
  let ?w = "w\<lparr>log := log w @ [?c]\<rparr>"
  show ?thesis
  proof (cases "env (log w) ?c = 0")
    case True
    obtain y v where v: "run_state (runtime_started env self app_core cores) ?w = (y, v)"
      by (rule prod.exhaust)
    have c: "rt_kept ?w v" "thread_done v = thread_done w"
        "live v = (if rt_dispatcher_owners (rt v) = None then live w else Runtime_dispatcher_owners # live w)"
        "if rt_state (rt v) = RUNTIME_READY then rt_owner (rt v) \<noteq> None \<and> owners_ready (rt v)
         else rt_state (rt v) = RUNTIME_STARTING"
      using runtime_started_run [OF assms(1,2) _ _ _ v] assms(3-5) by simp_all
    show ?thesis
    proof (cases "rt_state (rt v) = RUNTIME_READY \<and> \<not> leave")
      case ready: True
      with run True v have "w' = v" by (simp add: run_runtime_def)
      with c ready assms(6) show ?thesis by (simp add: rt_kept_def)
    next
      case False
      with run True v c(4) have "w' = final (do { status \<leftarrow> ext env Spdk_app_wait; run_runtime_exit status }) v"
        by (auto simp: run_runtime_def)
      with c show ?thesis
        by (cases "rt_state (rt v) = RUNTIME_READY") (simp_all add: run_runtime_exit_def rt_kept_def)
    qed
  next
    case False
    with run assms(3-6) show ?thesis
      by (auto simp: run_runtime_def run_runtime_exit_def rt_kept_def)
  qed
qed

text \<open>The heap objects a runtime's fields own.\<close>

definition config_objs :: "runtime \<Rightarrow> obj list" where
  "config_objs r = (if rt_json_data r = None then [] else [Runtime_json_data]) @
     (if rt_reactor_mask r = None then [] else [Runtime_reactor_mask]) @
     (if rt_name r = None then [] else [Runtime_name])"

definition owner_objs :: "runtime \<Rightarrow> obj list" where
  "owner_objs r = (if rt_dispatcher_owners r = None then [] else [Runtime_dispatcher_owners])"

text \<open>Only the log and the live objects differ, and the latter are \<open>ms\<close>.\<close>

definition heap_now :: "'x rt_world_scheme \<Rightarrow> obj list \<Rightarrow> 'x rt_world_scheme \<Rightarrow> bool" where
  "heap_now w ms w' \<longleftrightarrow> live w' = ms \<and> aborted w' = aborted w \<and> rt w' = rt w \<and>
     g_runtime_active w' = g_runtime_active w \<and> thread_done w' = thread_done w"

lemma free_runtime_fields_run:
  assumes "live w = config_objs (rt w) @ ms" and "rt_dispatcher_owners (rt w) = None"
  shows "heap_now w ms (final free_runtime_fields w)"
  using assms
  by (cases "rt_json_data (rt w)"; cases "rt_reactor_mask (rt w)"; cases "rt_name (rt w)")
    (simp_all add: free_runtime_fields_def config_objs_def heap_now_def)

lemma free_runtime_run:
  assumes "live w = owner_objs (rt w) @ [Runtime_condition, Runtime_mutex] @ config_objs (rt w) @ Runtime_obj # ms"
  shows "heap_now w ms (final free_runtime w)"
  using assms
  by (cases "rt_json_data (rt w)"; cases "rt_reactor_mask (rt w)"; cases "rt_name (rt w)";
      cases "rt_dispatcher_owners (rt w)")
    (simp_all add: free_runtime_def free_runtime_fields_def config_objs_def owner_objs_def heap_now_def)

lemma copy_runtime_opts_run:
  assumes "\<not> start_args_invalid (Some ro) out" and "rt w = zero_runtime"
    and "run_state (copy_runtime_opts env ro) w = (ok, w')"
  shows "live w' = config_objs (rt w') @ live w \<and> aborted w' = aborted w \<and>
    g_runtime_active w' = g_runtime_active w \<and> thread_done w' = thread_done w \<and>
    rt_state (rt w') = RUNTIME_STARTING \<and> rt_dispatcher_owners (rt w') = None \<and>
    rt_dispatcher_owners_stopping (rt w') = 0 \<and> rt_active_leases (rt w') = 0 \<and>
    rt_next_dispatcher_owner (rt w') = 0"
proof -
  obtain n where n: "ro_name ro = Some n"
    using assms(1) by (auto simp: start_args_invalid_def)
  have w': "w' = final (copy_runtime_opts env ro) w"
    using assms(3) by simp
  have j: "ro_json_data_size ro \<noteq> 0 \<Longrightarrow> \<exists>d. ro_json_data ro = Some d"
    using assms(1) by (auto simp: start_args_invalid_def)
  show ?thesis
  proof (cases "ro_json_data_size ro = 0")
    case True
    with n show ?thesis
      unfolding w' by (cases "ro_reactor_mask ro")
        (simp_all add: copy_runtime_opts_def config_objs_def run_alloc_cond assms(2) zero_runtime_def
          del: run_alloc)
  next
    case False
    with j obtain d where "ro_json_data ro = Some d" by blast
    with False n show ?thesis
      unfolding w' by (cases "ro_reactor_mask ro")
        (simp_all add: copy_runtime_opts_def config_objs_def run_alloc_cond assms(2) zero_runtime_def
          del: run_alloc)
  qed
qed

lemma release_process_slot_run:
  "g_runtime_active w \<Longrightarrow> run_state release_process_slot w = ((), w\<lparr>g_runtime_active := False\<rparr>)"
  by (simp add: release_process_slot_def)

text \<open>The outcome of a start attempt that found the process slot free and took it.\<close>

definition start_outcome :: "obj list \<Rightarrow> int \<times> bool \<Rightarrow> 'x rt_world_scheme \<Rightarrow> bool" where
  "start_outcome ms res w \<longleftrightarrow> \<not> aborted w \<and> (snd res \<longleftrightarrow> fst res = 0) \<and>
     (if snd res then rt_published w \<and>
        live w = owner_objs (rt w) @ [Runtime_condition, Runtime_mutex] @ config_objs (rt w) @ Runtime_obj # ms
      else live w = ms \<and> \<not> g_runtime_active w)"

lemma rt_publishedI:
  assumes "owners_ready (rt w)" and "rt_next_dispatcher_owner (rt w) = 0"
  shows "wf_owners (rt w)"
  using assms by (simp add: wf_owners_def owners_ready_def owners_filled_def)

lemma start_thread_outcome:
  assumes "\<not> aborted w" and "g_runtime_active w" and "app_core \<in> set cores" and "length cores < 2 ^ 64"
    and live: "live w = [Runtime_condition, Runtime_mutex] @ config_objs (rt w) @ Runtime_obj # ms"
    and fresh: "rt_state (rt w) = RUNTIME_STARTING" "rt_dispatcher_owners (rt w) = None"
      "rt_dispatcher_owners_stopping (rt w) = 0" "rt_active_leases (rt w) = 0"
      "rt_next_dispatcher_owner (rt w) = 0" "\<not> thread_done w"
  shows "start_outcome ms (result (start_thread env leave self app_core cores) w)
           (final (start_thread env leave self app_core cores) w)"
proof -
  let ?w1 = "w\<lparr>log := log w @ [Pthread_create]\<rparr>"
  let ?w2 = "w\<lparr>log := log w @ [Pthread_create, Pthread_setcancelstate]\<rparr>"
  show ?thesis
  proof (cases "env (log w) Pthread_create = 0")
    case False
    have "heap_now ?w1 ms (final free_runtime ?w1)"
      by (rule free_runtime_run) (simp add: live owner_objs_def fresh)
    with False assms(1,2) show ?thesis
      by (simp add: start_thread_def start_outcome_def heap_now_def release_process_slot_def split_def)
  next
    case True
    define v where "v = final (run_runtime env leave self app_core cores) ?w2"
    have run: "run_state (run_runtime env leave self app_core cores) ?w2 = ((), v)"
      by (simp add: v_def prod_eq_iff)
    have "rt_kept ?w2 v \<and>
      live v = (if rt_dispatcher_owners (rt v) = None then live ?w2 else Runtime_dispatcher_owners # live ?w2) \<and>
      (if rt_state (rt v) = RUNTIME_READY
       then rt_owner (rt v) \<noteq> None \<and> \<not> thread_done v \<and> owners_ready (rt v)
       else rt_state (rt v) = RUNTIME_FAILED \<and> thread_done v)"
      by (rule run_runtime_run [OF assms(3,4) _ _ _ _ run]) (simp_all add: fresh)
    then have v: "rt_kept ?w2 v"
      "live v = (if rt_dispatcher_owners (rt v) = None then live ?w2 else Runtime_dispatcher_owners # live ?w2)"
      "if rt_state (rt v) = RUNTIME_READY
       then rt_owner (rt v) \<noteq> None \<and> \<not> thread_done v \<and> owners_ready (rt v)
       else rt_state (rt v) = RUNTIME_FAILED \<and> thread_done v"
      by blast+
    have live_v: "live v = owner_objs (rt v) @ [Runtime_condition, Runtime_mutex] @ config_objs (rt v) @ Runtime_obj # ms"
      using v(1,2) live by (simp add: owner_objs_def rt_kept_def config_objs_def)
    show ?thesis
    proof (cases "rt_state (rt v) = RUNTIME_READY")
      case ready: True
      with v live_v True assms(1,2) fresh rt_publishedI [of v] show ?thesis
        by (simp add: start_thread_def start_outcome_def rt_published_def rt_kept_def run
            split_def owner_objs_def config_objs_def)
    next
      case failed: False
      let ?u = "v\<lparr>log := log v @ [Pthread_join]\<rparr>"
      have "heap_now ?u ms (final free_runtime ?u)"
        by (rule free_runtime_run) (simp add: live_v)
      with v(1) failed True assms(1,2) show ?thesis
        by (simp add: start_thread_def start_outcome_def rt_kept_def run split_def
            heap_now_def release_process_slot_def Let_def)
    qed
  qed
qed

lemma start_object_undone:
  assumes "live x = config_objs (rt x) @ Runtime_obj # ms" and "rt_dispatcher_owners (rt x) = None" and "\<not> aborted x"
    and "g_runtime_active x" and "st \<noteq> 0"
    and m: "m = do { free_runtime_fields; free_ptr True Runtime_obj; release_process_slot; ret (st, False) }"
  shows "start_outcome ms (result m x) (final m x)"
  using free_runtime_fields_run [OF assms(1,2)] assms(3-5)
  by (simp add: m start_outcome_def heap_now_def release_process_slot_def split_def)

lemma start_object_outcome:
  assumes "\<not> aborted w" and "g_runtime_active w" and "app_core \<in> set cores" and "length cores < 2 ^ 64"
    and "\<not> start_args_invalid (Some ro) out"
  shows "start_outcome (live w) (result (start_object env leave self app_core cores ro) w)
           (final (start_object env leave self app_core cores ro) w)"
proof (cases "env (log w) (Calloc Runtime_obj) = 0")
  case True
  with assms(1,2) show ?thesis
    by (simp add: start_object_def start_outcome_def release_process_slot_def)
next
  case obj: False
  let ?v = "w\<lparr>log := log w @ [Calloc Runtime_obj], live := Runtime_obj # live w, rt := zero_runtime,
      thread_done := False\<rparr>"
  obtain ok u where u: "run_state (copy_runtime_opts env ro) ?v = (ok, u)"
    by (rule prod.exhaust)
  have copied: "live u = config_objs (rt u) @ Runtime_obj # live w" "\<not> aborted u" "g_runtime_active u"
    "\<not> thread_done u" "rt_state (rt u) = RUNTIME_STARTING" "rt_dispatcher_owners (rt u) = None"
    "rt_dispatcher_owners_stopping (rt u) = 0" "rt_active_leases (rt u) = 0"
    "rt_next_dispatcher_owner (rt u) = 0"
    using copy_runtime_opts_run [OF assms(5) _ u] assms(1,2) by simp_all
  note start = start_object_def obj u
  let ?m = "u\<lparr>log := log u @ [Pthread_mutex_init]\<rparr>"
  let ?d = "u\<lparr>log := log u @ [Pthread_mutex_init, Pthread_cond_init, Pthread_mutex_destroy],
      live := config_objs (rt u) @ Runtime_obj # live w\<rparr>"
  let ?t = "u\<lparr>log := log u @ [Pthread_mutex_init, Pthread_cond_init], live := Runtime_condition # Runtime_mutex # live u\<rparr>"
  let ?i = "env (log u) Pthread_mutex_init" and ?c = "env (log ?m) Pthread_cond_init"
  consider "\<not> ok" | "ok" "?i \<noteq> 0" | "ok" "?i = 0" "?c \<noteq> 0" | "ok" "?i = 0" "?c = 0"
    by blast
  then show ?thesis
  proof cases
    case 1
    with start_object_undone [of u "live w" "- ENOMEM", OF _ _ _ _ _ refl] copied show ?thesis
      by (simp add: start)
  next
    case 2
    with start_object_undone [of ?m "live w" "- ?i", OF _ _ _ _ _ refl] copied show ?thesis
      by (simp add: start)
  next
    case 3
    with start_object_undone [of ?d "live w" "- ?c", OF _ _ _ _ _ refl] copied show ?thesis
      by (simp add: start)
  next
    case 4
    have "start_outcome (live w) (result (start_thread env leave self app_core cores) ?t)
        (final (start_thread env leave self app_core cores) ?t)"
      by (rule start_thread_outcome [OF _ _ assms(3,4)]) (simp_all add: copied)
    with 4 show ?thesis by (simp add: start)
  qed
qed

lemma runtime_start_free_slot:
  assumes "\<not> aborted w" and "app_core \<in> set cores" and "length cores < 2 ^ 64"
    and "\<not> start_args_invalid opts out" and "env (log w) Pthread_mutex_lock = 0" and "\<not> g_runtime_active w"
    and "run_state (zettide_spdk_runtime_start env leave self app_core cores opts out) w = (res, w')"
  shows "start_outcome (live w) res w'"
proof -
  obtain ro where ro: "opts = Some ro"
    using assms(4) by (cases opts) (auto simp: start_args_invalid_def)
  let ?w = "w\<lparr>log := log w @ [Pthread_mutex_lock], g_runtime_active := True\<rparr>"
  have "start_outcome (live ?w) (result (start_object env leave self app_core cores ro) ?w)
      (final (start_object env leave self app_core cores ro) ?w)"
    using assms(1,4) ro by (intro start_object_outcome [OF _ _ assms(2,3), of _ _ out]) simp_all
  with ro assms(4-) show ?thesis
    by (simp add: zettide_spdk_runtime_start_def)
qed

lemma runtime_start_early:
  assumes "start_args_invalid opts out \<or> env (log w) Pthread_mutex_lock \<noteq> 0 \<or> g_runtime_active w"
    and "run_state (zettide_spdk_runtime_start env leave self app_core cores opts out) w = ((status, published), w')"
  shows "status \<noteq> 0 \<and> \<not> published \<and> aborted w' = aborted w \<and> live w' = live w \<and>
    g_runtime_active w' = g_runtime_active w"
  using assms by (auto simp: zettide_spdk_runtime_start_def split: if_splits)

text \<open>
  C13: Starting the runtime.  Whatever libc, pthread and SPDK answer, \<^verbatim>\<open>zettide_spdk_runtime_start\<close>
  neither fails an assertion nor frees twice; it hands a runtime out exactly when its status is 0,
  and then the runtime is ready, has an owner and an owner table, no leases, and holds exactly its own
  allocations; on every error path each allocation made on the way is freed again and the process
  slot is what it was, so a later start can succeed.  A second start while one runtime is active
  never succeeds.
\<close>

theorem runtime_start_outcome:
  assumes "\<not> aborted w" and "app_core \<in> set cores" and "length cores < 2 ^ 64"
    and "run_state (zettide_spdk_runtime_start env leave self app_core cores opts out) w = ((status, published), w')"
  shows "\<not> aborted w' \<and> (published \<longleftrightarrow> status = 0) \<and>
    (if published then rt_published w' \<and> \<not> g_runtime_active w \<and>
       live w' = owner_objs (rt w') @ [Runtime_condition, Runtime_mutex] @ config_objs (rt w') @ Runtime_obj # live w
     else live w' = live w \<and> g_runtime_active w' = g_runtime_active w)"
proof (cases "start_args_invalid opts out \<or> env (log w) Pthread_mutex_lock \<noteq> 0 \<or> g_runtime_active w")
  case True
  from runtime_start_early [OF this assms(4)] assms(1) show ?thesis by simp
next
  case False
  with runtime_start_free_slot [OF assms(1-3) _ _ _ assms(4)] show ?thesis
    by (auto simp: start_outcome_def)
qed

definition example_opts :: runtime_opts where
  "example_opts = \<lparr>ro_opts_size = sizeof_runtime_opts, ro_name = Some ''zettide'', ro_reactor_mask = None,
     ro_json_data = None, ro_json_data_size = 0, ro_mem_size_mb = 64, ro_no_pci = True, ro_no_huge = True,
     ro_disable_signal_handlers = True, ro_disable_cpumask_locks = False,
     ro_retired_vhost_socket_path = None\<rparr>"

definition boot_world :: rt_world where
  "boot_world = \<lparr>log = [], aborted = False, live = [], mailbox = [], rt = zero_runtime,
     g_runtime_active = False, thread_done = False\<rparr>"

text \<open>An environment in which every allocation and every thread creation succeeds.\<close>

definition healthy_env :: env where
  "healthy_env l c = (case c of Calloc _ \<Rightarrow> 1 | Malloc _ \<Rightarrow> 1 | Strdup _ \<Rightarrow> 1
     | Spdk_thread_create core \<Rightarrow> 8 + uint core | _ \<Rightarrow> 0)"

lemmas start_code =
  zettide_spdk_runtime_start_def start_args_invalid_def start_object_def copy_runtime_opts_def
  start_thread_def run_runtime_def runtime_started_def create_dispatcher_owners_def
  push_dispatcher_owner_def owner_slots_def app_options_of_def

text \<open>Two reactor cores: the application thread 7 on core 0 and a created thread on core 1.\<close>

lemma healthy_start:
  "\<exists>l. run_state (zettide_spdk_runtime_start healthy_env False (Some 7) 0 [0, 1] (Some example_opts) True) boot_world =
     ((0, True), boot_world\<lparr>log := l,
        live := [Runtime_dispatcher_owners, Runtime_condition, Runtime_mutex, Runtime_name, Runtime_obj],
        mailbox := [(Some 9, Bind_dispatcher_owner)],
        rt := zero_runtime\<lparr>rt_state := RUNTIME_READY, rt_owner := Some 7,
          rt_dispatcher_owners := Some [Some 7, Some 9], rt_dispatcher_owner_count := 2,
          rt_name := Some ''zettide'', rt_mem_size_mb := 64, rt_no_pci := True, rt_no_huge := True\<rparr>,
        g_runtime_active := True\<rparr>)"
  by (simp add: start_code healthy_env_def boot_world_def example_opts_def zero_runtime_def Let_def)

theorem runtime_start_outcome_witness:
  "\<exists>w'. run_state (zettide_spdk_runtime_start healthy_env False (Some 7) 0 [0, 1] (Some example_opts) True) boot_world
      = ((0, True), w') \<and> rt_published w' \<and>
    live w' = [Runtime_dispatcher_owners, Runtime_condition, Runtime_mutex, Runtime_name, Runtime_obj]"
proof -
  obtain w' where w': "run_state (zettide_spdk_runtime_start healthy_env False (Some 7) 0 [0, 1] (Some example_opts) True)
      boot_world = ((0, True), w')"
    "live w' = [Runtime_dispatcher_owners, Runtime_condition, Runtime_mutex, Runtime_name, Runtime_obj]"
    using healthy_start by (elim exE) simp
  with runtime_start_outcome [OF _ _ _ w'(1)] show ?thesis
    by (auto simp: boot_world_def)
qed


subsection \<open>The published runtime\<close>

text \<open>
  C4: Concurrent use of a published runtime.  However acquires, releases, stops from any number of
  threads and the exit of the reactors interleave: no assertion fails, the lease count is the number
  of leases the clients hold, at most one caller is stopping the runtime, its thread is joined exactly
  once, and once the runtime is stopped its thread is gone, the process slot is free and no lease is
  out.  While the runtime thread runs, a lease that is granted has an owner.
\<close>

theorem published_runtime_safe:
  assumes "rt_reachable s"
  shows "\<not> aborted s \<and> rt_active_leases (rt s) = of_nat (held s) \<and>
    length (sending s) + joining s \<le> 1 \<and> joins s = (if rt_state (rt s) = RUNTIME_STOPPED then 1 else 0) \<and>
    (rt_state (rt s) = RUNTIME_STOPPED \<longrightarrow>
       thread_done s \<and> \<not> g_runtime_active s \<and> held s = 0 \<and> sending s = [] \<and> joining s = 0) \<and>
    (\<forall>t r'. \<not> thread_done s \<and> zettide_spdk_runtime_acquire True True (rt s) = Some (0, t, r') \<longrightarrow> t \<noteq> None)"
  using rt_reachable_inv [OF assms]
  by (auto simp: rt_inv_def zettide_spdk_runtime_acquire_def split: if_splits)

text \<open>A published runtime with two dispatcher owners, and its states on the way to a stop.\<close>

definition ready_runtime :: runtime where
  "ready_runtime = zero_runtime\<lparr>rt_state := RUNTIME_READY, rt_owner := Some 7,
     rt_dispatcher_owners := Some [Some 7, Some 9], rt_dispatcher_owner_count := 2\<rparr>"

definition sys_ready :: rt_sys where
  "sys_ready = \<lparr>log = [], aborted = False, live = [], mailbox = [], rt = ready_runtime,
     g_runtime_active = True, thread_done = False, sending = [], joining = 0, joins = 0, held = 0\<rparr>"

definition sys_stopping :: rt_sys where
  "sys_stopping = sys_ready\<lparr>rt := ready_runtime\<lparr>rt_state := RUNTIME_STOPPING\<rparr>, sending := [Some 7]\<rparr>"

definition sys_exited :: rt_sys where
  "sys_exited = final (run_runtime_exit 0) sys_stopping"

definition sys_stopped :: rt_sys where
  "sys_stopped = final runtime_stop_finish (sys_exited\<lparr>sending := [], joining := 0, joins := 1\<rparr>)"

lemma sys_ready_initial: "rt_initial sys_ready"
  by (simp add: rt_initial_def rt_published_def sys_ready_def ready_runtime_def zero_runtime_def
      wf_owners_def owner_slots_def)

lemma sys_stopping_reachable: "rt_reachable sys_stopping"
proof -
  have "runtime_stop_enter (rt sys_ready) = (None, Some 7, ready_runtime\<lparr>rt_state := RUNTIME_STOPPING\<rparr>)"
    by (simp add: runtime_stop_enter_def sys_ready_def ready_runtime_def zero_runtime_def)
  from rt_step.stop_enter [OF this] have "rt_step sys_ready sys_stopping"
    by (simp add: sys_stopping_def sys_ready_def)
  with sys_ready_initial show ?thesis
    by (blast intro: rt_reachable.intros)
qed

lemma sys_exited_reachable: "rt_reachable sys_exited"
proof -
  have "rt_step sys_stopping sys_exited"
    unfolding sys_exited_def by (rule rt_step.app_exit) (simp add: sys_stopping_def sys_ready_def)
  with sys_stopping_reachable show ?thesis by (rule rt_reachable.rt_next)
qed

lemma sys_exited_fields:
  "sending sys_exited = [Some 7]" "joining sys_exited = 0" "joins sys_exited = 0" "thread_done sys_exited"
  "rt sys_exited = ready_runtime\<lparr>rt_state := RUNTIME_STOPPING, rt_owner := None\<rparr>"
  by (simp_all add: sys_exited_def sys_stopping_def sys_ready_def run_runtime_exit_def ready_runtime_def
      zero_runtime_def)

lemma sys_stopped_reachable: "rt_reachable sys_stopped"
proof -
  have "rt_reachable (sys_exited\<lparr>sending := [], joining := 1\<rparr>)"
    using rt_reachable.rt_next [OF sys_exited_reachable rt_step.stop_sent [of "Some 7"]]
    by (simp add: sys_exited_fields)
  from rt_reachable.rt_next [OF this rt_step.stop_join] show ?thesis
    by (simp add: sys_exited_fields sys_stopped_def)
qed

theorem published_runtime_safe_witness:
  "rt_reachable sys_stopped \<and> rt_state (rt sys_stopped) = RUNTIME_STOPPED \<and> joins sys_stopped = 1 \<and>
   \<not> g_runtime_active sys_stopped"
proof -
  have "rt_state (rt sys_stopped) = RUNTIME_STOPPED"
    by (simp add: sys_stopped_def runtime_stop_finish_def sys_exited_fields release_process_slot_def
        ready_runtime_def zero_runtime_def)
  with published_runtime_safe [OF sys_stopped_reachable] sys_stopped_reachable show ?thesis by simp
qed

text \<open>
  C17: A refused stop notification restores \<^verbatim>\<open>RUNTIME_READY\<close> without looking at what happened since.
  If the reactors exited in between, the runtime claims to be ready although its thread is gone, and
  the next acquire succeeds with a \<^verbatim>\<open>NULL\<close> owner.
\<close>

theorem refused_stop_grants_null_owner:
  "\<exists>s r'. rt_reachable s \<and> thread_done s \<and> rt_state (rt s) = RUNTIME_READY \<and>
     zettide_spdk_runtime_acquire True True (rt s) = Some (0, None, r')"
proof -
  let ?s = "final runtime_stop_resume (sys_exited\<lparr>sending := []\<rparr>)"
  have "rt_reachable ?s"
    using rt_reachable.rt_next [OF sys_exited_reachable rt_step.stop_refused [of 7]]
    by (simp add: sys_exited_fields)
  moreover have "rt ?s = ready_runtime\<lparr>rt_owner := None\<rparr>" "thread_done ?s"
    by (simp_all add: runtime_stop_resume_def sys_exited_fields ready_runtime_def)
  moreover have "zettide_spdk_runtime_acquire True True (ready_runtime\<lparr>rt_owner := None\<rparr>) =
      Some (0, None, ready_runtime\<lparr>rt_owner := None, rt_active_leases := 1\<rparr>)"
    by (simp add: zettide_spdk_runtime_acquire_def ready_runtime_def zero_runtime_def)
  ultimately show ?thesis
    by (intro exI [of _ ?s]) (simp add: ready_runtime_def)
qed






text \<open>
  C18: A runtime with leases out cannot be stopped: the call returns \<^verbatim>\<open>-EBUSY\<close> (\<^verbatim>\<open>-EIO\<close> when the
  reactors already failed) and leaves the runtime, the process slot and every resource as they were.
\<close>

theorem stop_refused_while_leased:
  assumes "rt_active_leases (rt w) \<noteq> 0" and "rt_state (rt w) = RUNTIME_READY \<or> rt_state (rt w) = RUNTIME_FAILED"
    and "env (log w) Pthread_setcancelstate = 0"
  shows "run_state (zettide_spdk_runtime_stop env True False) w =
    (if rt_state (rt w) = RUNTIME_READY then - EBUSY else - EIO,
     w\<lparr>log := log w @ [Pthread_setcancelstate, Pthread_setcancelstate]\<rparr>)"
  using assms by (auto simp: zettide_spdk_runtime_stop_def runtime_stop_enter_def)

theorem stop_refused_while_leased_witness:
  "result (zettide_spdk_runtime_stop healthy_env True False)
     (sys_ready\<lparr>rt := ready_runtime\<lparr>rt_active_leases := 2\<rparr>\<rparr>) = - EBUSY"
  using stop_refused_while_leased [of "sys_ready\<lparr>rt := ready_runtime\<lparr>rt_active_leases := 2\<rparr>\<rparr>" healthy_env]
  by (simp add: healthy_env_def ready_runtime_def zero_runtime_def)

subsection \<open>Round robin\<close>

text \<open>
  C19: Dispatcher leases go round robin: on a ready runtime any number of acquires in a row succeed,
  without an index out of bounds, and hand out the owners in the order of the table, starting over
  after the last one; the lease count grows by one for each.
\<close>

theorem acquire_dispatchers_round_robin:
  assumes "rt_state r = RUNTIME_READY" and "wf_owners r"
  shows "\<exists>r'. acquire_dispatchers k r =
      Some (map (\<lambda>i. owner_slots r ! ((unat (rt_next_dispatcher_owner r) + i) mod
                                      unat (rt_dispatcher_owner_count r))) [0..<k], r') \<and>
    rt_state r' = RUNTIME_READY \<and> wf_owners r' \<and>
    rt_active_leases r' = rt_active_leases r + of_nat k"
  using assms
proof (induction k arbitrary: r)
  case 0
  then show ?case by simp
next
  case (Suc k)
  let ?c = "unat (rt_dispatcher_owner_count r)" and ?n = "unat (rt_next_dispatcher_owner r)"
  let ?r = "r\<lparr>rt_next_dispatcher_owner :=
      (rt_next_dispatcher_owner r + 1) mod rt_dispatcher_owner_count r,
      rt_active_leases := rt_active_leases r + 1\<rparr>"
  note idx = wf_owners_index [OF Suc.prems(2)]
  have step: "zettide_spdk_runtime_acquire_dispatcher True True r = Some (0, owner_slots r ! ?n, ?r)"
    using Suc.prems idx by (simp add: zettide_spdk_runtime_acquire_dispatcher_def)
  have nxt: "unat ((rt_next_dispatcher_owner r + 1) mod rt_dispatcher_owner_count r) = (?n + 1) mod ?c"
    using Suc.prems(2) by (simp add: next_owner_less(2) wf_owners_def)
  have slots: "owner_slots ?r = owner_slots r"
    by (simp add: owner_slots_def)
  have shift: "(Suc ?n mod ?c + i) mod ?c = Suc (?n + i) mod ?c" for i
    by (metis add_Suc mod_add_left_eq)
  have "rt_state ?r = RUNTIME_READY" "wf_owners ?r"
    using Suc.prems by (simp_all add: wf_owners_acquire)
  from Suc.IH [OF this] have "\<exists>r'. acquire_dispatchers k ?r =
      Some (map (\<lambda>i. owner_slots r ! ((?n + Suc i) mod ?c)) [0..<k], r') \<and>
      rt_state r' = RUNTIME_READY \<and> wf_owners r' \<and>
      rt_active_leases r' = rt_active_leases r + 1 + of_nat k"
    unfolding slots by (simp add: nxt shift)
  then obtain r' where r':
    "acquire_dispatchers k ?r = Some (map (\<lambda>i. owner_slots r ! ((?n + Suc i) mod ?c)) [0..<k], r')"
    "rt_state r' = RUNTIME_READY" "wf_owners r'"
    "rt_active_leases r' = rt_active_leases r + 1 + of_nat k"
    by blast
  moreover have "map (\<lambda>i. owner_slots r ! ((?n + i) mod ?c)) [0..<Suc k] =
      (owner_slots r ! ?n) # map (\<lambda>i. owner_slots r ! ((?n + Suc i) mod ?c)) [0..<k]"
    using idx(2) by (simp add: map_upt_Suc del: upt_Suc)
  ultimately show ?case
    by (simp add: step add.commute add.left_commute)
qed

theorem acquire_dispatchers_round_robin_witness:
  "\<exists>r'. acquire_dispatchers 5 ready_runtime = Some ([Some 7, Some 9, Some 7, Some 9, Some 7], r') \<and>
     rt_active_leases r' = 5"
  using acquire_dispatchers_round_robin [of ready_runtime 5]
  by (auto simp: ready_runtime_def zero_runtime_def wf_owners_def owner_slots_def upt_rec)

end
