(* ===== verification/Client.thy ===== *)
theory Client
  imports Runtime Rendezvous
begin

text \<open>
  What \<^verbatim>\<open>bdev_provider.c\<close>, \<^verbatim>\<open>nvme_controller.c\<close> and \<^verbatim>\<open>nvmf_tcp_export.c\<close> share as clients of the runtime: the
  control lease each of them holds while its object exists, and the frame that their dispatch functions
  put around a command (the cancellation state, the mutex and the condition variable on the caller's
  stack).  The wait for the command is the hand-over of \<open>Rendezvous\<close>: when the message was accepted, the
  body of the frame is what the owner thread does with the command, and its result the status the
  command was completed with.
\<close>

subsection \<open>The lease\<close>

record client_world = world +
  client_rt :: runtime

definition acquire_control_lease :: "('x client_world_scheme, int \<times> thread option) state" where
  "acquire_control_lease = do {
     r \<leftarrow> gets client_rt;
     case zettide_spdk_runtime_acquire True True r of
       None \<Rightarrow> do { c_abort; ret (0, None) }
     | Some (status, owner, r') \<Rightarrow> do { modify (\<lambda>w. w\<lparr>client_rt := r'\<rparr>); ret (status, owner) }
   }"

definition release_control_lease :: "('x client_world_scheme, unit) state" where
  "release_control_lease = do {
     r \<leftarrow> gets client_rt;
     case zettide_spdk_runtime_release r of
       None \<Rightarrow> c_abort
     | Some r' \<Rightarrow> modify (\<lambda>w. w\<lparr>client_rt := r'\<rparr>)
   }"

abbreviation leases_held :: "'x client_world_scheme \<Rightarrow> u64" where
  "leases_held w \<equiv> rt_active_leases (client_rt w)"

definition runtime_ready :: "'x client_world_scheme \<Rightarrow> bool" where
  "runtime_ready w \<longleftrightarrow> rt_state (client_rt w) = RUNTIME_READY"

definition with_leases :: "u64 \<Rightarrow> 'x client_world_scheme \<Rightarrow> 'x client_world_scheme" where
  "with_leases k w = w\<lparr>client_rt := (client_rt w)\<lparr>rt_active_leases := k\<rparr>\<rparr>"

lemma with_leases_fields [simp]:
  "log (with_leases k w) = log w" "aborted (with_leases k w) = aborted w" "live (with_leases k w) = live w"
  "mailbox (with_leases k w) = mailbox w" "leases_held (with_leases k w) = k"
  "runtime_ready (with_leases k w) = runtime_ready w" "client_world.more (with_leases k w) = client_world.more w"
  "rt_owner (client_rt (with_leases k w)) = rt_owner (client_rt w)"
  by (simp_all add: with_leases_def runtime_ready_def)

lemma with_leases_twice [simp]: "with_leases k (with_leases l w) = with_leases k w"
  by (simp add: with_leases_def)

lemma with_leases_same [simp]: "with_leases (leases_held w) w = w"
  by (simp add: with_leases_def)

lemma acquire_control_lease_run:
  "run_state acquire_control_lease w =
     (if runtime_ready w then ((0, rt_owner (client_rt w)), with_leases (leases_held w + 1) w)
      else ((- ESHUTDOWN, None), w))"
  by (simp add: acquire_control_lease_def zettide_spdk_runtime_acquire_def runtime_ready_def with_leases_def)

lemma release_control_lease_run:
  "leases_held w \<noteq> 0 \<Longrightarrow> run_state release_control_lease w = ((), with_leases (leases_held w - 1) w)"
  by (simp add: release_control_lease_def zettide_spdk_runtime_release_def with_leases_def word_neq_0_conv)

subsection \<open>The frame of a command\<close>

definition command_frame :: "env \<Rightarrow> bool \<Rightarrow> ('x world_scheme, int) state \<Rightarrow> ('x world_scheme, int) state" where
  "command_frame env on_spdk_thread body =
     (if on_spdk_thread then ret (- EDEADLK)
      else do {
        rc \<leftarrow> ext env Pthread_setcancelstate;
        if rc \<noteq> 0 then ret (- rc)
        else do {
          rc \<leftarrow> ext env Pthread_mutex_init;
          if rc \<noteq> 0 then do { emit Pthread_setcancelstate; ret (- rc) }
          else do {
            hold Command_mutex;
            rc \<leftarrow> ext env Pthread_cond_init;
            if rc \<noteq> 0 then do {
              emit Pthread_mutex_destroy; give_back Command_mutex;
              emit Pthread_setcancelstate;
              ret (- rc)
            } else do {
              hold Command_condition;
              status \<leftarrow> body;
              emit Pthread_cond_destroy; give_back Command_condition;
              emit Pthread_mutex_destroy; give_back Command_mutex;
              emit Pthread_setcancelstate;
              ret status
            }
          }
        }
      })"

text \<open>
  Either the body did not run, with nothing changed but the log and a non-zero status, or it ran with
  the two objects of the frame held, which are given back afterwards; a fault of the body stays one.
\<close>

lemma command_frame_run:
  assumes "run_state (command_frame env on_spdk_thread body) w = (status, w')"
  shows "(\<exists>l. status \<noteq> 0 \<and> w' = w\<lparr>log := l\<rparr>) \<or>
    (\<exists>l l' v. run_state body (w\<lparr>log := l, live := Command_condition # Command_mutex # live w\<rparr>) = (status, v) \<and>
       (Command_condition \<in> set (live v) \<longrightarrow> Command_mutex \<in> set (live v) \<longrightarrow>
          w' = v\<lparr>log := l', live := remove1 Command_mutex (remove1 Command_condition (live v))\<rparr>) \<and>
       (aborted v \<longrightarrow> aborted w'))"
proof -
  let ?c = Pthread_setcancelstate and ?m = Pthread_mutex_init and ?d = Pthread_cond_init
  show ?thesis
  proof (cases "on_spdk_thread \<or> env (log w) ?c \<noteq> 0 \<or> env (log w @ [?c]) ?m \<noteq> 0 \<or> env (log w @ [?c, ?m]) ?d \<noteq> 0")
    case True
    then have "\<exists>l. status \<noteq> 0 \<and> w' = w\<lparr>log := l\<rparr>"
      using assms by (auto simp: command_frame_def intro!: exI [of _ "log w'"] split: if_splits)
    then show ?thesis ..
  next
    case False
    let ?w = "w\<lparr>log := log w @ [?c, ?m, ?d], live := Command_condition # Command_mutex # live w\<rparr>"
    obtain q v where v: "run_state body ?w = (q, v)" by (rule prod.exhaust)
    have "status = q"
      using False v assms by (auto simp: command_frame_def run_give_back split: if_splits)
    moreover have "w' = v\<lparr>log := log v @ [Pthread_cond_destroy, Pthread_mutex_destroy, Pthread_setcancelstate],
        live := remove1 Command_mutex (remove1 Command_condition (live v))\<rparr>"
      if "Command_condition \<in> set (live v)" "Command_mutex \<in> set (live v)"
      using False v assms that by (auto simp: command_frame_def)
    moreover have "aborted v \<longrightarrow> aborted w'"
      using False v assms by (auto simp: command_frame_def run_give_back split: if_splits)
    ultimately show ?thesis
      using v by blast
  qed
qed

end
