(* ===== verification/Provider.thy ===== *)
theory Provider
  imports Client Provider_IO
begin

text \<open>
  The lifecycle of a bdev provider in \<^verbatim>\<open>bdev_provider.c\<close>: the checks on its options, creation on the owner
  thread, and deletion, which is asynchronous.  A delete request takes a second lease for the time it is
  under way, and \<^verbatim>\<open>provider_delete_done\<close> returns both.  The request of a waiting delete lives on the
  caller's stack and may be gone as soon as the waiter has been told, so \<open>request_alive\<close> says whether it
  may still be read.
\<close>

subsection \<open>State\<close>

text \<open>Pointers whose target the sources do not read are flags: \<open>True\<close> when they are not \<^verbatim>\<open>NULL\<close>.\<close>

record provider_opts =
  po_opts_size :: size_t
  po_name :: "string option"
  po_block_size :: u32
  po_block_count :: u64
  po_write_unit_blocks :: u32
  po_max_io_blocks :: u32
  po_submit :: bool
  po_read_buffers_unchanged :: bool

text \<open>\<^verbatim>\<open>sizeof(struct zettide_spdk_bdev_provider_opts)\<close> under LP64.\<close>

definition sizeof_provider_opts :: size_t where
  "sizeof_provider_opts = 64"

record provider_delete =
  pd_complete :: bool
  pd_free_request :: bool

text \<open>\<open>delete_calls\<close> lists the statuses the completion of a delete was called with.\<close>

record prov_world = client_world +
  prov :: provider
  request :: provider_delete
  request_alive :: bool
  waiter :: "int option"
  delete_calls :: "int list"

subsection \<open>The bdev module\<close>

text \<open>
  A channel of the module carries no state.  Its shutdown is asynchronous: SPDK calls
  \<^verbatim>\<open>provider_module_fini_done\<close> once the last channel is gone.
\<close>

definition provider_channel_create :: "('x world_scheme, int) state" where
  "provider_channel_create = ret 0"

definition provider_channel_destroy :: "('x world_scheme, unit) state" where
  "provider_channel_destroy = ret ()"

definition provider_module_init :: "('x world_scheme, int) state" where
  "provider_module_init = do { emit Spdk_io_device_register; ret 0 }"

definition provider_module_fini_done :: "('x world_scheme, unit) state" where
  "provider_module_fini_done = emit Spdk_bdev_module_fini_done"

definition provider_module_fini :: "('x world_scheme, unit) state" where
  "provider_module_fini = emit Spdk_io_device_unregister"

text \<open>\<^verbatim>\<open>sizeof(struct provider_io)\<close> under LP64: six words, an \<^verbatim>\<open>int\<close>, a \<^verbatim>\<open>bool\<close> and an enumeration.\<close>

definition provider_get_ctx_size :: int where
  "provider_get_ctx_size = 64"

definition provider_get_io_channel :: "env \<Rightarrow> ('x world_scheme, int) state" where
  "provider_get_io_channel env = ext env Spdk_get_io_channel"

subsection \<open>The hand-over\<close>

definition provider_complete_command :: "int \<Rightarrow> 'x command_scheme \<Rightarrow> ('x command_scheme \<times> bool) option" where
  "provider_complete_command status c =
     (if cm_completed c then None
      else Some (c\<lparr>cm_status := status, cm_completed := True\<rparr>, \<not> cm_owner_active c))"

definition provider_owner_done :: "'x command_scheme \<Rightarrow> 'x command_scheme \<times> bool" where
  "provider_owner_done c = (c\<lparr>cm_owner_active := False\<rparr>, cm_completed c)"

definition provider_command_waits :: "'x command_scheme \<Rightarrow> bool" where
  "provider_command_waits c \<longleftrightarrow> \<not> cm_completed c \<or> cm_owner_active c"

interpretation provider_command_handover: rendezvous
  provider_complete_command provider_owner_done provider_command_waits cm_status cm_completed cm_owner_active
  by unfold_locales (auto simp: provider_complete_command_def provider_owner_done_def provider_command_waits_def)

subsection \<open>Creation\<close>

definition provider_of :: "provider_opts \<Rightarrow> provider" where
  "provider_of opts = \<lparr>pv_name = the (po_name opts), pv_write_cache = True, pv_blocklen = po_block_size opts,
     pv_phys_blocklen = po_block_size opts, pv_blockcnt = po_block_count opts,
     pv_write_unit_size = po_write_unit_blocks opts, pv_max_rw_size = po_max_io_blocks opts,
     pv_read_buffers_unchanged = po_read_buffers_unchanged opts\<rparr>"

definition create_provider :: "env \<Rightarrow> provider_opts \<Rightarrow> ('x prov_world_scheme, int) state" where
  "create_provider env opts = do {
     ok \<leftarrow> alloc env (Calloc Provider_obj) Provider_obj;
     if \<not> ok then ret (- ENOMEM)
     else do {
       ok \<leftarrow> alloc env (Strdup Provider_name) Provider_name;
       if \<not> ok then do { free_ptr True Provider_obj; ret (- ENOMEM) }
       else do {
         modify (\<lambda>w. w\<lparr>prov := provider_of opts\<rparr>);
         status \<leftarrow> ext env Spdk_bdev_register;
         if status \<noteq> 0 then do {
           free_ptr True Provider_name;
           free_ptr True Provider_obj;
           ret status
         } else do { hold Provider_registration; ret 0 }
       }
     }
   }"

text \<open>The enumeration has one name; \<open>Unknown_operation\<close> stands for the other values of its type.\<close>

datatype provider_command_operation = PROVIDER_CREATE | Unknown_operation

definition run_provider_command ::
    "env \<Rightarrow> provider_command_operation \<Rightarrow> provider_opts \<Rightarrow> ('x prov_world_scheme, int) state" where
  "run_provider_command env operation opts =
     (case operation of
        PROVIDER_CREATE \<Rightarrow> create_provider env opts
      | Unknown_operation \<Rightarrow> ret (- EINVAL))"

definition dispatch_provider_command ::
    "env \<Rightarrow> bool \<Rightarrow> thread option \<Rightarrow> provider_command_operation \<Rightarrow> provider_opts \<Rightarrow> ('x prov_world_scheme, int) state" where
  "dispatch_provider_command env on_spdk_thread owner operation opts =
     command_frame env on_spdk_thread (do {
       rc \<leftarrow> ext env (Spdk_thread_send_msg owner Run_provider_command);
       if rc \<noteq> 0 then do { c_abort; ret rc }
       else run_provider_command env operation opts
     })"

definition provider_opts_invalid :: "provider_opts \<Rightarrow> bool" where
  "provider_opts_invalid opts \<longleftrightarrow>
     po_opts_size opts \<noteq> sizeof_provider_opts \<or> po_name opts = None \<or> \<not> po_submit opts \<or>
     po_block_size opts < 512 \<or> po_block_size opts AND (po_block_size opts - 1) \<noteq> 0 \<or>
     po_block_count opts = 0 \<or> po_write_unit_blocks opts = 0 \<or> po_max_io_blocks opts = 0 \<or>
     po_block_count opts > UINT64_MAX div ucast (po_block_size opts) \<or>
     ucast (po_max_io_blocks opts) > SIZE_MAX div (ucast (po_block_size opts) :: size_t) \<or>
     ucast (po_write_unit_blocks opts) > po_block_count opts"

text \<open>The result says, with the status, whether \<^verbatim>\<open>*provider_out\<close> is the new provider.\<close>

definition zettide_spdk_bdev_provider_create ::
    "env \<Rightarrow> bool \<Rightarrow> bool \<Rightarrow> provider_opts option \<Rightarrow> bool \<Rightarrow> ('x prov_world_scheme, int \<times> bool) state" where
  "zettide_spdk_bdev_provider_create env on_spdk_thread runtime opts provider_out =
     (if \<not> runtime \<or> opts = None \<or> \<not> provider_out \<or> provider_opts_invalid (the opts) then ret (- EINVAL, False)
      else do {
        acq \<leftarrow> acquire_control_lease;
        if fst acq \<noteq> 0 then ret (fst acq, False)
        else do {
          status \<leftarrow> dispatch_provider_command env on_spdk_thread (snd acq) PROVIDER_CREATE (the opts);
          if status \<noteq> 0 then do { release_control_lease; ret (status, False) }
          else ret (0, True)
        }
      })"

subsection \<open>Deletion\<close>

text \<open>
  The loop that sends the request, again while SPDK answers \<^verbatim>\<open>-ENOMEM\<close> if the caller asks for it;
  \<open>None\<close>: it is still trying after \<open>fuel\<close> rounds.
\<close>

fun send_delete_loop :: "env \<Rightarrow> nat \<Rightarrow> thread option \<Rightarrow> bool \<Rightarrow> ('x prov_world_scheme, int option) state" where
  "send_delete_loop env 0 owner retry_allocation = ret None"
| "send_delete_loop env (Suc fuel) owner retry_allocation = do {
     status \<leftarrow> send_msg env owner Provider_start_delete;
     if status = - ENOMEM \<and> retry_allocation then do {
       emit Sched_yield;
       send_delete_loop env fuel owner retry_allocation
     } else ret (Some status)
   }"

definition submit_provider_delete :: "env \<Rightarrow> nat \<Rightarrow> bool \<Rightarrow> ('x prov_world_scheme, int option) state" where
  "submit_provider_delete env fuel retry_allocation = do {
     acq \<leftarrow> acquire_control_lease;
     if fst acq \<noteq> 0 then ret (Some (fst acq))
     else do {
       r \<leftarrow> send_delete_loop env fuel (snd acq) retry_allocation;
       case r of
         None \<Rightarrow> ret None
       | Some status \<Rightarrow> do { whenM (status \<noteq> 0) release_control_lease; ret (Some status) }
     }
   }"

definition provider_start_delete :: "('x prov_world_scheme, unit) state" where
  "provider_start_delete = do {
     alive \<leftarrow> gets request_alive;
     c_assert alive;
     emit Spdk_bdev_unregister
   }"

definition provider_destruct :: "('x prov_world_scheme, int) state" where
  "provider_destruct = do {
     free_ptr True Provider_name;
     free_ptr True Provider_obj;
     ret 0
   }"

text \<open>
  The waiter is told; from then on the caller of \<^verbatim>\<open>zettide_spdk_bdev_provider_delete_wait\<close> may return, and
  the request, which is on its stack, is gone.
\<close>

definition provider_delete_wait_complete :: "int \<Rightarrow> ('x prov_world_scheme, unit) state" where
  "provider_delete_wait_complete status = modify (\<lambda>w. w\<lparr>waiter := Some status, request_alive := False\<rparr>)"

text \<open>
  The callback of a request that is freed is the caller's, that of one on the stack tells the waiter.
\<close>

definition delete_callback :: "bool \<Rightarrow> int \<Rightarrow> ('x prov_world_scheme, unit) state" where
  "delete_callback heap status =
     do {
       modify (\<lambda>w. w\<lparr>delete_calls := delete_calls w @ [status]\<rparr>);
       if heap then ret () else provider_delete_wait_complete status
     }"

definition provider_delete_done :: "int \<Rightarrow> ('x prov_world_scheme, unit) state" where
  "provider_delete_done status = do {
     alive \<leftarrow> gets request_alive;
     c_assert alive;
     req \<leftarrow> gets request;
     let free_request = pd_free_request req;
     release_control_lease;
     release_control_lease;
     alive \<leftarrow> gets request_alive;
     c_assert alive;
     whenM (pd_complete req) (delete_callback (pd_free_request req) status);
     whenM free_request (do {
       modify (\<lambda>w. w\<lparr>request_alive := False\<rparr>);
       free_ptr True Delete_request
     })
   }"

definition zettide_spdk_bdev_provider_delete ::
    "env \<Rightarrow> bool \<Rightarrow> bool \<Rightarrow> bool \<Rightarrow> ('x prov_world_scheme, int) state" where
  "zettide_spdk_bdev_provider_delete env on_spdk_thread provider complete =
     (if \<not> provider \<or> on_spdk_thread then ret (if \<not> provider then - EINVAL else - EDEADLK)
      else do {
        ok \<leftarrow> alloc env (Calloc Delete_request) Delete_request;
        if \<not> ok then ret (- ENOMEM)
        else do {
          modify (\<lambda>w. w\<lparr>request := \<lparr>pd_complete = complete, pd_free_request = True\<rparr>, request_alive := True\<rparr>);
          r \<leftarrow> submit_provider_delete env 1 False;
          case r of
            None \<Rightarrow> do { c_abort; ret 0 }
          | Some status \<Rightarrow> do { whenM (status \<noteq> 0) (free_ptr True Delete_request); ret status }
        }
      })"

text \<open>
  What follows an accepted request: the owner thread takes the message, and SPDK destructs the provider
  and calls back once the last consumer has closed it.
\<close>

definition serve_delete :: "int \<Rightarrow> ('x prov_world_scheme, unit) state" where
  "serve_delete status = do {
     r \<leftarrow> gets client_rt;
     ms \<leftarrow> gets mailbox;
     c_assert ((rt_owner r, Provider_start_delete) \<in> set ms);
     modify (\<lambda>w. w\<lparr>mailbox := remove1 (rt_owner r, Provider_start_delete) ms\<rparr>);
     provider_start_delete;
     give_back Provider_registration;
     provider_destruct;
     provider_delete_done status
   }"

text \<open>
  The waiting delete: \<open>None\<close> when it does not return, because it is still retrying or the waiter was not
  told.  Once the request was accepted, the owner and SPDK serve it while the caller polls the waiter.
\<close>

definition zettide_spdk_bdev_provider_delete_wait ::
    "env \<Rightarrow> nat \<Rightarrow> bool \<Rightarrow> bool \<Rightarrow> int \<Rightarrow> ('x prov_world_scheme, int option) state" where
  "zettide_spdk_bdev_provider_delete_wait env fuel on_spdk_thread provider unregister_status =
     (if \<not> provider \<or> on_spdk_thread then ret (Some (if \<not> provider then - EINVAL else - EDEADLK))
      else do {
        rc \<leftarrow> ext env Pthread_setcancelstate;
        c_assert (rc = 0);
        modify (\<lambda>w. w\<lparr>request := \<lparr>pd_complete = True, pd_free_request = False\<rparr>, request_alive := True, waiter := None\<rparr>);
        r \<leftarrow> submit_provider_delete env fuel True;
        r \<leftarrow> (if r = Some 0 then do { serve_delete unregister_status; gets waiter } else ret r);
        case r of
          None \<Rightarrow> ret None
        | Some status \<Rightarrow> do {
            rc \<leftarrow> ext env Pthread_setcancelstate;
            c_assert (rc = 0);
            ret (Some status)
          }
      })"

end
