(* ===== verification/Provider_Life.thy ===== *)
theory Provider_Life
  imports Provider "HOL-Library.Multiset"
begin

unbundle bit_operations_syntax

text \<open>
  What the lifecycle of a provider guarantees: which options are accepted and what that gives the I/O
  path, that creation and deletion return every lease and every object, and that the waiting delete
  returns although it retries.
\<close>

subsection \<open>Options\<close>

text \<open>The test \<^verbatim>\<open>(n & (n - 1)) == 0\<close> for powers of two.\<close>

lemma nat_and_pred_eq_0: "0 < n \<Longrightarrow> n AND (n - 1) = 0 \<longleftrightarrow> (\<exists>k. n = 2 ^ k)" for n :: nat
proof (induction n rule: less_induct)
  case (less n)
  show ?case
  proof (cases "even n")
    case True
    then obtain m where m: "n = 2 * m" by (elim evenE)
    with less.prems have "0 < m" "m < n" by simp_all
    have "n - 1 = Suc (2 * (m - 1))" using m \<open>0 < m\<close> by (cases m) simp_all
    then have "n AND (n - 1) = 2 * (m AND (m - 1))"
      using m by (simp add: and_nat_rec [of "2 * m"])
    then have "n AND (n - 1) = 0 \<longleftrightarrow> (\<exists>k. m = 2 ^ k)"
      using less.IH [OF \<open>m < n\<close> \<open>0 < m\<close>] by simp
    also have "\<dots> \<longleftrightarrow> (\<exists>k. n = 2 ^ k)"
    proof
      assume "\<exists>k. n = 2 ^ k"
      then obtain k where k: "2 * m = 2 ^ k" using m by auto
      then have "k \<noteq> 0" using \<open>0 < m\<close> by (cases k) simp_all
      then show "\<exists>k. m = 2 ^ k" using k by (cases k) auto
    qed (auto simp: m intro: exI [of _ "Suc k" for k])
    finally show ?thesis .
  next
    case False
    then obtain m where m: "n = Suc (2 * m)" by (elim oddE) simp
    then have "n AND (n - 1) = 2 * m"
      by (simp add: and_nat_rec [of "Suc (2 * m)"])
    moreover have "(\<exists>k. n = 2 ^ k) \<longleftrightarrow> m = 0"
    proof
      assume "\<exists>k. n = 2 ^ k"
      then obtain k where "Suc (2 * m) = 2 ^ k" using m by auto
      then show "m = 0" by (cases k) (simp_all, presburger)
    qed (auto simp: m intro: exI [of _ 0])
    ultimately show ?thesis by simp
  qed
qed

lemma word_and_pred_eq_0:
  fixes n :: "'a::len word"
  assumes "n \<noteq> 0"
  shows "n AND (n - 1) = 0 \<longleftrightarrow> (\<exists>k. unat n = 2 ^ k)"
proof -
  have "unat (n - 1) = unat n - 1"
    using assms by (metis unat_minus_one)
  then have "unat (n AND (n - 1)) = unat n AND (unat n - 1)"
    by (simp add: unsigned_and_eq)
  moreover have "0 < unat n" using assms by (simp add: unat_gt_0)
  ultimately show ?thesis
    using nat_and_pred_eq_0 [of "unat n"] by (metis unat_eq_0)
qed

lemma max_div_iff:
  fixes c s :: u64
  assumes "s \<noteq> 0"
  shows "c > UINT64_MAX div s \<longleftrightarrow> 2 ^ 64 \<le> unat c * unat s"
proof (cases "c \<le> UINT64_MAX div s")
  case True
  then have "unat c * unat s = unat (c * s)" by (rule unat_mult_le_max_div [OF assms, symmetric])
  also have "\<dots> < 2 ^ 64" using unsigned_less [of "c * s", where ?'a = nat] by simp
  finally show ?thesis using True by (simp add: not_less)
next
  case False
  with max_div_less_mult_overflow [OF assms False] show ?thesis by (simp add: not_le)
qed

text \<open>
  C33: The options of a provider.  They pass exactly when the structure has the right size, the name and
  the submit function are given, the block size is a power of two of at least 512 bytes, no count is
  zero, the write unit is not larger than the device, and neither the device nor the largest I/O has
  \<open>2 ^ 64\<close> bytes or more, all in the natural numbers.
\<close>

theorem provider_opts_valid_iff:
  "\<not> provider_opts_invalid opts \<longleftrightarrow>
     po_opts_size opts = sizeof_provider_opts \<and> po_name opts \<noteq> None \<and> po_submit opts \<and>
     (\<exists>k. unat (po_block_size opts) = 2 ^ k) \<and> 512 \<le> unat (po_block_size opts) \<and>
     0 < unat (po_block_count opts) \<and> 0 < unat (po_write_unit_blocks opts) \<and> 0 < unat (po_max_io_blocks opts) \<and>
     unat (po_block_count opts) * unat (po_block_size opts) < 2 ^ 64 \<and>
     unat (po_max_io_blocks opts) * unat (po_block_size opts) < 2 ^ 64 \<and>
     unat (po_write_unit_blocks opts) \<le> unat (po_block_count opts)"
proof (cases "po_block_size opts < 512")
  case True
  then show ?thesis by (simp add: provider_opts_invalid_def word_less_nat_alt)
next
  case False
  then have s: "po_block_size opts \<noteq> 0" by auto
  then have s': "(ucast (po_block_size opts) :: u64) \<noteq> 0" by simp
  show ?thesis
    using False unfolding provider_opts_invalid_def max_div_iff [OF s'] word_and_pred_eq_0 [OF s]
    by (auto simp: word_less_nat_alt not_less not_le unat_gt_0)
qed

lemma valid_block_size: "\<not> provider_opts_invalid opts \<Longrightarrow> pv_blocklen (provider_of opts) \<noteq> 0"
  by (auto simp: provider_opts_invalid_def provider_of_def)

lemma blocks_fit:
  assumes "\<not> provider_opts_invalid opts" and "unat n \<le> unat (po_block_count opts)"
  shows "\<not> n > UINT64_MAX div ucast (pv_blocklen (provider_of opts))"
proof -
  let ?s = "ucast (po_block_size opts) :: u64"
  have s: "?s \<noteq> 0" using valid_block_size [OF assms(1)] by (simp add: provider_of_def)
  have "\<not> po_block_count opts > UINT64_MAX div ?s"
    using assms(1) by (simp add: provider_opts_invalid_def)
  then have "unat (po_block_count opts) * unat ?s < 2 ^ 64"
    unfolding max_div_iff [OF s] by simp
  moreover have "unat n * unat ?s \<le> unat (po_block_count opts) * unat ?s"
    using assms(2) by (rule mult_le_mono1)
  ultimately show ?thesis
    unfolding provider_of_def provider.simps max_div_iff [OF s] by linarith
qed

text \<open>
  C34: The I/O path of a created provider.  An I/O inside a device whose options were accepted never
  overflows; a read or write from one piece of memory is handed to the backend in place, with the
  caller's buffer and the exact byte range, and allocates nothing.
\<close>

theorem created_provider_direct_io:
  assumes "\<not> provider_opts_invalid opts" and "pv w = provider_of opts"
    and "bdev_ios w n = Some b" and "unat (bio_offset_blocks b) + unat (bio_num_blocks b) \<le> unat (po_block_count opts)"
    and "bio_iovs b = [\<lparr>iov_base = a, iov_len = len\<rparr>]" and "a \<noteq> 0"
    and "unat (bio_num_blocks b) * unat (po_block_size opts) \<le> unat len"
    and "\<forall>l op off buf sz. env l (Backend_submit op off buf sz n) = 0" and "operation \<in> {PROVIDER_READ, PROVIDER_WRITE}"
  shows "\<exists>w' offset count. run_state (submit_provider_io env fuel self n operation) w = ((), w') \<and>
    backend_ios w' = n # backend_ios w \<and> live w' = live w \<and> pmem w' = pmem w \<and>
    log w' = log w @ [Backend_submit operation offset a count n] \<and>
    unat offset = unat (bio_offset_blocks b) * unat (po_block_size opts) \<and>
    unat count = unat (bio_num_blocks b) * unat (po_block_size opts)"
proof -
  let ?s = "ucast (po_block_size opts) :: u64"
  have s: "?s \<noteq> 0" using valid_block_size [OF assms(1)] by (simp add: provider_of_def)
  have fit: "\<not> bio_num_blocks b > UINT64_MAX div ?s" "\<not> bio_offset_blocks b > UINT64_MAX div ?s"
    using blocks_fit [OF assms(1), of "bio_num_blocks b"] blocks_fit [OF assms(1), of "bio_offset_blocks b"] assms(4)
    by (simp_all add: provider_of_def)
  have bytes: "unat (bio_num_blocks b * ?s) = unat (bio_num_blocks b) * unat (po_block_size opts)"
    "unat (bio_offset_blocks b * ?s) = unat (bio_offset_blocks b) * unat (po_block_size opts)"
    using fit by (simp_all add: unat_mult_le_max_div [OF s] not_less)
  have "single_iov_buffer b (bio_num_blocks b * ?s) = a"
    using assms(5,7) bytes by (simp add: single_iov_buffer_def word_less_nat_alt)
  moreover have "pv_blocklen (pv w) = po_block_size opts" by (simp add: assms(2) provider_of_def)
  ultimately have "run_state (submit_provider_io env fuel self n operation) w =
      ((), final (submit_provider_io env fuel self n operation) w) \<and>
    backend_ios (final (submit_provider_io env fuel self n operation) w) = n # backend_ios w \<and>
    live (final (submit_provider_io env fuel self n operation) w) = live w \<and>
    pmem (final (submit_provider_io env fuel self n operation) w) = pmem w \<and>
    log (final (submit_provider_io env fuel self n operation) w) =
      log w @ [Backend_submit operation (bio_offset_blocks b * ?s) a (bio_num_blocks b * ?s) n]"
    using assms(3,6,8,9) fit
    by (auto simp: submit_provider_io_def provider_buffer_def submit_filled_def submit_to_backend_def get_io_def get_bdev_io_def
        update_io_def new_provider_io_def Let_def)
  then show ?thesis using bytes by blast
qed

text \<open>A provider of 64 blocks of 512 bytes, and a read of its blocks 3 and 4.\<close>

definition example_opts :: provider_opts where
  "example_opts = \<lparr>po_opts_size = 64, po_name = Some ''vol'', po_block_size = 512, po_block_count = 64,
     po_write_unit_blocks = 1, po_max_io_blocks = 16, po_submit = True, po_read_buffers_unchanged = False\<rparr>"

lemma example_opts_valid: "\<not> provider_opts_invalid example_opts"
  by (simp add: provider_opts_invalid_def example_opts_def sizeof_provider_opts_def word_less_nat_alt
      unat_div unsigned_minus_1_eq_mask mask_eq_exp_minus_1)

definition direct_bio :: bdev_io where
  "direct_bio = \<lparr>bio_type = IO_TYPE_READ, bio_iovs = [\<lparr>iov_base = 0x1000, iov_len = 1024\<rparr>], bio_offset_blocks = 3,
     bio_num_blocks = 2, bio_thread = Some 7\<rparr>"

definition direct_world :: pio_world where
  "direct_world = \<lparr>log = [], aborted = False, live = [], mailbox = [], pv = provider_of example_opts,
     bdev_ios = (\<lambda>_. Some direct_bio), ios = (\<lambda>_. None), pmem = (\<lambda>_. 0), completed_ios = [], backend_ios = [], get_buf_ios = []\<rparr>"

theorem created_provider_direct_io_witness:
  "\<exists>w' offset count. run_state (submit_provider_io (\<lambda>_ _. 0) 0 (Some 7) 1 PROVIDER_READ) direct_world = ((), w') \<and>
     backend_ios w' = [1] \<and> log w' = [Backend_submit PROVIDER_READ offset 0x1000 count 1] \<and> unat offset = 1536 \<and> unat count = 1024"
  using created_provider_direct_io [OF example_opts_valid, of direct_world 1 direct_bio "0x1000" 1024 "\<lambda>_ _. 0" PROVIDER_READ 0 "Some 7"]
  by (auto simp: direct_world_def direct_bio_def example_opts_def)

subsection \<open>Creating a provider\<close>

abbreviation provider_objs :: "obj list" where
  "provider_objs \<equiv> [Provider_registration, Provider_name, Provider_obj]"





subsection \<open>Deleting a provider\<close>


text \<open>Serving an accepted request: both leases and all objects of the provider are given back.\<close>

lemma serve_delete_run:
  assumes "request_alive w" and "(rt_owner (client_rt w), Provider_start_delete) \<in> set (mailbox w)"
    and "live w = xs @ provider_objs @ ms" and "xs = (if pd_free_request (request w) then [Delete_request] else [])"
    and "1 < unat (leases_held w)" and "pd_complete (request w) \<or> pd_free_request (request w)"
  shows "\<exists>l. run_state (serve_delete status) w = ((), (with_leases (leases_held w - 2) w)\<lparr>log := l,
      mailbox := remove1 (rt_owner (client_rt w), Provider_start_delete) (mailbox w), live := ms, request_alive := False,
      waiter := (if pd_free_request (request w) then waiter w else Some status),
      delete_calls := delete_calls w @ (if pd_complete (request w) then [status] else [])\<rparr>)"
proof -
  define k where "k = leases_held w - 1"
  have held: "leases_held w \<noteq> 0" "k \<noteq> 0" "leases_held w - 2 = k - 1"
    using assms(5) by (auto simp: k_def)
  show ?thesis
  proof (cases "pd_free_request (request w)")
    case True
    with assms(3,4) have "live w = Delete_request # provider_objs @ ms" by simp
    with assms(1,2) held True show ?thesis
      by (intro exI [of _ "log (final (serve_delete status) w)"], cases "pd_complete (request w)")
        (simp_all add: serve_delete_def provider_start_delete_def provider_destruct_def provider_delete_done_def
          release_control_lease_run k_def [symmetric] with_leases_def delete_callback_def Let_def)
  next
    case False
    with assms(3,4) have "live w = provider_objs @ ms" by simp
    with assms(1,2,6) held False show ?thesis
      by (intro exI [of _ "log (final (serve_delete status) w)"])
        (simp add: serve_delete_def provider_start_delete_def provider_destruct_def provider_delete_done_def
          release_control_lease_run k_def [symmetric] with_leases_def delete_callback_def provider_delete_wait_complete_def Let_def)
  qed
qed








text \<open>Whatever it is answered, the loop only sends; and a waiting delete that returns has deleted the provider or left it.\<close>

lemma send_delete_loop_outcome:
  "run_state (send_delete_loop env fuel t retry) w = (Some st, w') \<Longrightarrow>
    \<exists>l. w' = w\<lparr>log := l, mailbox := mailbox w @ (if st = 0 then [(t, Provider_start_delete)] else [])\<rparr>"
proof (induction fuel arbitrary: w)
  case (Suc fuel)
  let ?s = "Spdk_thread_send_msg t Provider_start_delete"
  show ?case
  proof (cases "env (log w) ?s = - ENOMEM \<and> retry")
    case True
    with Suc.prems have "run_state (send_delete_loop env fuel t retry) (w\<lparr>log := log w @ [?s, Sched_yield]\<rparr>) = (Some st, w')"
      by (simp add: Let_def)
    from Suc.IH [OF this] obtain l where
      "w' = w\<lparr>log := l, mailbox := mailbox w @ (if st = 0 then [(t, Provider_start_delete)] else [])\<rparr>" by auto
    then show ?thesis ..
  next
    case False
    with Suc.prems show ?thesis
      by (intro exI [of _ "log w @ [?s]"]) (auto simp: Let_def split: if_splits)
  qed
qed simp

lemma submit_delete_run:
  assumes "run_state (submit_provider_delete env fuel retry) w = (Some st, w')" and "leases_held w \<noteq> UINT64_MAX"
  shows "\<exists>l. w' = (if st = 0 then (with_leases (leases_held w + 1) w)\<lparr>log := l,
      mailbox := mailbox w @ [(rt_owner (client_rt w), Provider_start_delete)]\<rparr> else w\<lparr>log := l\<rparr>) \<and> (st = 0 \<longrightarrow> runtime_ready w)"
proof (cases "runtime_ready w")
  case False
  with assms(1) show ?thesis by (intro exI [of _ "log w"]) (auto simp: submit_provider_delete_def acquire_control_lease_run)
next
  case True
  let ?t = "rt_owner (client_rt w)"
  have held: "leases_held w + 1 \<noteq> 0" using assms(2) by (metis add_eq_0_iff2)
  obtain q u where q: "run_state (send_delete_loop env fuel ?t retry) (with_leases (leases_held w + 1) w) = (q, u)" by (rule prod.exhaust)
  with True assms(1) have st: "q = Some st" "w' = (if st = 0 then u else final release_control_lease u)"
    by (auto simp: submit_provider_delete_def acquire_control_lease_run split: option.splits if_splits prod.splits)
  from send_delete_loop_outcome [OF q [unfolded st(1)]] obtain l where
    "u = (with_leases (leases_held w + 1) w)\<lparr>log := l, mailbox := mailbox w @ (if st = 0 then [(?t, Provider_start_delete)] else [])\<rparr>"
    by auto
  with st True held show ?thesis
    by (intro exI [of _ l]) (simp add: release_control_lease_run with_leases_def)
qed

text \<open>The world in which the waiting delete submits its request, which is on the stack of the caller.\<close>

definition wait_world :: "'x prov_world_scheme \<Rightarrow> 'x prov_world_scheme" where
  "wait_world w = w\<lparr>log := log w @ [Pthread_setcancelstate],
     request := \<lparr>pd_complete = True, pd_free_request = False\<rparr>, request_alive := True, waiter := None\<rparr>"

lemma delete_wait_submitted:
  assumes "\<forall>l. env l Pthread_setcancelstate = 0" and "\<not> aborted w" and "live w = provider_objs @ ms"
    and "0 < unat (leases_held w)" and "unat (leases_held w) + 1 < 2 ^ 64"
    and q: "run_state (submit_provider_delete env fuel True) (wait_world w) = (Some s, v)"
  shows "\<exists>w'. run_state (zettide_spdk_bdev_provider_delete_wait env fuel False True status) w = (Some (if s = 0 then status else s), w') \<and>
    \<not> aborted w' \<and> mset (mailbox w') = mset (mailbox w) \<and>
    (if s = 0 then live w' = ms \<and> client_rt w' = (client_rt w)\<lparr>rt_active_leases := leases_held w - 1\<rparr> \<and> waiter w' = Some status \<and> \<not> request_alive w'
     else live w' = live w \<and> client_rt w' = client_rt w \<and> mailbox w' = mailbox w \<and> waiter w' = None)"
proof -
  define x where "x = wait_world w"
  have x: "leases_held x = leases_held w" "live x = provider_objs @ ms" "request_alive x" "\<not> aborted x" "waiter x = None"
    "client_rt x = client_rt w" "mailbox x = mailbox w" "request x = \<lparr>pd_complete = True, pd_free_request = False\<rparr>"
    using assms(2,3) by (simp_all add: x_def wait_world_def)
  have held: "unat (leases_held w + 1) = unat (leases_held w) + 1" "leases_held x \<noteq> UINT64_MAX"
    using assms(5) by (auto simp: unat_word_ariths x unsigned_minus_1_eq_mask mask_eq_exp_minus_1)
  from submit_delete_run [OF q [folded x_def] held(2)] obtain l where
    v: "v = (if s = 0 then (with_leases (leases_held x + 1) x)\<lparr>log := l,
      mailbox := mailbox x @ [(rt_owner (client_rt x), Provider_start_delete)]\<rparr> else x\<lparr>log := l\<rparr>)" by auto
  have wait: "run_state (zettide_spdk_bdev_provider_delete_wait env fuel False True status) w =
      run_state (do {
        r \<leftarrow> (if s = 0 then do { serve_delete status; gets waiter } else ret (Some s));
        case r of
          None \<Rightarrow> ret None
        | Some status \<Rightarrow> do { rc \<leftarrow> ext env Pthread_setcancelstate; c_assert (rc = 0); ret (Some status) }}) v"
    using assms(1) q by (simp add: zettide_spdk_bdev_provider_delete_wait_def wait_world_def)
  show ?thesis
  proof (cases "s = 0")
    case True
    have v': "request_alive v" "(rt_owner (client_rt v), Provider_start_delete) \<in> set (mailbox v)" "live v = [] @ provider_objs @ ms"
      "1 < unat (leases_held v)" "pd_complete (request v)" "\<not> pd_free_request (request v)" "leases_held v = leases_held w + 1"
      "\<not> aborted v" "client_rt v = (client_rt w)\<lparr>rt_active_leases := leases_held w + 1\<rparr>"
      "mailbox v = mailbox w @ [(rt_owner (client_rt w), Provider_start_delete)]"
      using v True x held assms(4) by (simp_all add: with_leases_def)
    obtain l' where "run_state (serve_delete status) v = ((), (with_leases (leases_held w - 1) v)\<lparr>log := l',
        mailbox := remove1 (rt_owner (client_rt v), Provider_start_delete) (mailbox v), live := ms, request_alive := False,
        waiter := Some status, delete_calls := delete_calls v @ [status]\<rparr>)"
      using serve_delete_run [OF v'(1-3) _ v'(4), of status] v'(5-7) by auto
    with wait True v'(8-10) assms(1) show ?thesis by (simp add: with_leases_def)
  next
    case False
    with wait v x assms(1,3) show ?thesis by simp
  qed
qed

lemma provider_delete_wait_run:
  assumes run: "run_state (zettide_spdk_bdev_provider_delete_wait env fuel on_spdk True status) w = (Some st, w')"
    and "\<forall>l. env l Pthread_setcancelstate = 0" and "\<not> aborted w" and "live w = provider_objs @ ms" and "waiter w = None"
    and "0 < unat (leases_held w)" and "unat (leases_held w) + 1 < 2 ^ 64"
  shows "\<not> aborted w' \<and>
    (if waiter w' \<noteq> None then live w' = ms \<and> client_rt w' = (client_rt w)\<lparr>rt_active_leases := leases_held w - 1\<rparr>
     else live w' = live w \<and> client_rt w' = client_rt w \<and> mailbox w' = mailbox w)"
proof (cases on_spdk)
  case True
  with assms show ?thesis by (simp add: zettide_spdk_bdev_provider_delete_wait_def)
next
  case False
  obtain q v where q: "run_state (submit_provider_delete env fuel True) (wait_world w) = (q, v)" by (rule prod.exhaust)
  have "q \<noteq> None"
    using run assms(2) False q by (cases q) (auto simp: zettide_spdk_bdev_provider_delete_wait_def wait_world_def)
  then obtain s where "q = Some s" by blast
  from delete_wait_submitted [OF assms(2-4,6,7) q [unfolded this], of status] run False show ?thesis
    by (auto split: if_splits)
qed





end
