(* ===== verification/CString.thy ===== *)
theory CString
  imports Prelude
begin

text \<open>
  The C strings that the controller and the export check and copy.  A pointer is the list of the bytes
  that may be read from it, so that a string that is not terminated, or an access past the end, is
  visible: \<open>None\<close> is an access out of bounds.  The sizes of the arrays of SPDK's structures, and the
  limits its headers define, are parameters.
\<close>

subsection \<open>Library functions\<close>

abbreviation NUL :: char where "NUL \<equiv> CHR 0x00"

type_synonym cstring = "char list"

fun strnlen :: "cstring \<Rightarrow> nat \<Rightarrow> nat option" where
  "strnlen s 0 = Some 0"
| "strnlen [] (Suc n) = None"
| "strnlen (c # s) (Suc n) = (if c = NUL then Some 0 else map_option Suc (strnlen s n))"

fun strlen :: "cstring \<Rightarrow> nat option" where
  "strlen [] = None"
| "strlen (c # s) = (if c = NUL then Some 0 else map_option Suc (strlen s))"

definition memcpy :: "char list \<Rightarrow> char list \<Rightarrow> nat \<Rightarrow> char list option" where
  "memcpy destination source n =
     (if n \<le> length destination \<and> n \<le> length source then Some (take n source @ drop n destination) else None)"

text \<open>The string at a pointer, and when its first \<open>n\<close> bytes may be looked at.\<close>

definition c_string :: "cstring \<Rightarrow> string" where
  "c_string s = takeWhile (\<lambda>c. c \<noteq> NUL) s"

definition readable :: "nat \<Rightarrow> cstring \<Rightarrow> bool" where
  "readable n s \<longleftrightarrow> NUL \<in> set s \<or> n \<le> length s"

lemma c_string_simps [simp]:
  "c_string [] = []" "c_string (c # s) = (if c = NUL then [] else c # c_string s)"
  by (simp_all add: c_string_def)

lemma c_string_terminated: "NUL \<in> set s \<Longrightarrow> \<exists>r. s = c_string s @ NUL # r"
  by (induction s) auto

lemma c_string_unterminated: "NUL \<notin> set s \<Longrightarrow> c_string s = s"
  by (induction s) auto

lemma c_string_no_NUL [simp]: "NUL \<notin> set (c_string s)"
  by (induction s) auto

lemma c_string_append [simp]: "NUL \<notin> set s \<Longrightarrow> c_string (s @ NUL # r) = s"
  by (induction s) auto

lemma short_string_terminated: "readable n s \<Longrightarrow> length (c_string s) < n \<Longrightarrow> NUL \<in> set s"
  by (cases "NUL \<in> set s") (auto simp: readable_def c_string_unterminated)

lemma strnlen_eq: "readable n s \<Longrightarrow> strnlen s n = Some (min n (length (c_string s)))"
  by (induction s n rule: strnlen.induct) (auto simp: readable_def)

lemma strlen_eq: "NUL \<in> set s \<Longrightarrow> strlen s = Some (length (c_string s))"
  by (induction s) auto

lemma memcpy_string:
  assumes "NUL \<in> set s" and "length (c_string s) < length d"
  shows "memcpy d s (length (c_string s) + 1) = Some (c_string s @ NUL # drop (length (c_string s) + 1) d)"
proof -
  obtain r where r: "s = c_string s @ NUL # r" using c_string_terminated [OF assms(1)] by blast
  define p where "p = c_string s"
  have "s = p @ NUL # r" "NUL \<notin> set p" using r by (simp_all add: p_def)
  with assms(2) show ?thesis by (simp add: memcpy_def)
qed

subsection \<open>Limits of SPDK\<close>

record spdk_limits =
  NVMF_TGT_NAME_MAX_LENGTH :: nat
  SPDK_NVMF_NQN_MAX_LEN :: nat
  SPDK_NVME_CTRLR_SN_LEN :: nat
  SPDK_NVME_CTRLR_MN_LEN :: nat
  SPDK_NVMF_TRADDR_MAX_LEN :: nat
  SPDK_NVMF_TRSVCID_MAX_LEN :: nat
  sizeof_traddr :: nat
  sizeof_trsvcid :: nat
  sizeof_subnqn :: nat
  sizeof_hostnqn :: nat
  sizeof_sn :: nat
  sizeof_mn :: nat

text \<open>Each array of SPDK has room for a string of the maximal length and its terminator.\<close>

definition limits_ok :: "spdk_limits \<Rightarrow> bool" where
  "limits_ok k \<longleftrightarrow>
     sizeof_traddr k = SPDK_NVMF_TRADDR_MAX_LEN k + 1 \<and> sizeof_trsvcid k = SPDK_NVMF_TRSVCID_MAX_LEN k + 1 \<and>
     sizeof_subnqn k = SPDK_NVMF_NQN_MAX_LEN k + 1 \<and> sizeof_hostnqn k = SPDK_NVMF_NQN_MAX_LEN k + 1 \<and>
     sizeof_sn k = SPDK_NVME_CTRLR_SN_LEN k + 1 \<and> sizeof_mn k = SPDK_NVME_CTRLR_MN_LEN k + 1 \<and>
     0 < NVMF_TGT_NAME_MAX_LENGTH k"

text \<open>The values of one release of SPDK, for examples.\<close>

definition example_limits :: spdk_limits where
  "example_limits = \<lparr>NVMF_TGT_NAME_MAX_LENGTH = 256, SPDK_NVMF_NQN_MAX_LEN = 223, SPDK_NVME_CTRLR_SN_LEN = 20,
     SPDK_NVME_CTRLR_MN_LEN = 40, SPDK_NVMF_TRADDR_MAX_LEN = 256, SPDK_NVMF_TRSVCID_MAX_LEN = 32, sizeof_traddr = 257,
     sizeof_trsvcid = 33, sizeof_subnqn = 224, sizeof_hostnqn = 224, sizeof_sn = 21, sizeof_mn = 41\<rparr>"

end
