(* ===== verification/Controller.thy ===== *)
theory Controller
  imports Client CString
begin

text \<open>
  The NVMe/TCP controllers of \<^verbatim>\<open>nvme_controller.c\<close>: the checks and copies of the connection's strings,
  attaching and detaching on the owner thread, and the names of the namespaces that SPDK found.  An
  attached controller holds one lease of the runtime.  What SPDK reports when it has attached a
  controller is a parameter, \<open>attach_reply\<close>.
\<close>

subsection \<open>State\<close>

abbreviation ZETTIDE_SPDK_NVME_CONTROLLER_NAME_MAX :: nat where
  "ZETTIDE_SPDK_NVME_CONTROLLER_NAME_MAX \<equiv> 512"

text \<open>The enumerations are the integers of their C type, so that a retired value can be passed.\<close>

abbreviation ZETTIDE_SPDK_NVME_TRANSPORT_TCP :: u32 where "ZETTIDE_SPDK_NVME_TRANSPORT_TCP \<equiv> 0"
abbreviation ZETTIDE_SPDK_NVME_ADDRESS_FAMILY_UNSPECIFIED :: u32 where "ZETTIDE_SPDK_NVME_ADDRESS_FAMILY_UNSPECIFIED \<equiv> 0"
abbreviation ZETTIDE_SPDK_NVME_ADDRESS_FAMILY_IPV4 :: u32 where "ZETTIDE_SPDK_NVME_ADDRESS_FAMILY_IPV4 \<equiv> 1"
abbreviation ZETTIDE_SPDK_NVME_ADDRESS_FAMILY_IPV6 :: u32 where "ZETTIDE_SPDK_NVME_ADDRESS_FAMILY_IPV6 \<equiv> 2"

record controller_opts =
  co_opts_size :: size_t
  co_name :: "cstring option"
  co_transport :: u32
  co_address_family :: u32
  co_transport_address :: "cstring option"
  co_transport_service_id :: "cstring option"
  co_subsystem_nqn :: "cstring option"
  co_host_nqn :: "cstring option"
  co_connect_timeout_us :: u64
  co_namespace_name_capacity :: u32

text \<open>\<^verbatim>\<open>sizeof(struct zettide_spdk_nvme_controller_opts)\<close> under LP64.\<close>

definition sizeof_controller_opts :: size_t where
  "sizeof_controller_opts = 72"

datatype adrfam = ADRFAM_NOT_SPECIFIED | ADRFAM_IPV4 | ADRFAM_IPV6

text \<open>
  The fields of the transport id, the driver options and the bdev options are those the sources set.
  The array of names belongs to the controller, the names in it to SPDK.
\<close>

record controller =
  ct_owner :: "thread option"
  ct_name :: "string option"
  ct_namespace_names :: "string option list option"
  ct_namespace_count :: size_t
  ct_namespace_name_capacity :: u32
  ct_namespace_names_truncated :: bool
  ct_adrfam :: adrfam
  ct_traddr :: "char list"
  ct_trsvcid :: "char list"
  ct_subnqn :: "char list"
  ct_hostnqn :: "char list"
  ct_fabrics_connect_timeout_us :: u64
  ct_multipath :: bool

record ctl_world = client_world +
  ctl :: controller

definition zero_controller :: "spdk_limits \<Rightarrow> controller" where
  "zero_controller k = \<lparr>ct_owner = None, ct_name = None, ct_namespace_names = None, ct_namespace_count = 0,
     ct_namespace_name_capacity = 0, ct_namespace_names_truncated = False, ct_adrfam = ADRFAM_NOT_SPECIFIED,
     ct_traddr = replicate (sizeof_traddr k) NUL, ct_trsvcid = replicate (sizeof_trsvcid k) NUL,
     ct_subnqn = replicate (sizeof_subnqn k) NUL, ct_hostnqn = replicate (sizeof_hostnqn k) NUL,
     ct_fabrics_connect_timeout_us = 0, ct_multipath = False\<rparr>"

subsection \<open>The hand-over\<close>

definition controller_complete_command :: "int \<Rightarrow> 'x command_scheme \<Rightarrow> ('x command_scheme \<times> bool) option" where
  "controller_complete_command status c =
     (if cm_completed c then None
      else Some (c\<lparr>cm_status := status, cm_completed := True\<rparr>, \<not> cm_owner_active c))"

definition controller_owner_done :: "'x command_scheme \<Rightarrow> 'x command_scheme \<times> bool" where
  "controller_owner_done c = (c\<lparr>cm_owner_active := False\<rparr>, cm_completed c)"

definition controller_command_waits :: "'x command_scheme \<Rightarrow> bool" where
  "controller_command_waits c \<longleftrightarrow> \<not> cm_completed c \<or> cm_owner_active c"

interpretation controller_command_handover: rendezvous
  controller_complete_command controller_owner_done controller_command_waits cm_status cm_completed cm_owner_active
  by unfold_locales (auto simp: controller_complete_command_def controller_owner_done_def controller_command_waits_def)

subsection \<open>The command handlers\<close>

text \<open>
  What SPDK calls back with once it has attached a controller: the status, the number of bdevs, and the
  array of names as SPDK left it.
\<close>

record attach_reply =
  ar_status :: int
  ar_bdev_count :: size_t
  ar_names :: "string option list"

text \<open>The result of a handler is the status that it completes the command with.\<close>

definition attach_complete :: "size_t \<Rightarrow> int \<Rightarrow> ('x ctl_world_scheme, int) state" where
  "attach_complete bdev_count status =
     (if status = - ERANGE then do {
        modify (\<lambda>w. w\<lparr>ctl := (ctl w)\<lparr>ct_namespace_count := ucast (ct_namespace_name_capacity (ctl w)),
          ct_namespace_names_truncated := True\<rparr>\<rparr>);
        ret 0
      } else if status = 0 then do {
        modify (\<lambda>w. w\<lparr>ctl := (ctl w)\<lparr>ct_namespace_count := bdev_count\<rparr>\<rparr>);
        ret status
      } else ret status)"

text \<open>
  SPDK's side of the call: it fills the array, and the controller is attached if the status is 0 or says
  that not all names fitted.
\<close>

definition nvme_create_callback :: "attach_reply \<Rightarrow> ('x ctl_world_scheme, int) state" where
  "nvme_create_callback reply = do {
     modify (\<lambda>w. w\<lparr>ctl := (ctl w)\<lparr>ct_namespace_names := Some (ar_names reply)\<rparr>\<rparr>);
     whenM (ar_status reply \<in> {0, - ERANGE}) (hold Attached_controller);
     attach_complete (ar_bdev_count reply) (ar_status reply)
   }"

definition run_attach :: "env \<Rightarrow> attach_reply \<Rightarrow> ('x ctl_world_scheme, int) state" where
  "run_attach env reply = do {
     status \<leftarrow> ext env Spdk_bdev_nvme_create;
     if status \<noteq> 0 then ret status
     else nvme_create_callback reply
   }"

definition detach_complete :: "int \<Rightarrow> ('x ctl_world_scheme, int) state" where
  "detach_complete status = ret status"

definition nvme_delete_callback :: "int \<Rightarrow> ('x ctl_world_scheme, int) state" where
  "nvme_delete_callback status = do { whenM (status = 0) (give_back Attached_controller); detach_complete status }"

definition run_detach :: "env \<Rightarrow> ('x ctl_world_scheme, int) state" where
  "run_detach env = do {
     status \<leftarrow> ext env Spdk_bdev_nvme_delete;
     if status \<noteq> 0 then ret status
     else do { status \<leftarrow> ext env Spdk_bdev_nvme_delete_callback; nvme_delete_callback status }
   }"

definition dispatch_controller_command ::
    "env \<Rightarrow> bool \<Rightarrow> msg \<Rightarrow> ('x ctl_world_scheme, int) state \<Rightarrow> ('x ctl_world_scheme, int) state" where
  "dispatch_controller_command env on_spdk_thread function handler =
     command_frame env on_spdk_thread (do {
       c \<leftarrow> gets ctl;
       rc \<leftarrow> ext env (Spdk_thread_send_msg (ct_owner c) function);
       if rc \<noteq> 0 then ret rc else handler
     })"

subsection \<open>The connection\<close>

definition copy_required_string :: "char list \<Rightarrow> nat \<Rightarrow> cstring option \<Rightarrow> (int \<times> char list) option" where
  "copy_required_string destination destination_size source =
     (case source of
        None \<Rightarrow> Some (- EINVAL, destination)
      | Some s \<Rightarrow> do {
          length \<leftarrow> strnlen s destination_size;
          if length = 0 \<or> length = destination_size then Some (- EINVAL, destination)
          else do {
            d \<leftarrow> memcpy destination s (length + 1);
            Some (0, d)
          }
        })"

text \<open>\<open>default_hostnqn\<close> is the host name SPDK's defaults put into the driver options.\<close>

definition initialize_controller ::
    "spdk_limits \<Rightarrow> char list \<Rightarrow> controller_opts \<Rightarrow> controller \<Rightarrow> (int \<times> controller) option" where
  "initialize_controller k default_hostnqn opts c = do {
     let c = c\<lparr>ct_hostnqn := default_hostnqn, ct_multipath := False,
       ct_fabrics_connect_timeout_us := co_connect_timeout_us opts\<rparr>;
     let family = (if co_address_family opts = ZETTIDE_SPDK_NVME_ADDRESS_FAMILY_UNSPECIFIED then Some ADRFAM_NOT_SPECIFIED
       else if co_address_family opts = ZETTIDE_SPDK_NVME_ADDRESS_FAMILY_IPV4 then Some ADRFAM_IPV4
       else if co_address_family opts = ZETTIDE_SPDK_NVME_ADDRESS_FAMILY_IPV6 then Some ADRFAM_IPV6
       else None);
     case family of
       None \<Rightarrow> Some (- EINVAL, c)
     | Some f \<Rightarrow> do {
         let c = c\<lparr>ct_adrfam := f\<rparr>;
         (status, d) \<leftarrow> copy_required_string (ct_traddr c) (sizeof_traddr k) (co_transport_address opts);
         let c = c\<lparr>ct_traddr := d\<rparr>;
         if status \<noteq> 0 then Some (status, c)
         else do {
           (status, d) \<leftarrow> copy_required_string (ct_trsvcid c) (sizeof_trsvcid k) (co_transport_service_id opts);
           let c = c\<lparr>ct_trsvcid := d\<rparr>;
           if status \<noteq> 0 then Some (status, c)
           else do {
             (status, d) \<leftarrow> copy_required_string (ct_subnqn c) (sizeof_subnqn k) (co_subsystem_nqn opts);
             let c = c\<lparr>ct_subnqn := d\<rparr>;
             if status \<noteq> 0 then Some (status, c)
             else if co_host_nqn opts \<noteq> None then do {
               (status, d) \<leftarrow> copy_required_string (ct_hostnqn c) (sizeof_hostnqn k) (co_host_nqn opts);
               Some (status, c\<lparr>ct_hostnqn := d\<rparr>)
             } else Some (0, c)
           }
         }
       }
   }"

subsection \<open>Attaching and detaching\<close>

definition free_controller :: "('x ctl_world_scheme, unit) state" where
  "free_controller = do {
     c \<leftarrow> gets ctl;
     free_ptr (ct_namespace_names c \<noteq> None) Controller_namespace_names;
     free_ptr (ct_name c \<noteq> None) Controller_name;
     free_ptr True Controller_obj
   }"

definition attach_args_invalid :: "bool \<Rightarrow> controller_opts option \<Rightarrow> bool \<Rightarrow> bool" where
  "attach_args_invalid runtime opts controller_out \<longleftrightarrow>
     \<not> runtime \<or> \<not> controller_out \<or>
     (case opts of
        None \<Rightarrow> True
      | Some co \<Rightarrow> co_opts_size co \<noteq> sizeof_controller_opts \<or> co_name co = None \<or>
          co_transport co \<noteq> ZETTIDE_SPDK_NVME_TRANSPORT_TCP \<or> co_namespace_name_capacity co = 0)"

text \<open>Lines 310 to 331: the controller and its two arrays have been allocated.\<close>

definition attach_allocated ::
    "env \<Rightarrow> spdk_limits \<Rightarrow> char list \<Rightarrow> attach_reply \<Rightarrow> bool \<Rightarrow> controller_opts \<Rightarrow> ('x ctl_world_scheme, int \<times> bool) state" where
  "attach_allocated env k default_hostnqn reply on_spdk_thread co = do {
     modify (\<lambda>w. w\<lparr>ctl := (ctl w)\<lparr>ct_namespace_name_capacity := co_namespace_name_capacity co\<rparr>\<rparr>);
     c \<leftarrow> gets ctl;
     case initialize_controller k default_hostnqn co c of
       None \<Rightarrow> do { c_abort; ret (0, False) }
     | Some (status, c) \<Rightarrow> do {
         modify (\<lambda>w. w\<lparr>ctl := c\<rparr>);
         if status \<noteq> 0 then do { free_controller; ret (status, False) }
         else do {
           acq \<leftarrow> acquire_control_lease;
           if fst acq \<noteq> 0 then do { free_controller; ret (fst acq, False) }
           else do {
             modify (\<lambda>w. w\<lparr>ctl := (ctl w)\<lparr>ct_owner := snd acq\<rparr>\<rparr>);
             status \<leftarrow> dispatch_controller_command env on_spdk_thread Run_attach (run_attach env reply);
             if status \<noteq> 0 then do { release_control_lease; free_controller; ret (status, False) }
             else ret (0, True)
           }
         }
       }
   }"

text \<open>The result says, with the status, whether \<^verbatim>\<open>*controller_out\<close> is the new controller.\<close>

definition zettide_spdk_nvme_controller_attach ::
    "env \<Rightarrow> spdk_limits \<Rightarrow> char list \<Rightarrow> attach_reply \<Rightarrow> bool \<Rightarrow> bool \<Rightarrow> controller_opts option \<Rightarrow> bool \<Rightarrow>
     ('x ctl_world_scheme, int \<times> bool) state" where
  "zettide_spdk_nvme_controller_attach env k default_hostnqn reply on_spdk_thread runtime opts controller_out =
     (if attach_args_invalid runtime opts controller_out then ret (- EINVAL, False)
      else
        let co = the opts; name = the (co_name co) in
        case strnlen name ZETTIDE_SPDK_NVME_CONTROLLER_NAME_MAX of
          None \<Rightarrow> do { c_abort; ret (0, False) }
        | Some name_length \<Rightarrow>
            if name_length = 0 \<or> name_length = ZETTIDE_SPDK_NVME_CONTROLLER_NAME_MAX then ret (- EINVAL, False)
            else do {
              ok \<leftarrow> alloc env (Calloc Controller_obj) Controller_obj;
              if \<not> ok then ret (- ENOMEM, False)
              else do {
                name_ok \<leftarrow> alloc env (Strdup Controller_name) Controller_name;
                names_ok \<leftarrow> alloc env (Calloc_size Controller_namespace_names (ucast (co_namespace_name_capacity co)))
                  Controller_namespace_names;
                modify (\<lambda>w. w\<lparr>ctl := (zero_controller k)\<lparr>ct_name := if name_ok then Some (c_string name) else None,
                  ct_namespace_names := if names_ok then Some (replicate (unat (co_namespace_name_capacity co)) None) else None\<rparr>\<rparr>);
                if \<not> name_ok \<or> \<not> names_ok then do { free_controller; ret (- ENOMEM, False) }
                else attach_allocated env k default_hostnqn reply on_spdk_thread co
              }
            })"

definition zettide_spdk_nvme_controller_detach :: "env \<Rightarrow> bool \<Rightarrow> bool \<Rightarrow> ('x ctl_world_scheme, int) state" where
  "zettide_spdk_nvme_controller_detach env on_spdk_thread controller =
     (if \<not> controller then ret (- EINVAL)
      else do {
        status \<leftarrow> dispatch_controller_command env on_spdk_thread Run_detach (run_detach env);
        whenM (status = 0) (do { release_control_lease; free_controller });
        ret status
      })"

subsection \<open>Namespaces\<close>

definition zettide_spdk_nvme_controller_get_namespace_count :: "controller option \<Rightarrow> size_t" where
  "zettide_spdk_nvme_controller_get_namespace_count c = (case c of None \<Rightarrow> 0 | Some c \<Rightarrow> ct_namespace_count c)"

definition zettide_spdk_nvme_controller_namespace_names_truncated :: "controller option \<Rightarrow> bool" where
  "zettide_spdk_nvme_controller_namespace_names_truncated c =
     (case c of None \<Rightarrow> False | Some c \<Rightarrow> ct_namespace_names_truncated c)"

text \<open>The outer \<open>None\<close> is an access past the array, the inner one \<^verbatim>\<open>NULL\<close>.\<close>

definition zettide_spdk_nvme_controller_get_namespace_name :: "controller option \<Rightarrow> size_t \<Rightarrow> string option option" where
  "zettide_spdk_nvme_controller_get_namespace_name c index =
     (case c of
        None \<Rightarrow> Some None
      | Some c \<Rightarrow>
          if index \<ge> ct_namespace_count c then Some None
          else case ct_namespace_names c of
            None \<Rightarrow> None
          | Some names \<Rightarrow> if unat index < length names then Some (names ! unat index) else None)"

end
