(* ===== verification/Controller_Life.thy ===== *)
theory Controller_Life
  imports Controller
begin

text \<open>
  What the controllers guarantee: strings are copied whole or refused, without reading past their end
  or writing past the array; attaching and detaching balance the lease and the memory on every path; and
  the names of the namespaces are read inside their array.
\<close>

subsection \<open>Strings\<close>

definition string_fits :: "nat \<Rightarrow> cstring option \<Rightarrow> bool" where
  "string_fits n source = (case source of None \<Rightarrow> False | Some s \<Rightarrow> 0 < length (c_string s) \<and> length (c_string s) < n)"

definition opt_readable :: "nat \<Rightarrow> cstring option \<Rightarrow> bool" where
  "opt_readable n source = (case source of None \<Rightarrow> True | Some s \<Rightarrow> readable n s)"

text \<open>The array after a string was copied to its start.\<close>

definition string_copied :: "char list \<Rightarrow> cstring option \<Rightarrow> char list" where
  "string_copied d source = c_string (the source) @ NUL # drop (length (c_string (the source)) + 1) d"

lemma copy_required_string_run:
  assumes "opt_readable n source" and "length d = n"
  shows "copy_required_string d n source =
    Some (if string_fits n source then (0, string_copied d source) else (- EINVAL, d))"
proof (cases source)
  case (Some s)
  with assms(1) have r: "readable n s" by (simp add: opt_readable_def)
  show ?thesis
  proof (cases "string_fits n source")
    case True
    then have len: "0 < length (c_string s)" "length (c_string s) < n" by (simp_all add: Some string_fits_def)
    with True assms(2) short_string_terminated [OF r] memcpy_string [of s d] show ?thesis
      by (simp add: Some copy_required_string_def strnlen_eq [OF r] min_def string_copied_def)
  next
    case False
    then show ?thesis
      by (auto simp: Some copy_required_string_def strnlen_eq [OF r] min_def string_fits_def)
  qed
qed (simp add: copy_required_string_def string_fits_def)

lemma length_string_copied [simp]: "string_fits (length d) source \<Longrightarrow> length (string_copied d source) = length d"
  by (auto simp: string_copied_def string_fits_def split: option.splits)

lemma c_string_copied [simp]: "c_string (string_copied d source) = c_string (the source)"
  by (simp add: string_copied_def)

text \<open>
  C35: Copying a required string.  If the source is terminated, or readable for as many bytes as the array
  has, nothing is accessed out of bounds.  The copy succeeds exactly when the string is not empty and
  fits with its terminator; then the array, which keeps its size, holds this very string, and otherwise
  it is unchanged.
\<close>

theorem copy_required_string_correct:
  assumes "length d = n" and "source = None \<or> (\<exists>s. source = Some s \<and> (NUL \<in> set s \<or> n \<le> length s))"
  shows "\<exists>status d'. copy_required_string d n source = Some (status, d') \<and> length d' = n \<and>
    (status = 0 \<longleftrightarrow> (\<exists>s. source = Some s \<and> 0 < length (c_string s) \<and> length (c_string s) < n)) \<and>
    (if status = 0 then c_string d' = c_string (the source) else status = - EINVAL \<and> d' = d)"
proof -
  have "opt_readable n source"
    using assms(2) by (auto simp: opt_readable_def readable_def)
  moreover have "string_fits n source \<longleftrightarrow> (\<exists>s. source = Some s \<and> 0 < length (c_string s) \<and> length (c_string s) < n)"
    by (auto simp: string_fits_def split: option.splits)
  ultimately show ?thesis
    using assms(1) copy_required_string_run [of n source d] length_string_copied [of d source] by auto
qed

theorem copy_required_string_correct_witness:
  "\<exists>d'. copy_required_string (replicate 6 NUL) 6 (Some (''4420'' @ [NUL])) = Some (0, d') \<and> c_string d' = ''4420''"
  using copy_required_string_correct [of "replicate 6 NUL" 6 "Some (''4420'' @ [NUL])"] by auto

subsection \<open>The connection\<close>

definition connection_readable :: "spdk_limits \<Rightarrow> controller_opts \<Rightarrow> bool" where
  "connection_readable k co \<longleftrightarrow>
     opt_readable (sizeof_traddr k) (co_transport_address co) \<and> opt_readable (sizeof_trsvcid k) (co_transport_service_id co) \<and>
     opt_readable (sizeof_subnqn k) (co_subsystem_nqn co) \<and> opt_readable (sizeof_hostnqn k) (co_host_nqn co)"

definition connection_valid :: "spdk_limits \<Rightarrow> controller_opts \<Rightarrow> bool" where
  "connection_valid k co \<longleftrightarrow> co_address_family co \<in> {0, 1, 2} \<and>
     string_fits (sizeof_traddr k) (co_transport_address co) \<and> string_fits (sizeof_trsvcid k) (co_transport_service_id co) \<and>
     string_fits (sizeof_subnqn k) (co_subsystem_nqn co) \<and>
     (co_host_nqn co = None \<or> string_fits (sizeof_hostnqn k) (co_host_nqn co))"

definition arrays_sized :: "spdk_limits \<Rightarrow> controller \<Rightarrow> bool" where
  "arrays_sized k c \<longleftrightarrow> length (ct_traddr c) = sizeof_traddr k \<and> length (ct_trsvcid c) = sizeof_trsvcid k \<and>
     length (ct_subnqn c) = sizeof_subnqn k \<and> length (ct_hostnqn c) = sizeof_hostnqn k"

text \<open>The fields that the connection does not touch.\<close>

definition same_names :: "controller \<Rightarrow> controller \<Rightarrow> bool" where
  "same_names c c' \<longleftrightarrow> ct_owner c' = ct_owner c \<and> ct_name c' = ct_name c \<and> ct_namespace_names c' = ct_namespace_names c \<and>
     ct_namespace_count c' = ct_namespace_count c \<and> ct_namespace_name_capacity c' = ct_namespace_name_capacity c \<and>
     ct_namespace_names_truncated c' = ct_namespace_names_truncated c"

definition connects_to :: "controller_opts \<Rightarrow> char list \<Rightarrow> controller \<Rightarrow> bool" where
  "connects_to co default_hostnqn c \<longleftrightarrow>
     c_string (ct_traddr c) = c_string (the (co_transport_address co)) \<and>
     c_string (ct_trsvcid c) = c_string (the (co_transport_service_id co)) \<and>
     c_string (ct_subnqn c) = c_string (the (co_subsystem_nqn co)) \<and>
     c_string (ct_hostnqn c) = c_string (case co_host_nqn co of None \<Rightarrow> default_hostnqn | Some s \<Rightarrow> s) \<and>
     ct_fabrics_connect_timeout_us c = co_connect_timeout_us co \<and> \<not> ct_multipath c"

lemma initialize_controller_run:
  assumes "connection_readable k co" and "arrays_sized k c" and "length default_hostnqn = sizeof_hostnqn k"
  shows "\<exists>c'. initialize_controller k default_hostnqn co c = Some (if connection_valid k co then 0 else - EINVAL, c') \<and>
    arrays_sized k c' \<and> same_names c c' \<and> (connection_valid k co \<longrightarrow> connects_to co default_hostnqn c')"
  using assms
  unfolding initialize_controller_def connection_readable_def connection_valid_def arrays_sized_def same_names_def connects_to_def
  by (auto simp: Let_def copy_required_string_run split: option.splits)

text \<open>
  C36: The connection of a controller.  For options whose strings may be read as far as the arrays reach,
  nothing is accessed out of bounds; the options are accepted exactly when the address family is one of
  the three and every string that must be given, and the host name if given, is not empty and fits.  The
  arrays then hold exactly these strings, or SPDK's default host name.
\<close>

theorem initialize_controller_iff:
  assumes "connection_readable k co" and "length default_hostnqn = sizeof_hostnqn k" and "c = (zero_controller k)\<lparr>ct_name := name\<rparr>"
  shows "\<exists>status c'. initialize_controller k default_hostnqn co c = Some (status, c') \<and> arrays_sized k c' \<and> ct_name c' = name \<and>
    (status = 0 \<longleftrightarrow> co_address_family co \<in> {0, 1, 2} \<and> string_fits (sizeof_traddr k) (co_transport_address co) \<and>
       string_fits (sizeof_trsvcid k) (co_transport_service_id co) \<and> string_fits (sizeof_subnqn k) (co_subsystem_nqn co) \<and>
       (co_host_nqn co = None \<or> string_fits (sizeof_hostnqn k) (co_host_nqn co))) \<and>
    (if status = 0 then connects_to co default_hostnqn c' else status = - EINVAL)"
proof -
  have "arrays_sized k c" "ct_name c = name" by (simp_all add: assms(3) arrays_sized_def zero_controller_def)
  with initialize_controller_run [OF assms(1) _ assms(2), of c] show ?thesis
    unfolding connection_valid_def [symmetric]
    by (intro exI [of _ "if connection_valid k co then 0 else - EINVAL"]) (auto simp: same_names_def)
qed

subsection \<open>Attaching\<close>

abbreviation controller_objs :: "obj list" where
  "controller_objs \<equiv> [Controller_namespace_names, Controller_name, Controller_obj]"

lemma free_controller_run:
  assumes "live w = controller_objs @ ms" and "ct_name (ctl w) \<noteq> None" and "ct_namespace_names (ctl w) \<noteq> None"
  shows "\<exists>l. run_state free_controller w = ((), w\<lparr>log := l, live := ms\<rparr>)"
  using assms by (intro exI [of _ "log (final free_controller w)"]) (simp add: free_controller_def)

definition reply_attached :: "attach_reply \<Rightarrow> controller \<Rightarrow> controller \<Rightarrow> bool" where
  "reply_attached reply c c' \<longleftrightarrow> c' = (if ar_status reply = 0
     then c\<lparr>ct_namespace_names := Some (ar_names reply), ct_namespace_count := ar_bdev_count reply\<rparr>
     else c\<lparr>ct_namespace_names := Some (ar_names reply), ct_namespace_count := ucast (ct_namespace_name_capacity c),
       ct_namespace_names_truncated := True\<rparr>)"

definition attach_effect :: "attach_reply \<Rightarrow> int \<Rightarrow> 'x ctl_world_scheme \<Rightarrow> 'x ctl_world_scheme \<Rightarrow> bool" where
  "attach_effect reply st w w' \<longleftrightarrow> (\<exists>l c. if st = 0
     then ar_status reply \<in> {0, - ERANGE} \<and> reply_attached reply (ctl w) c \<and>
       w' = w\<lparr>log := l, live := Attached_controller # live w, ctl := c\<rparr>
     else (c = ctl w \<or> c = (ctl w)\<lparr>ct_namespace_names := Some (ar_names reply)\<rparr>) \<and> w' = w\<lparr>log := l, ctl := c\<rparr>)"

lemma run_attach_run:
  assumes "run_state (run_attach env reply) w = (st, w')"
  shows "attach_effect reply st w w'"
proof -
  have w': "w' = final (run_attach env reply) w" and st: "st = result (run_attach env reply) w" using assms by simp_all
  show ?thesis
    unfolding attach_effect_def
    by (rule exI [of _ "log w'"], rule exI [of _ "ctl w'"])
      (auto simp: w' st run_attach_def nvme_create_callback_def attach_complete_def reply_attached_def)
qed

lemma attach_effect_framed:
  assumes "attach_effect reply st y v" and "y = w\<lparr>log := l, live := Command_condition # Command_mutex # live w\<rparr>"
    and "Command_condition \<in> set (live v) \<longrightarrow> Command_mutex \<in> set (live v) \<longrightarrow>
      w' = v\<lparr>log := l', live := remove1 Command_mutex (remove1 Command_condition (live v))\<rparr>"
    and "{Command_condition, Command_mutex} \<inter> set (live w) = {}"
  shows "attach_effect reply st w w'"
proof -
  obtain l2 c where "if st = 0 then ar_status reply \<in> {0, - ERANGE} \<and> reply_attached reply (ctl y) c \<and>
      v = y\<lparr>log := l2, live := Attached_controller # live y, ctl := c\<rparr>
    else (c = ctl y \<or> c = (ctl y)\<lparr>ct_namespace_names := Some (ar_names reply)\<rparr>) \<and> v = y\<lparr>log := l2, ctl := c\<rparr>"
    using assms(1) unfolding attach_effect_def by (elim exE)
  with assms(2-4) show ?thesis
    unfolding attach_effect_def by (intro exI [of _ l'] exI [of _ c]) (auto split: if_splits)
qed

lemma dispatch_attach_run:
  assumes "run_state (dispatch_controller_command env on_spdk Run_attach (run_attach env reply)) w = (st, w')"
    and "{Command_condition, Command_mutex} \<inter> set (live w) = {}"
  shows "attach_effect reply st w w'"
  using command_frame_run [OF assms(1) [unfolded dispatch_controller_command_def]]
proof (elim disjE exE conjE)
  fix l assume "st \<noteq> 0" "w' = w\<lparr>log := l\<rparr>"
  then show ?thesis unfolding attach_effect_def by (intro exI [of _ l] exI [of _ "ctl w"]) simp
next
  fix l l' v
  let ?s = "Spdk_thread_send_msg (ct_owner (ctl w)) Run_attach"
  let ?x = "w\<lparr>log := l, live := Command_condition # Command_mutex # live w\<rparr>"
  let ?y = "?x\<lparr>log := l @ [?s]\<rparr>"
  assume body: "run_state (do { c \<leftarrow> gets ctl; rc \<leftarrow> ext env (Spdk_thread_send_msg (ct_owner c) Run_attach);
        if rc \<noteq> 0 then ret rc else run_attach env reply }) ?x = (st, v)"
    and w': "Command_condition \<in> set (live v) \<longrightarrow> Command_mutex \<in> set (live v) \<longrightarrow>
      w' = v\<lparr>log := l', live := remove1 Command_mutex (remove1 Command_condition (live v))\<rparr>"
  have "(st \<noteq> 0 \<and> v = ?y) \<or> run_state (run_attach env reply) ?y = (st, v)"
    using body by (auto split: if_splits)
  then show ?thesis
  proof (elim disjE conjE)
    assume "st \<noteq> 0" "v = ?y"
    with w' assms(2) show ?thesis unfolding attach_effect_def by (intro exI [of _ l'] exI [of _ "ctl w"]) simp
  next
    assume "run_state (run_attach env reply) ?y = (st, v)"
    then have "attach_effect reply st ?y v" by (rule run_attach_run)
    then show ?thesis by (rule attach_effect_framed [OF _ _ w' assms(2), where l = "l @ [?s]"]) simp
  qed
qed

text \<open>A controller as SPDK attached it.\<close>

definition attached_from :: "attach_reply \<Rightarrow> u32 \<Rightarrow> controller \<Rightarrow> bool" where
  "attached_from reply capacity c \<longleftrightarrow> ct_name c \<noteq> None \<and> ct_namespace_names c = Some (ar_names reply) \<and>
     ar_status reply \<in> {0, - ERANGE} \<and> (ct_namespace_names_truncated c \<longleftrightarrow> ar_status reply = - ERANGE) \<and>
     ct_namespace_count c = (if ar_status reply = 0 then ar_bdev_count reply else ucast capacity)"

definition controller_attached :: "attach_reply \<Rightarrow> u32 \<Rightarrow> 'x ctl_world_scheme \<Rightarrow> 'x ctl_world_scheme \<Rightarrow> bool" where
  "controller_attached reply capacity w w' \<longleftrightarrow> runtime_ready w \<and> attached_from reply capacity (ctl w') \<and>
     (\<exists>l. w' = (with_leases (leases_held w + 1) w)\<lparr>log := l, live := Attached_controller # controller_objs @ live w, ctl := ctl w'\<rparr>)"

definition controller_not_attached :: "'x ctl_world_scheme \<Rightarrow> 'x ctl_world_scheme \<Rightarrow> bool" where
  "controller_not_attached w w' \<longleftrightarrow> (\<exists>l c. w' = w\<lparr>log := l, ctl := c\<rparr>)"

definition attach_outcome :: "attach_reply \<Rightarrow> u32 \<Rightarrow> int \<times> bool \<Rightarrow> 'x ctl_world_scheme \<Rightarrow> 'x ctl_world_scheme \<Rightarrow> bool" where
  "attach_outcome reply capacity r w w' \<longleftrightarrow> (snd r \<longleftrightarrow> fst r = 0) \<and>
     (if snd r then controller_attached reply capacity w w' else controller_not_attached w w')"

lemma free_controller_not_attached:
  assumes "u = w\<lparr>log := l, live := controller_objs @ live w, ctl := c\<rparr>" and "ct_name c \<noteq> None" and "ct_namespace_names c \<noteq> None"
    and "run_state free_controller u = ((), w')"
  shows "controller_not_attached w w'"
proof -
  obtain l' where "run_state free_controller u = ((), u\<lparr>log := l', live := live w\<rparr>)"
    using free_controller_run [of u "live w"] assms(1-3) by auto
  with assms(1,4) show ?thesis
    unfolding controller_not_attached_def by (intro exI [of _ l'] exI [of _ c]) simp
qed

lemma attach_dispatched_run:
  assumes d: "run_state (dispatch_controller_command env on_spdk Run_attach (run_attach env reply)) u = (st, x)"
    and u: "u = (with_leases (leases_held w + 1) w)\<lparr>log := l, live := controller_objs @ live w, ctl := c\<rparr>"
    and n: "ct_name c \<noteq> None" "ct_namespace_names c \<noteq> None" "\<not> ct_namespace_names_truncated c" "ct_namespace_name_capacity c = capacity"
    and res: "if st = 0 then r = (0, True) \<and> w' = x
      else r = (st, False) \<and> run_state (do { release_control_lease; free_controller }) x = ((), w')"
    and "runtime_ready w" and "{Command_condition, Command_mutex} \<inter> set (live w) = {}" and "leases_held w \<noteq> UINT64_MAX"
  shows "attach_outcome reply capacity r w w'"
proof -
  have "{Command_condition, Command_mutex} \<inter> set (live u) = {}" using assms(9) by (simp add: u)
  from dispatch_attach_run [OF d this] obtain l2 c2 where x: "if st = 0
      then ar_status reply \<in> {0, - ERANGE} \<and> reply_attached reply (ctl u) c2 \<and>
        x = u\<lparr>log := l2, live := Attached_controller # live u, ctl := c2\<rparr>
      else (c2 = ctl u \<or> c2 = (ctl u)\<lparr>ct_namespace_names := Some (ar_names reply)\<rparr>) \<and> x = u\<lparr>log := l2, ctl := c2\<rparr>"
    unfolding attach_effect_def by (elim exE)
  show ?thesis
  proof (cases "st = 0")
    case True
    with x have x': "ar_status reply \<in> {0, - ERANGE}" "reply_attached reply c c2"
      "x = u\<lparr>log := l2, live := Attached_controller # live u, ctl := c2\<rparr>" by (simp_all add: u)
    then have "attached_from reply capacity (ctl x)"
      using n by (auto simp: attached_from_def reply_attached_def)
    moreover have "x = (with_leases (leases_held w + 1) w)\<lparr>log := l2, live := Attached_controller # controller_objs @ live w, ctl := ctl x\<rparr>"
      using x'(3) by (simp add: u)
    ultimately show ?thesis
      using res True assms(8) unfolding attach_outcome_def controller_attached_def by auto
  next
    case False
    have held: "leases_held w + 1 \<noteq> 0" using assms(10) by (metis add_eq_0_iff2)
    let ?y = "w\<lparr>log := l2, live := controller_objs @ live w, ctl := c2\<rparr>"
    have c2: "ct_name c2 \<noteq> None" "ct_namespace_names c2 \<noteq> None" using False x n by (auto simp: u)
    have "x = u\<lparr>log := l2, ctl := c2\<rparr>" using False x by simp
    then have "run_state release_control_lease x = ((), ?y)"
      using held by (simp add: u release_control_lease_run with_leases_def)
    then have "run_state free_controller ?y = ((), w')" "r = (st, False)" using res False by simp_all
    with False free_controller_not_attached [OF refl c2] show ?thesis
      by (simp add: attach_outcome_def)
  qed
qed

lemma attach_allocated_run:
  assumes run: "run_state (attach_allocated env k default_hostnqn reply on_spdk co) v = (r, w')"
    and v: "v = w\<lparr>log := l, live := controller_objs @ live w, ctl := c\<rparr>" "ct_name c \<noteq> None" "ct_namespace_names c \<noteq> None"
      "arrays_sized k c" "\<not> ct_namespace_names_truncated c"
    and "connection_readable k co" and "length default_hostnqn = sizeof_hostnqn k"
    and "{Command_condition, Command_mutex} \<inter> set (live w) = {}" and "leases_held w \<noteq> UINT64_MAX"
  shows "attach_outcome reply (co_namespace_name_capacity co) r w w'"
proof -
  let ?c = "c\<lparr>ct_namespace_name_capacity := co_namespace_name_capacity co\<rparr>"
  have "arrays_sized k ?c" using v(4) by (simp add: arrays_sized_def)
  from initialize_controller_run [OF assms(7) this assms(8)] obtain c' where
    c': "initialize_controller k default_hostnqn co ?c = Some (if connection_valid k co then 0 else - EINVAL, c')" "same_names ?c c'"
    by blast
  have n: "ct_name c' \<noteq> None" "ct_namespace_names c' \<noteq> None" "\<not> ct_namespace_names_truncated c'"
    "ct_namespace_name_capacity c' = co_namespace_name_capacity co"
    using c'(2) v by (simp_all add: same_names_def)
  let ?v = "w\<lparr>log := l, live := controller_objs @ live w, ctl := c'\<rparr>"
  show ?thesis
  proof (cases "connection_valid k co \<and> runtime_ready w")
    case False
    then have "\<not> snd r \<and> fst r \<noteq> 0 \<and> run_state free_controller ?v = ((), w')"
      using run v(1) c'(1)
      by (cases "connection_valid k co") (auto simp: attach_allocated_def acquire_control_lease_run runtime_ready_def split: prod.splits)
    with free_controller_not_attached [OF refl n(1,2), of w l w'] show ?thesis
      by (auto simp: attach_outcome_def)
  next
    case True
    let ?c' = "c'\<lparr>ct_owner := rt_owner (client_rt w)\<rparr>"
    let ?u = "(with_leases (leases_held w + 1) w)\<lparr>log := l, live := controller_objs @ live w, ctl := ?c'\<rparr>"
    obtain st x where d: "run_state (dispatch_controller_command env on_spdk Run_attach (run_attach env reply)) ?u = (st, x)"
      by (rule prod.exhaust)
    have "?u = w\<lparr>log := l, live := controller_objs @ live w, client_rt := (client_rt w)\<lparr>rt_active_leases := leases_held w + 1\<rparr>, ctl := ?c'\<rparr>"
      by (simp add: with_leases_def)
    note d' = d [unfolded this]
    have "if st = 0 then r = (0, True) \<and> w' = x
        else r = (st, False) \<and> run_state (do { release_control_lease; free_controller }) x = ((), w')"
      using run d' v(1) c'(1) True
      by (auto simp: attach_allocated_def acquire_control_lease_run runtime_ready_def with_leases_def split: prod.splits if_splits)
    with attach_dispatched_run [OF d refl _ _ _ _ _ _ assms(9,10)] n True show ?thesis by simp
  qed
qed

lemma controller_attach_run:
  assumes run: "run_state (zettide_spdk_nvme_controller_attach env k default_hostnqn reply on_spdk rtm opts out) w = (r, w')"
    and "\<And>co. opts = Some co \<Longrightarrow> connection_readable k co \<and> opt_readable 512 (co_name co)"
    and "length default_hostnqn = sizeof_hostnqn k"
    and "{Command_condition, Command_mutex} \<inter> set (live w) = {}" and "leases_held w \<noteq> UINT64_MAX"
  shows "attach_outcome reply (co_namespace_name_capacity (the opts)) r w w'"
proof -
  have refused: "attach_outcome reply (co_namespace_name_capacity (the opts)) r w w'"
    if "r = (st, False)" "st \<noteq> 0" "w' = w\<lparr>log := l, ctl := c\<rparr>" for st l c
    using that unfolding attach_outcome_def controller_not_attached_def by auto
  have refl: "w = w\<lparr>log := log w, ctl := ctl w\<rparr>" by simp
  show ?thesis
  proof (cases "attach_args_invalid rtm opts out")
    case True
    then show ?thesis using run refl by (intro refused [where st = "- EINVAL" and l = "log w" and c = "ctl w"]) (simp_all add: zettide_spdk_nvme_controller_attach_def)
  next
    case False
    then obtain co name where co: "opts = Some co" "co_name co = Some name"
      by (auto simp: attach_args_invalid_def split: option.splits)
    with assms(2) have rd: "connection_readable k co" "readable 512 name" by (auto simp: opt_readable_def)
    let ?a = "Calloc Controller_obj" and ?b = "Strdup Controller_name"
      and ?d = "Calloc_size Controller_namespace_names (ucast (co_namespace_name_capacity co))"
    define nl where "nl = min 512 (length (c_string name))"
    show ?thesis
    proof (cases "nl = 0 \<or> nl = 512 \<or> env (log w) ?a = 0")
      case True
      then show ?thesis
        using run False co by (intro refused [where st = "fst r" and l = "log w'" and c = "ctl w"])
          (auto simp: zettide_spdk_nvme_controller_attach_def strnlen_eq [OF rd(2)] nl_def [symmetric] split: if_splits)
    next
      case alloc: False
      then have nl: "nl \<noteq> 0" "nl \<noteq> 512" "env (log w) ?a \<noteq> 0" by auto
      let ?l = "log w @ [?a, ?b, ?d]"
      let ?p = "env (log w @ [?a]) ?b \<noteq> 0" and ?q = "env (log w @ [?a, ?b]) ?d \<noteq> 0"
      define c where "c = (zero_controller k)\<lparr>ct_name := if ?p then Some (c_string name) else None,
        ct_namespace_names := if ?q then Some (replicate (unat (co_namespace_name_capacity co)) None) else None\<rparr>"
      have nl': "0 < nl" using nl by simp
      show ?thesis
      proof (cases "?p \<and> ?q")
        case True
        have "run_state (attach_allocated env k default_hostnqn reply on_spdk co)
            (w\<lparr>log := ?l, live := controller_objs @ live w, ctl := c\<rparr>) = (r, w')"
          using run False co nl nl' True
          by (simp add: zettide_spdk_nvme_controller_attach_def strnlen_eq [OF rd(2)] nl_def [symmetric] c_def)
        moreover have "ct_name c \<noteq> None" "ct_namespace_names c \<noteq> None" "arrays_sized k c" "\<not> ct_namespace_names_truncated c"
          using True by (simp_all add: c_def arrays_sized_def zero_controller_def)
        ultimately show ?thesis
          using attach_allocated_run [OF _ HOL.refl _ _ _ _ rd(1) assms(3-5)] by (simp add: co(1))
      next
        case failed: False
        have "r = (- ENOMEM, False) \<and> w' = w\<lparr>log := log w', ctl := c\<rparr>"
          using run False co nl nl' failed
          by (cases ?p; cases ?q)
            (auto simp: zettide_spdk_nvme_controller_attach_def strnlen_eq [OF rd(2)] nl_def [symmetric] c_def free_controller_def)
        then show ?thesis by (intro refused [where st = "- ENOMEM" and l = "log w'" and c = c]) simp_all
      qed
    qed
  qed
qed

subsection \<open>Detaching\<close>

definition detach_effect :: "int \<Rightarrow> 'x ctl_world_scheme \<Rightarrow> 'x ctl_world_scheme \<Rightarrow> bool" where
  "detach_effect st w w' \<longleftrightarrow> (\<exists>l. w' = w\<lparr>log := l, live := if st = 0 then remove1 Attached_controller (live w) else live w\<rparr>)"

lemma run_detach_run:
  assumes "run_state (run_detach env) w = (st, w')" and "Attached_controller \<in> set (live w)"
  shows "detach_effect st w w'"
proof -
  have w': "w' = final (run_detach env) w" and st: "st = result (run_detach env) w" using assms(1) by simp_all
  show ?thesis
    unfolding detach_effect_def
    by (rule exI [of _ "log w'"]) (use assms(2) in \<open>auto simp: w' st run_detach_def nvme_delete_callback_def detach_complete_def\<close>)
qed

lemma dispatch_detach_run:
  assumes "run_state (dispatch_controller_command env on_spdk Run_detach (run_detach env)) w = (st, w')"
    and "{Command_condition, Command_mutex} \<inter> set (live w) = {}" and "Attached_controller \<in> set (live w)"
  shows "detach_effect st w w'"
  using command_frame_run [OF assms(1) [unfolded dispatch_controller_command_def]]
proof (elim disjE exE conjE)
  fix l assume "st \<noteq> 0" "w' = w\<lparr>log := l\<rparr>"
  then show ?thesis unfolding detach_effect_def by (intro exI [of _ l]) simp
next
  fix l l' v
  let ?s = "Spdk_thread_send_msg (ct_owner (ctl w)) Run_detach"
  let ?x = "w\<lparr>log := l, live := Command_condition # Command_mutex # live w\<rparr>"
  let ?y = "?x\<lparr>log := l @ [?s]\<rparr>"
  assume body: "run_state (do { c \<leftarrow> gets ctl; rc \<leftarrow> ext env (Spdk_thread_send_msg (ct_owner c) Run_detach);
        if rc \<noteq> 0 then ret rc else run_detach env }) ?x = (st, v)"
    and w': "Command_condition \<in> set (live v) \<longrightarrow> Command_mutex \<in> set (live v) \<longrightarrow>
      w' = v\<lparr>log := l', live := remove1 Command_mutex (remove1 Command_condition (live v))\<rparr>"
  have "(st \<noteq> 0 \<and> v = ?y) \<or> run_state (run_detach env) ?y = (st, v)"
    using body by (auto split: if_splits)
  then have "detach_effect st ?y v"
    using run_detach_run [of env ?y st v] assms(3) unfolding detach_effect_def by (auto intro: exI [of _ "l @ [?s]"])
  then obtain l2 where v: "v = ?y\<lparr>log := l2, live := if st = 0 then remove1 Attached_controller (live ?y) else live ?y\<rparr>"
    unfolding detach_effect_def by (elim exE)
  show ?thesis
    unfolding detach_effect_def
    by (rule exI [of _ l']) (use w' assms(2) in \<open>simp add: v\<close>)
qed

lemma controller_detach_run:
  assumes "run_state (zettide_spdk_nvme_controller_detach env on_spdk True) w = (rc, w')"
    and "live w = Attached_controller # controller_objs @ ms" and "{Command_condition, Command_mutex} \<inter> set ms = {}"
    and "ct_name (ctl w) \<noteq> None" and "ct_namespace_names (ctl w) \<noteq> None" and "leases_held w \<noteq> 0"
  shows "\<exists>l. w' = (if rc = 0 then (with_leases (leases_held w - 1) w)\<lparr>log := l, live := ms\<rparr> else w\<lparr>log := l\<rparr>)"
proof -
  obtain q v where d: "run_state (dispatch_controller_command env on_spdk Run_detach (run_detach env)) w = (q, v)"
    by (rule prod.exhaust)
  have "detach_effect q w v" using dispatch_detach_run [OF d] assms(2,3) by simp
  then obtain l where "v = w\<lparr>log := l, live := if q = 0 then remove1 Attached_controller (live w) else live w\<rparr>"
    unfolding detach_effect_def ..
  then have v: "v = w\<lparr>log := l, live := if q = 0 then controller_objs @ ms else live w\<rparr>"
    using assms(2) by (cases "q = 0") simp_all
  have d2: "rc = q" "w' = (if q = 0 then final free_controller (final release_control_lease v) else v)"
    using assms(1) d by (auto simp: zettide_spdk_nvme_controller_detach_def whenM_def split: prod.splits if_splits)
  show ?thesis
  proof (cases "q = 0")
    case False
    with d2 v show ?thesis by (intro exI [of _ l]) simp
  next
    case True
    let ?x = "with_leases (leases_held w - 1) v"
    have "final release_control_lease v = ?x" using v assms(6) by (simp add: release_control_lease_run)
    moreover obtain l' where "run_state free_controller ?x = ((), ?x\<lparr>log := l', live := ms\<rparr>)"
      using free_controller_run [of ?x ms] assms(4,5) v True by (auto simp: with_leases_def)
    ultimately show ?thesis using d2 v True by (intro exI [of _ l']) (simp add: with_leases_def)
  qed
qed

text \<open>
  C12: Attaching and detaching a controller.  Attaching hands out a controller exactly when it returns 0;
  then it holds one lease, the controller's three allocations and SPDK's controller, and on every other
  path everything is as before.  A detach that fails changes nothing, so that it can be tried again; one
  that returns 0 gives the lease and all of this back.  Nothing is freed twice, and no string is read or
  written out of bounds.
\<close>

theorem controller_attach_detach:
  assumes "run_state (zettide_spdk_nvme_controller_attach env k default_hostnqn reply on_spdk rtm opts out) w = ((st, published), w1)"
    and "\<And>co. opts = Some co \<Longrightarrow> connection_readable k co \<and> opt_readable 512 (co_name co)"
    and "length default_hostnqn = sizeof_hostnqn k" and "\<not> aborted w"
    and "{Command_condition, Command_mutex} \<inter> set (live w) = {}" and "leases_held w \<noteq> UINT64_MAX"
    and "run_state (zettide_spdk_nvme_controller_detach env' on_spdk' True) w1 = (rc, w2)"
  shows "(published \<longleftrightarrow> st = 0) \<and> \<not> aborted w1 \<and>
    (if published then live w1 = Attached_controller # controller_objs @ live w \<and> leases_held w1 = leases_held w + 1 \<and> \<not> aborted w2 \<and>
       (if rc \<noteq> 0 then live w2 = live w1 \<and> leases_held w2 = leases_held w1 \<and> ctl w2 = ctl w1
        else live w2 = live w \<and> leases_held w2 = leases_held w)
     else live w1 = live w \<and> leases_held w1 = leases_held w)"
proof -
  note out = controller_attach_run [OF assms(1-3,5,6)]
  show ?thesis
  proof (cases published)
    case False
    with out assms(4) show ?thesis by (auto simp: attach_outcome_def controller_not_attached_def)
  next
    case True
    with out obtain l where w1: "w1 = (with_leases (leases_held w + 1) w)\<lparr>log := l, live := Attached_controller # controller_objs @ live w, ctl := ctl w1\<rparr>"
      and c: "attached_from reply (co_namespace_name_capacity (the opts)) (ctl w1)" "st = 0"
      by (auto simp: attach_outcome_def controller_attached_def)
    have w1': "leases_held w1 = leases_held w + 1" "live w1 = Attached_controller # controller_objs @ live w" "\<not> aborted w1"
      using assms(4) by (subst w1, simp add: with_leases_def)+
    have held: "leases_held w + 1 \<noteq> 0" using assms(6) by (metis add_eq_0_iff2)
    have names: "ct_name (ctl w1) \<noteq> None" "ct_namespace_names (ctl w1) \<noteq> None" "leases_held w1 \<noteq> 0"
      using c(1) held w1' by (auto simp: attached_from_def)
    from controller_detach_run [OF assms(7) w1'(2) assms(5) names]
    obtain l' where "w2 = (if rc = 0 then (with_leases (leases_held w1 - 1) w1)\<lparr>log := l', live := live w\<rparr> else w1\<lparr>log := l'\<rparr>)"
      by (elim exE)
    with True w1' c(2) show ?thesis by simp
  qed
qed

subsection \<open>The names of the namespaces\<close>

text \<open>
  What SPDK promises of the array it was given: it writes inside it, reports no more names than it has
  room for, and has written every name it reports, or filled the array when it reports that it was short.
\<close>

definition reply_ok :: "u32 \<Rightarrow> attach_reply \<Rightarrow> bool" where
  "reply_ok capacity reply \<longleftrightarrow> length (ar_names reply) = unat capacity \<and>
     (ar_status reply = 0 \<longrightarrow> unat (ar_bdev_count reply) \<le> unat capacity \<and>
        (\<forall>i < unat (ar_bdev_count reply). ar_names reply ! i \<noteq> None)) \<and>
     (ar_status reply = - ERANGE \<longrightarrow> (\<forall>i < unat capacity. ar_names reply ! i \<noteq> None))"

text \<open>
  C37: The names of an attached controller.  Reading a name never leaves the array; exactly the indices
  below the count have one, also when SPDK found more namespaces than there was room for, which the
  controller then reports; and the count is at most the capacity that was asked for.
\<close>

theorem namespace_names_in_bounds:
  assumes "run_state (zettide_spdk_nvme_controller_attach env k default_hostnqn reply on_spdk rtm (Some co) out) w = ((0, True), w1)"
    and "connection_readable k co \<and> opt_readable 512 (co_name co)" and "length default_hostnqn = sizeof_hostnqn k"
    and "{Command_condition, Command_mutex} \<inter> set (live w) = {}" and "leases_held w \<noteq> UINT64_MAX"
    and "reply_ok (co_namespace_name_capacity co) reply"
  shows "(\<exists>name. zettide_spdk_nvme_controller_get_namespace_name (Some (ctl w1)) index = Some name \<and>
       (name \<noteq> None \<longleftrightarrow> unat index < unat (zettide_spdk_nvme_controller_get_namespace_count (Some (ctl w1))))) \<and>
    unat (zettide_spdk_nvme_controller_get_namespace_count (Some (ctl w1))) \<le> unat (co_namespace_name_capacity co) \<and>
    (zettide_spdk_nvme_controller_namespace_names_truncated (Some (ctl w1)) \<longleftrightarrow> ar_status reply = - ERANGE)"
proof -
  have "attach_outcome reply (co_namespace_name_capacity co) (0, True) w w1"
    using controller_attach_run [OF assms(1) _ assms(3-5)] assms(2) by simp
  then have c: "attached_from reply (co_namespace_name_capacity co) (ctl w1)"
    by (simp add: attach_outcome_def controller_attached_def)
  then consider "ar_status reply = 0" "ct_namespace_count (ctl w1) = ar_bdev_count reply"
    | "ar_status reply = - ERANGE" "ct_namespace_count (ctl w1) = ucast (co_namespace_name_capacity co)"
    by (auto simp: attached_from_def)
  then show ?thesis
    using c assms(6)
    by cases (auto simp: attached_from_def reply_ok_def zettide_spdk_nvme_controller_get_namespace_name_def
      zettide_spdk_nvme_controller_get_namespace_count_def zettide_spdk_nvme_controller_namespace_names_truncated_def
      word_le_nat_alt not_le)
qed

subsection \<open>An attached controller\<close>

definition example_co :: controller_opts where
  "example_co = \<lparr>co_opts_size = 72, co_name = Some (''Nvme0'' @ [NUL]), co_transport = 0, co_address_family = 1,
     co_transport_address = Some (''10.0.0.1'' @ [NUL]), co_transport_service_id = Some (''4420'' @ [NUL]),
     co_subsystem_nqn = Some (''nqn.zettide'' @ [NUL]), co_host_nqn = None, co_connect_timeout_us = 10000000,
     co_namespace_name_capacity = 1\<rparr>"

text \<open>SPDK found two namespaces, and there was room for one name.\<close>

definition short_reply :: attach_reply where
  "short_reply = \<lparr>ar_status = - ERANGE, ar_bdev_count = 2, ar_names = [Some ''Nvme0n1'']\<rparr>"

definition ctl_ready :: ctl_world where
  "ctl_ready = \<lparr>log = [], aborted = False, live = [], mailbox = [],
     client_rt = zero_runtime\<lparr>rt_state := RUNTIME_READY, rt_owner := Some 1\<rparr>, ctl = zero_controller example_limits\<rparr>"

definition ctl_env :: env where
  "ctl_env l c = (case c of Calloc x \<Rightarrow> 1 | Calloc_size x n \<Rightarrow> 1 | Strdup x \<Rightarrow> 1 | _ \<Rightarrow> 0)"

abbreviation example_hostnqn :: "char list" where
  "example_hostnqn \<equiv> replicate (sizeof_hostnqn example_limits) NUL"

abbreviation example_attach :: "(ctl_world, int \<times> bool) state" where
  "example_attach \<equiv> zettide_spdk_nvme_controller_attach ctl_env example_limits example_hostnqn short_reply False True (Some example_co) True"

lemma example_readable: "connection_readable example_limits example_co" "opt_readable 512 (co_name example_co)"
  by (simp_all add: connection_readable_def opt_readable_def readable_def example_co_def)

lemma example_connects: "connection_valid example_limits example_co"
  by (simp add: connection_valid_def string_fits_def example_co_def example_limits_def)

theorem initialize_controller_iff_witness:
  "\<exists>c'. initialize_controller example_limits example_hostnqn example_co (zero_controller example_limits) = Some (0, c') \<and>
     c_string (ct_traddr c') = ''10.0.0.1'' \<and> c_string (ct_trsvcid c') = ''4420''"
  using initialize_controller_iff [OF example_readable(1), of example_hostnqn "zero_controller example_limits" None]
    example_connects
  by (auto simp: connection_valid_def connects_to_def zero_controller_def example_co_def)

lemma example_attached: "result example_attach ctl_ready = (0, True)"
proof -
  let ?c = "(zero_controller example_limits)\<lparr>ct_name := Some ''Nvme0'', ct_namespace_names := Some [None], ct_namespace_name_capacity := 1\<rparr>"
  have "arrays_sized example_limits ?c" by (simp add: arrays_sized_def zero_controller_def)
  from initialize_controller_run [OF example_readable(1) this, of example_hostnqn] example_connects
  obtain c' where "initialize_controller example_limits example_hostnqn example_co ?c = Some (0, c')"
    by auto
  moreover obtain name where "co_name example_co = Some name" "strnlen name 512 = Some 5" "c_string name = ''Nvme0''"
    by (rule that [of "''Nvme0'' @ [NUL]"]) (simp add: example_co_def, subst strnlen_eq, simp_all add: readable_def)
  moreover have "\<not> attach_args_invalid True (Some example_co) True" "co_namespace_name_capacity example_co = 1"
    by (simp_all add: attach_args_invalid_def example_co_def sizeof_controller_opts_def)
  ultimately show ?thesis
    by (simp add: zettide_spdk_nvme_controller_attach_def Let_def
        ctl_env_def ctl_ready_def attach_allocated_def acquire_control_lease_run runtime_ready_def with_leases_def
        dispatch_controller_command_def command_frame_def run_attach_def nvme_create_callback_def attach_complete_def short_reply_def)
qed

lemma example_detached: "result (zettide_spdk_nvme_controller_detach ctl_env False True) w = 0"
  by (simp add: zettide_spdk_nvme_controller_detach_def dispatch_controller_command_def command_frame_def run_detach_def
      nvme_delete_callback_def detach_complete_def ctl_env_def whenM_def run_give_back split_def)

theorem controller_attach_detach_witness:
  "\<exists>w1 w2. run_state example_attach ctl_ready = ((0, True), w1) \<and> live w1 = Attached_controller # controller_objs \<and>
     leases_held w1 = 1 \<and> run_state (zettide_spdk_nvme_controller_detach ctl_env False True) w1 = (0, w2) \<and>
     live w2 = [] \<and> leases_held w2 = 0"
proof -
  let ?w = "final example_attach ctl_ready"
  have a: "run_state example_attach ctl_ready = ((0, True), ?w)"
    using example_attached by (simp add: prod_eq_iff)
  have d: "run_state (zettide_spdk_nvme_controller_detach ctl_env False True) ?w =
      (0, final (zettide_spdk_nvme_controller_detach ctl_env False True) ?w)"
    using example_detached [of ?w] by (simp add: prod_eq_iff)
  from controller_attach_detach [OF a _ _ _ _ _ d] example_readable
  have "live ?w = Attached_controller # controller_objs \<and> leases_held ?w = 1 \<and>
      live (final (zettide_spdk_nvme_controller_detach ctl_env False True) ?w) = [] \<and>
      leases_held (final (zettide_spdk_nvme_controller_detach ctl_env False True) ?w) = 0"
    by (auto simp: ctl_ready_def zero_runtime_def)
  with a d show ?thesis by blast
qed

theorem namespace_names_in_bounds_witness:
  "zettide_spdk_nvme_controller_get_namespace_name (Some (ctl (final example_attach ctl_ready))) 1 = Some None \<and>
   zettide_spdk_nvme_controller_namespace_names_truncated (Some (ctl (final example_attach ctl_ready)))"
proof -
  have a: "run_state example_attach ctl_ready = ((0, True), final example_attach ctl_ready)"
    using example_attached by (simp add: prod_eq_iff)
  have "reply_ok (co_namespace_name_capacity example_co) short_reply"
    by (simp add: reply_ok_def short_reply_def example_co_def)
  with namespace_names_in_bounds [OF a, of 1] example_readable show ?thesis
    by (auto simp: ctl_ready_def zero_runtime_def short_reply_def example_co_def)
qed

end
