(* ===== verification/Export.thy ===== *)
theory Export
  imports Client CString "HOL-Library.Multiset"
begin

text \<open>
  The NVMe-oF/TCP exports of \<^verbatim>\<open>nvmf_tcp_export.c\<close>: the checks on the options, creation with its chain of
  SPDK callbacks and the rollback from each of its stages, and the close, which can fail at every stage
  and be tried again.  The command is on the stack of the caller, who returns once it is completed and
  may then free the export, so every access to the command or to the export checks that the command is
  not yet completed.  Where SPDK may call back before the function that starts an operation returns, the
  callback runs before the code after the call, which is the order that leaves that code the least.
\<close>

subsection \<open>Options\<close>

abbreviation ZETTIDE_SPDK_NVMF_BDEV_NAME_MAX :: nat where "ZETTIDE_SPDK_NVMF_BDEV_NAME_MAX \<equiv> 255"
abbreviation ZETTIDE_SPDK_NVMF_NSID_MAX :: u32 where "ZETTIDE_SPDK_NVMF_NSID_MAX \<equiv> 65535"
abbreviation ZETTIDE_SPDK_NVMF_TRANSPORT_TCP :: u32 where "ZETTIDE_SPDK_NVMF_TRANSPORT_TCP \<equiv> 0"

text \<open>
  \<open>eo_transport\<close> is \<open>None\<close> in a structure of a caller that ends before this field.
\<close>

record export_opts =
  eo_opts_size :: size_t
  eo_target_name :: "cstring option"
  eo_nqn :: "cstring option"
  eo_bdev_name :: "cstring option"
  eo_serial_number :: "cstring option"
  eo_model_number :: "cstring option"
  eo_host_nqn :: "cstring option"
  eo_traddr :: "cstring option"
  eo_trsvcid :: "cstring option"
  eo_nsid :: u32
  eo_allow_any_host :: bool
  eo_transport :: "u32 option"

text \<open>The offset of \<^verbatim>\<open>transport\<close> and its end under LP64.\<close>

definition ZETTIDE_SPDK_NVMF_BASE_OPTS_SIZE :: size_t where
  "ZETTIDE_SPDK_NVMF_BASE_OPTS_SIZE = 80"

definition ZETTIDE_SPDK_NVMF_TRANSPORT_OPTS_SIZE :: size_t where
  "ZETTIDE_SPDK_NVMF_TRANSPORT_OPTS_SIZE = ZETTIDE_SPDK_NVMF_BASE_OPTS_SIZE + 4"

definition valid_string :: "cstring option \<Rightarrow> nat \<Rightarrow> bool \<Rightarrow> bool option" where
  "valid_string value max_length optional =
     (case value of
        None \<Rightarrow> Some optional
      | Some s \<Rightarrow> do {
          length \<leftarrow> strnlen s (max_length + 1);
          Some (length \<noteq> 0 \<and> length \<le> max_length)
        })"

definition get_transport :: "export_opts \<Rightarrow> u32 option" where
  "get_transport opts =
     (if eo_opts_size opts < ZETTIDE_SPDK_NVMF_TRANSPORT_OPTS_SIZE then Some ZETTIDE_SPDK_NVMF_TRANSPORT_TCP
      else eo_transport opts)"

text \<open>A conjunction that stops at the first condition that is false; \<open>None\<close> is an access out of bounds.\<close>

fun all_hold :: "bool option list \<Rightarrow> bool option" where
  "all_hold [] = Some True"
| "all_hold (b # bs) = (case b of None \<Rightarrow> None | Some False \<Rightarrow> Some False | Some True \<Rightarrow> all_hold bs)"

definition validate_opts :: "spdk_limits \<Rightarrow> bool \<Rightarrow> export_opts option \<Rightarrow> bool \<Rightarrow> int option" where
  "validate_opts k runtime opts export_out =
     (case opts of
        None \<Rightarrow> Some (- EINVAL)
      | Some eo \<Rightarrow>
          if eo_opts_size eo < ZETTIDE_SPDK_NVMF_BASE_OPTS_SIZE \<or>
             (eo_opts_size eo > ZETTIDE_SPDK_NVMF_BASE_OPTS_SIZE \<and> eo_opts_size eo < ZETTIDE_SPDK_NVMF_TRANSPORT_OPTS_SIZE)
          then Some (- EINVAL)
          else do {
            transport \<leftarrow> get_transport eo;
            ok \<leftarrow> all_hold [Some runtime, Some export_out,
              valid_string (eo_target_name eo) (NVMF_TGT_NAME_MAX_LENGTH k - 1) True,
              valid_string (eo_nqn eo) (SPDK_NVMF_NQN_MAX_LEN k) False,
              valid_string (eo_bdev_name eo) ZETTIDE_SPDK_NVMF_BDEV_NAME_MAX False,
              valid_string (eo_serial_number eo) (SPDK_NVME_CTRLR_SN_LEN k) True,
              valid_string (eo_model_number eo) (SPDK_NVME_CTRLR_MN_LEN k) True,
              valid_string (eo_host_nqn eo) (SPDK_NVMF_NQN_MAX_LEN k) (eo_allow_any_host eo),
              valid_string (eo_traddr eo) (SPDK_NVMF_TRADDR_MAX_LEN k) False,
              valid_string (eo_trsvcid eo) (SPDK_NVMF_TRSVCID_MAX_LEN k) False,
              Some (eo_nsid eo \<noteq> 0), Some (eo_nsid eo \<le> ZETTIDE_SPDK_NVMF_NSID_MAX),
              Some (transport = ZETTIDE_SPDK_NVMF_TRANSPORT_TCP),
              Some (\<not> (eo_allow_any_host eo \<and> eo_host_nqn eo \<noteq> None))];
            Some (if ok then 0 else - EINVAL)
          })"

subsection \<open>State\<close>

text \<open>Pointers of SPDK are flags.  The strings are the copies made by \<^verbatim>\<open>strdup\<close>.\<close>

record export =
  ex_owner :: "thread option"
  ex_target :: bool
  ex_subsystem :: bool
  ex_traddr :: "char list"
  ex_trsvcid :: "char list"
  ex_target_name :: "cstring option"
  ex_nqn :: "cstring option"
  ex_bdev_name :: "cstring option"
  ex_serial_number :: "cstring option"
  ex_model_number :: "cstring option"
  ex_host_nqn :: "cstring option"
  ex_nsid :: u32
  ex_allow_any_host :: bool
  ex_target_listener_started :: bool
  ex_subsystem_listener_added :: bool
  ex_subsystem_stopped :: bool

text \<open>
  \<open>ec_status\<close> is the status a completed command has; \<open>sub_sn\<close> and \<open>sub_mn\<close> are the serial and model
  number in the options of the subsystem.
\<close>

record export_world = client_world +
  ex :: export
  ec_status :: "int option"
  ec_create_status :: int
  sub_sn :: "char list"
  sub_mn :: "char list"

definition command_alive :: "('x export_world_scheme, unit) state" where
  "command_alive = do { s \<leftarrow> gets ec_status; c_assert (s = None) }"

definition get_export :: "('x export_world_scheme, export) state" where
  "get_export = do { command_alive; gets ex }"

definition modify_export :: "(export \<Rightarrow> export) \<Rightarrow> ('x export_world_scheme, unit) state" where
  "modify_export f = do { command_alive; modify (\<lambda>w. w\<lparr>ex := f (ex w)\<rparr>) }"

definition export_complete_command :: "int \<Rightarrow> ('x export_world_scheme, unit) state" where
  "export_complete_command status = do { command_alive; modify (\<lambda>w. w\<lparr>ec_status := Some status\<rparr>) }"

text \<open>
  The caller waits until the command is completed.  A handler that returned without completing it, with
  no operation of SPDK under way, would leave the caller waiting for ever, which counts as a fault.
\<close>

definition dispatch_export_command ::
    "env \<Rightarrow> bool \<Rightarrow> msg \<Rightarrow> ('x export_world_scheme, unit) state \<Rightarrow> ('x export_world_scheme, int) state" where
  "dispatch_export_command env on_spdk_thread function handler =
     command_frame env on_spdk_thread (do {
       modify (\<lambda>w. w\<lparr>ec_status := None\<rparr>);
       h \<leftarrow> gets ex;
       rc \<leftarrow> ext env (Spdk_thread_send_msg (ex_owner h) function);
       if rc \<noteq> 0 then ret rc
       else do {
         handler;
         s \<leftarrow> gets ec_status;
         case s of None \<Rightarrow> do { c_abort; ret 0 } | Some status \<Rightarrow> ret status
       }
     })"

definition free_export :: "('x export_world_scheme, unit) state" where
  "free_export = do {
     h \<leftarrow> gets ex;
     free_ptr (ex_host_nqn h \<noteq> None) Export_host_nqn;
     free_ptr (ex_model_number h \<noteq> None) Export_model_number;
     free_ptr (ex_serial_number h \<noteq> None) Export_serial_number;
     free_ptr (ex_bdev_name h \<noteq> None) Export_bdev_name;
     free_ptr (ex_nqn h \<noteq> None) Export_nqn;
     free_ptr (ex_target_name h \<noteq> None) Export_target_name;
     free_ptr True Export_obj
   }"

subsection \<open>Taking the parts down\<close>

text \<open>
  SPDK's functions that take a listener away: after 0 it is gone, and after \<^verbatim>\<open>-ENOENT\<close> there is none.
\<close>

definition spdk_remove :: "env \<Rightarrow> call \<Rightarrow> obj \<Rightarrow> ('x world_scheme, int) state" where
  "spdk_remove env c x = do {
     rc \<leftarrow> ext env c;
     whenM (rc = 0 \<or> rc = - ENOENT) (give_back x);
     ret rc
   }"

text \<open>
  Lines 158 to 172 and 326 to 342, which differ only in what the caller does with an error, the result.
\<close>

definition remove_subsystem_listener :: "env \<Rightarrow> ('x export_world_scheme, int) state" where
  "remove_subsystem_listener env = do {
     h \<leftarrow> get_export;
     if ex_subsystem_listener_added h then do {
       rc \<leftarrow> spdk_remove env Spdk_nvmf_subsystem_remove_listener Subsystem_listener;
       if rc \<noteq> 0 \<and> rc \<noteq> - ENOENT then ret rc
       else do { modify_export (\<lambda>h. h\<lparr>ex_subsystem_listener_added := False\<rparr>); ret 0 }
     } else ret 0
   }"

definition stop_target_listener :: "env \<Rightarrow> ('x export_world_scheme, int) state" where
  "stop_target_listener env = do {
     h \<leftarrow> get_export;
     if ex_target_listener_started h then do {
       rc \<leftarrow> spdk_remove env Spdk_nvmf_tgt_stop_listen Target_listener;
       if rc \<noteq> 0 \<and> rc \<noteq> - ENOENT then ret rc
       else do { modify_export (\<lambda>h. h\<lparr>ex_target_listener_started := False\<rparr>); ret 0 }
     } else ret 0
   }"

text \<open>
  \<^verbatim>\<open>spdk_nvmf_subsystem_destroy\<close>: the subsystem is gone after 0, and after \<^verbatim>\<open>-EINPROGRESS\<close> when SPDK calls back.
\<close>

definition destroy_subsystem :: "env \<Rightarrow> ('x export_world_scheme, unit) state \<Rightarrow> ('x export_world_scheme, int) state" where
  "destroy_subsystem env callback = do {
     rc \<leftarrow> ext env Spdk_nvmf_subsystem_destroy;
     whenM (rc = 0 \<or> rc = - EINPROGRESS) (give_back Nvmf_subsystem);
     whenM (rc = - EINPROGRESS) callback;
     ret rc
   }"

definition stop_subsystem :: "env \<Rightarrow> (int \<Rightarrow> ('x export_world_scheme, unit) state) \<Rightarrow> ('x export_world_scheme, int) state" where
  "stop_subsystem env callback = do {
     rc \<leftarrow> ext env Spdk_nvmf_subsystem_stop;
     whenM (rc = 0) (do { status \<leftarrow> ext env Spdk_nvmf_subsystem_stop_callback; callback status });
     ret rc
   }"

subsection \<open>Creation\<close>

definition create_destroyed :: "('x export_world_scheme, unit) state" where
  "create_destroyed = do {
     modify_export (\<lambda>h. h\<lparr>ex_subsystem := False\<rparr>);
     status \<leftarrow> gets ec_create_status;
     export_complete_command status
   }"

definition finish_create_rollback :: "env \<Rightarrow> ('x export_world_scheme, unit) state" where
  "finish_create_rollback env = do {
     rc \<leftarrow> remove_subsystem_listener env;
     if rc \<noteq> 0 then c_abort
     else do {
       rc \<leftarrow> stop_target_listener env;
       if rc \<noteq> 0 then c_abort
       else do {
         rc \<leftarrow> destroy_subsystem env create_destroyed;
         if rc = 0 then do {
           modify_export (\<lambda>h. h\<lparr>ex_subsystem := False\<rparr>);
           status \<leftarrow> gets ec_create_status;
           export_complete_command status
         } else whenM (rc \<noteq> - EINPROGRESS) c_abort
       }
     }
   }"

definition create_rollback_stopped :: "env \<Rightarrow> int \<Rightarrow> ('x export_world_scheme, unit) state" where
  "create_rollback_stopped env status = (if status \<noteq> 0 then c_abort else finish_create_rollback env)"

definition rollback_create :: "env \<Rightarrow> ('x export_world_scheme, unit) state" where
  "rollback_create env = do {
     h \<leftarrow> get_export;
     rc \<leftarrow> stop_subsystem env (create_rollback_stopped env);
     whenM (rc \<noteq> 0) c_abort
   }"

text \<open>\<^verbatim>\<open>command->create_status = status; rollback_create(command);\<close>\<close>

definition fail_create :: "env \<Rightarrow> int \<Rightarrow> ('x export_world_scheme, unit) state" where
  "fail_create env status = do {
     command_alive;
     modify (\<lambda>w. w\<lparr>ec_create_status := status\<rparr>);
     rollback_create env
   }"

definition create_started :: "env \<Rightarrow> int \<Rightarrow> ('x export_world_scheme, unit) state" where
  "create_started env status = (if status = 0 then export_complete_command 0 else fail_create env status)"

definition create_listener_added :: "env \<Rightarrow> int \<Rightarrow> ('x export_world_scheme, unit) state" where
  "create_listener_added env status =
     (if status \<noteq> 0 then fail_create env status
      else do {
        modify_export (\<lambda>h. h\<lparr>ex_subsystem_listener_added := True\<rparr>);
        rc \<leftarrow> ext env Spdk_nvmf_subsystem_start;
        whenM (rc = 0) (do { status \<leftarrow> ext env Spdk_nvmf_subsystem_start_callback; create_started env status });
        whenM (rc \<noteq> 0) (fail_create env rc)
      })"

text \<open>Lines 277 to 308 of \<^verbatim>\<open>run_create\<close>: the subsystem has been created.\<close>

definition fill_subsystem :: "env \<Rightarrow> ('x export_world_scheme, unit) state" where
  "fill_subsystem env = do {
     h \<leftarrow> get_export;
     nsid \<leftarrow> ext env (Spdk_nvmf_subsystem_add_ns_ext (ex_nsid h));
     if word_of_int nsid \<noteq> ex_nsid h then fail_create env (- ENODEV)
     else do {
       rc \<leftarrow> (if ex_allow_any_host h then ext env Spdk_nvmf_subsystem_set_allow_any_host
              else ext env Spdk_nvmf_subsystem_add_host);
       if rc \<noteq> 0 then fail_create env rc
       else do {
         rc \<leftarrow> ext env Spdk_nvmf_tgt_listen_ext;
         if rc \<noteq> 0 then fail_create env rc
         else do {
           hold Target_listener;
           modify_export (\<lambda>h. h\<lparr>ex_target_listener_started := True\<rparr>);
           status \<leftarrow> ext env Spdk_nvmf_subsystem_add_listener;
           whenM (status = 0) (hold Subsystem_listener);
           create_listener_added env status
         }
       }
     }
   }"

definition copy_string :: "char list \<Rightarrow> cstring \<Rightarrow> char list option" where
  "copy_string destination source = do { n \<leftarrow> strlen source; memcpy destination source (n + 1) }"

definition copy_optional :: "char list \<Rightarrow> cstring option \<Rightarrow> char list option" where
  "copy_optional destination source = (case source of None \<Rightarrow> Some destination | Some s \<Rightarrow> copy_string destination s)"

text \<open>\<open>sn\<close> and \<open>mn\<close> are what \<^verbatim>\<open>spdk_nvmf_subsystem_opts_init\<close> puts into the two arrays.\<close>

definition run_create :: "env \<Rightarrow> char list \<Rightarrow> char list \<Rightarrow> ('x export_world_scheme, unit) state" where
  "run_create env sn mn = do {
     h \<leftarrow> get_export;
     target \<leftarrow> ext env Spdk_nvmf_get_tgt;
     modify_export (\<lambda>h. h\<lparr>ex_target := target \<noteq> 0\<rparr>);
     if target = 0 then export_complete_command (- ENODEV)
     else do {
       found \<leftarrow> ext env Spdk_nvmf_tgt_find_subsystem;
       if found \<noteq> 0 then export_complete_command (- EEXIST)
       else case (copy_optional sn (ex_serial_number h), copy_optional mn (ex_model_number h)) of
         (Some sn, Some mn) \<Rightarrow> do {
           modify (\<lambda>w. w\<lparr>sub_sn := sn, sub_mn := mn\<rparr>);
           subsystem \<leftarrow> ext env (Spdk_nvmf_subsystem_create_ext (ex_nsid h));
           modify_export (\<lambda>h. h\<lparr>ex_subsystem := subsystem \<noteq> 0\<rparr>);
           if subsystem = 0 then export_complete_command (- EINVAL)
           else do { hold Nvmf_subsystem; fill_subsystem env }
         }
       | _ \<Rightarrow> c_abort
     }
   }"

text \<open>The copy \<^verbatim>\<open>strdup\<close> makes, or \<^verbatim>\<open>NULL\<close>.\<close>

definition strdup_optional :: "env \<Rightarrow> obj \<Rightarrow> cstring option \<Rightarrow> ('x world_scheme, cstring option) state" where
  "strdup_optional env x source =
     (case source of
        None \<Rightarrow> ret None
      | Some s \<Rightarrow> do { ok \<leftarrow> alloc env (Strdup x) x; ret (if ok then Some (c_string s @ [NUL]) else None) })"

definition strdup_failed :: "export_opts \<Rightarrow> export \<Rightarrow> bool" where
  "strdup_failed eo h \<longleftrightarrow>
     eo_target_name eo \<noteq> None \<and> ex_target_name h = None \<or> ex_nqn h = None \<or> ex_bdev_name h = None \<or>
     eo_serial_number eo \<noteq> None \<and> ex_serial_number h = None \<or> eo_model_number eo \<noteq> None \<and> ex_model_number h = None \<or>
     eo_host_nqn eo \<noteq> None \<and> ex_host_nqn h = None"

text \<open>Lines 485 to 499: the strings have been copied.\<close>

definition create_copied ::
    "env \<Rightarrow> char list \<Rightarrow> char list \<Rightarrow> bool \<Rightarrow> export_opts \<Rightarrow> ('x export_world_scheme, int \<times> bool) state" where
  "create_copied env sn mn on_spdk_thread eo = do {
     h \<leftarrow> gets ex;
     case (copy_string (ex_traddr h) (the (eo_traddr eo)), copy_string (ex_trsvcid h) (the (eo_trsvcid eo))) of
       (Some traddr, Some trsvcid) \<Rightarrow> do {
         modify (\<lambda>w. w\<lparr>ex := h\<lparr>ex_nsid := eo_nsid eo, ex_allow_any_host := eo_allow_any_host eo,
           ex_traddr := traddr, ex_trsvcid := trsvcid\<rparr>, ec_create_status := 0\<rparr>);
         status \<leftarrow> dispatch_export_command env on_spdk_thread Run_create (run_create env sn mn);
         if status \<noteq> 0 then do { release_control_lease; free_export; ret (status, False) }
         else ret (0, True)
       }
     | _ \<Rightarrow> do { c_abort; ret (0, False) }
   }"

definition zero_export :: "spdk_limits \<Rightarrow> thread option \<Rightarrow> export" where
  "zero_export k owner = \<lparr>ex_owner = owner, ex_target = False, ex_subsystem = False,
     ex_traddr = replicate (sizeof_traddr k) NUL, ex_trsvcid = replicate (sizeof_trsvcid k) NUL,
     ex_target_name = None, ex_nqn = None, ex_bdev_name = None, ex_serial_number = None, ex_model_number = None,
     ex_host_nqn = None, ex_nsid = 0, ex_allow_any_host = False, ex_target_listener_started = False,
     ex_subsystem_listener_added = False, ex_subsystem_stopped = False\<rparr>"

definition copy_names :: "env \<Rightarrow> spdk_limits \<Rightarrow> thread option \<Rightarrow> export_opts \<Rightarrow> ('x export_world_scheme, unit) state" where
  "copy_names env k owner eo = do {
     target_name \<leftarrow> strdup_optional env Export_target_name (eo_target_name eo);
     nqn \<leftarrow> strdup_optional env Export_nqn (eo_nqn eo);
     bdev_name \<leftarrow> strdup_optional env Export_bdev_name (eo_bdev_name eo);
     serial_number \<leftarrow> strdup_optional env Export_serial_number (eo_serial_number eo);
     model_number \<leftarrow> strdup_optional env Export_model_number (eo_model_number eo);
     host_nqn \<leftarrow> strdup_optional env Export_host_nqn (eo_host_nqn eo);
     modify (\<lambda>w. w\<lparr>ex := (zero_export k owner)\<lparr>ex_target_name := target_name, ex_nqn := nqn, ex_bdev_name := bdev_name,
       ex_serial_number := serial_number, ex_model_number := model_number, ex_host_nqn := host_nqn\<rparr>\<rparr>)
   }"

text \<open>The result says, with the status, whether \<^verbatim>\<open>*export_out\<close> is the new export.\<close>

definition create_export ::
    "env \<Rightarrow> spdk_limits \<Rightarrow> char list \<Rightarrow> char list \<Rightarrow> bool \<Rightarrow> bool \<Rightarrow> export_opts option \<Rightarrow> bool \<Rightarrow>
     ('x export_world_scheme, int \<times> bool) state" where
  "create_export env k sn mn on_spdk_thread runtime opts export_out =
     (case validate_opts k runtime opts export_out of
        None \<Rightarrow> do { c_abort; ret (0, False) }
      | Some status \<Rightarrow>
          if status \<noteq> 0 then ret (status, False)
          else if on_spdk_thread then ret (- EDEADLK, False)
          else do {
            acq \<leftarrow> acquire_control_lease;
            if fst acq \<noteq> 0 then ret (fst acq, False)
            else do {
              ok \<leftarrow> alloc env (Calloc Export_obj) Export_obj;
              if \<not> ok then do { release_control_lease; ret (- ENOMEM, False) }
              else do {
                copy_names env k (snd acq) (the opts);
                h \<leftarrow> gets ex;
                if strdup_failed (the opts) h then do { free_export; release_control_lease; ret (- ENOMEM, False) }
                else create_copied env sn mn on_spdk_thread (the opts)
              }
            }
          })"

definition zettide_spdk_nvmf_tcp_export_create ::
    "env \<Rightarrow> spdk_limits \<Rightarrow> char list \<Rightarrow> char list \<Rightarrow> bool \<Rightarrow> bool \<Rightarrow> export_opts option \<Rightarrow> bool \<Rightarrow>
     ('x export_world_scheme, int \<times> bool) state" where
  "zettide_spdk_nvmf_tcp_export_create env k sn mn on_spdk_thread runtime opts export_out = do {
     rc \<leftarrow> ext env Pthread_setcancelstate;
     if rc \<noteq> 0 then ret (- rc, False)
     else do {
       r \<leftarrow> create_export env k sn mn on_spdk_thread runtime opts export_out;
       emit Pthread_setcancelstate;
       ret r
     }
   }"

subsection \<open>Close\<close>

definition close_destroyed :: "('x export_world_scheme, unit) state" where
  "close_destroyed = do {
     modify_export (\<lambda>h. h\<lparr>ex_subsystem := False\<rparr>);
     export_complete_command 0
   }"

definition continue_close :: "env \<Rightarrow> ('x export_world_scheme, unit) state" where
  "continue_close env = do {
     rc \<leftarrow> remove_subsystem_listener env;
     if rc \<noteq> 0 then export_complete_command rc
     else do {
       rc \<leftarrow> stop_target_listener env;
       if rc \<noteq> 0 then export_complete_command rc
       else do {
         h \<leftarrow> get_export;
         if \<not> ex_subsystem h then export_complete_command 0
         else do {
           rc \<leftarrow> destroy_subsystem env close_destroyed;
           if rc = 0 then do {
             modify_export (\<lambda>h. h\<lparr>ex_subsystem := False\<rparr>);
             export_complete_command 0
           } else whenM (rc \<noteq> - EINPROGRESS) (export_complete_command rc)
         }
       }
     }
   }"

definition close_stopped :: "env \<Rightarrow> int \<Rightarrow> ('x export_world_scheme, unit) state" where
  "close_stopped env status =
     (if status \<noteq> 0 then export_complete_command status
      else do { modify_export (\<lambda>h. h\<lparr>ex_subsystem_stopped := True\<rparr>); continue_close env })"

definition run_close :: "env \<Rightarrow> ('x export_world_scheme, unit) state" where
  "run_close env = do {
     h \<leftarrow> get_export;
     if \<not> ex_subsystem h \<or> ex_subsystem_stopped h then continue_close env
     else do {
       rc \<leftarrow> stop_subsystem env (close_stopped env);
       whenM (rc \<noteq> 0) (export_complete_command rc)
     }
   }"

definition close_export :: "env \<Rightarrow> bool \<Rightarrow> bool \<Rightarrow> ('x export_world_scheme, int) state" where
  "close_export env on_spdk_thread export_handle =
     (if \<not> export_handle then ret (- EINVAL)
      else if on_spdk_thread then ret (- EDEADLK)
      else do {
        status \<leftarrow> dispatch_export_command env on_spdk_thread Run_close (run_close env);
        whenM (status = 0) (do { release_control_lease; free_export });
        ret status
      })"

definition zettide_spdk_nvmf_tcp_export_close :: "env \<Rightarrow> bool \<Rightarrow> bool \<Rightarrow> ('x export_world_scheme, int) state" where
  "zettide_spdk_nvmf_tcp_export_close env on_spdk_thread export_handle = do {
     rc \<leftarrow> ext env Pthread_setcancelstate;
     if rc \<noteq> 0 then ret (- rc)
     else do {
       status \<leftarrow> close_export env on_spdk_thread export_handle;
       emit Pthread_setcancelstate;
       ret status
     }
   }"

end
