(* ===== verification/Export_Life.thy ===== *)
theory Export_Life
  imports Export
begin

text \<open>
  What the exports guarantee: which options are accepted; that creation hands out an export with every
  part of it in place or takes down all it had built, from every stage; that a close can be repeated
  until it succeeds and then has given everything back; and that no handler touches the command after
  completing it.
\<close>

subsection \<open>What an export holds\<close>

text \<open>
  The flags of the handle say which of SPDK's objects exist; \<open>F\<close> is everything else that is held.
\<close>

definition nvmf_objs :: "export \<Rightarrow> obj multiset" where
  "nvmf_objs h = (if ex_subsystem_listener_added h then {#Subsystem_listener#} else {#}) +
     (if ex_target_listener_started h then {#Target_listener#} else {#}) + (if ex_subsystem h then {#Nvmf_subsystem#} else {#})"

definition holding :: "obj multiset \<Rightarrow> 'x export_world_scheme \<Rightarrow> bool" where
  "holding F w \<longleftrightarrow> mset (live w) = nvmf_objs (ex w) + F"

text \<open>What the handlers leave alone.\<close>

definition export_core :: "export \<Rightarrow> export" where
  "export_core h = h\<lparr>ex_target := False, ex_subsystem := False, ex_target_listener_started := False,
     ex_subsystem_listener_added := False, ex_subsystem_stopped := False\<rparr>"

definition kept :: "'x export_world_scheme \<Rightarrow> 'x export_world_scheme \<Rightarrow> bool" where
  "kept w w' \<longleftrightarrow> client_rt w' = client_rt w \<and> mailbox w' = mailbox w \<and> export_core (ex w') = export_core (ex w)"

lemma kept_trans: "kept w w' \<Longrightarrow> kept w' w'' \<Longrightarrow> kept w w''"
  by (simp add: kept_def)

lemma export_core_update [simp]:
  "export_core (h\<lparr>ex_target := b\<rparr>) = export_core h" "export_core (h\<lparr>ex_subsystem := b\<rparr>) = export_core h"
  "export_core (h\<lparr>ex_target_listener_started := b\<rparr>) = export_core h"
  "export_core (h\<lparr>ex_subsystem_listener_added := b\<rparr>) = export_core h"
  "export_core (h\<lparr>ex_subsystem_stopped := b\<rparr>) = export_core h"
  by (simp_all add: export_core_def)

lemma holding_held:
  assumes "holding F w"
  shows "ex_subsystem_listener_added (ex w) \<Longrightarrow> Subsystem_listener \<in> set (live w)"
    "ex_target_listener_started (ex w) \<Longrightarrow> Target_listener \<in> set (live w)"
    "ex_subsystem (ex w) \<Longrightarrow> Nvmf_subsystem \<in> set (live w)"
proof -
  have "set (live w) = set_mset (nvmf_objs (ex w) + F)"
    using assms by (metis holding_def set_mset_mset)
  then show "ex_subsystem_listener_added (ex w) \<Longrightarrow> Subsystem_listener \<in> set (live w)"
    "ex_target_listener_started (ex w) \<Longrightarrow> Target_listener \<in> set (live w)"
    "ex_subsystem (ex w) \<Longrightarrow> Nvmf_subsystem \<in> set (live w)"
    by (auto simp: nvmf_objs_def)
qed

lemmas export_ops = command_alive_def get_export_def modify_export_def export_complete_command_def

text \<open>What taking the parts down relies on: SPDK does not refuse it.\<close>

definition teardown_ok :: "env \<Rightarrow> bool" where
  "teardown_ok env \<longleftrightarrow> (\<forall>l. env l Spdk_nvmf_subsystem_stop = 0 \<and> env l Spdk_nvmf_subsystem_stop_callback = 0 \<and>
     env l Spdk_nvmf_subsystem_remove_listener \<in> {0, - ENOENT} \<and> env l Spdk_nvmf_tgt_stop_listen \<in> {0, - ENOENT} \<and>
     env l Spdk_nvmf_subsystem_destroy \<in> {0, - EINPROGRESS})"

text \<open>A step that neither completes the command nor aborts.\<close>

definition quiet :: "'x export_world_scheme \<Rightarrow> 'x export_world_scheme \<Rightarrow> bool" where
  "quiet w w' \<longleftrightarrow> kept w w' \<and> aborted w' = aborted w \<and> ec_status w' = ec_status w \<and> ec_create_status w' = ec_create_status w"

lemma remove_subsystem_listener_run:
  assumes "run_state (remove_subsystem_listener env) w = (rc, w')" and "holding F w" and "ec_status w = None"
  shows "quiet w w' \<and> holding F w' \<and> (rc = 0 \<longrightarrow> \<not> ex_subsystem_listener_added (ex w')) \<and>
    ex_target_listener_started (ex w') = ex_target_listener_started (ex w) \<and> ex_subsystem (ex w') = ex_subsystem (ex w) \<and>
    ex_subsystem_stopped (ex w') = ex_subsystem_stopped (ex w) \<and> (teardown_ok env \<longrightarrow> rc = 0)"
proof -
  let ?c = Spdk_nvmf_subsystem_remove_listener
  have "(rc, w') = (if \<not> ex_subsystem_listener_added (ex w) then (0, w)
      else if env (log w) ?c = 0 \<or> env (log w) ?c = - ENOENT
      then (0, w\<lparr>log := log w @ [?c], live := remove1 Subsystem_listener (live w), ex := (ex w)\<lparr>ex_subsystem_listener_added := False\<rparr>\<rparr>)
      else (env (log w) ?c, w\<lparr>log := log w @ [?c]\<rparr>))"
    using assms(3) holding_held(1) [OF assms(2)] unfolding assms(1) [symmetric]
    by (simp add: remove_subsystem_listener_def spdk_remove_def export_ops)
  moreover have "mset (remove1 Subsystem_listener (live w)) = nvmf_objs ((ex w)\<lparr>ex_subsystem_listener_added := False\<rparr>) + F" if "ex_subsystem_listener_added (ex w)"
    using assms(2) that by (simp add: holding_def nvmf_objs_def)
  ultimately show ?thesis
    using assms(2,3) by (auto simp: quiet_def kept_def holding_def nvmf_objs_def teardown_ok_def split: if_splits)
qed

lemma stop_target_listener_run:
  assumes "run_state (stop_target_listener env) w = (rc, w')" and "holding F w" and "ec_status w = None"
  shows "quiet w w' \<and> holding F w' \<and> (rc = 0 \<longrightarrow> \<not> ex_target_listener_started (ex w')) \<and>
    ex_subsystem_listener_added (ex w') = ex_subsystem_listener_added (ex w) \<and> ex_subsystem (ex w') = ex_subsystem (ex w) \<and>
    ex_subsystem_stopped (ex w') = ex_subsystem_stopped (ex w) \<and> (teardown_ok env \<longrightarrow> rc = 0)"
proof -
  let ?c = Spdk_nvmf_tgt_stop_listen
  have "(rc, w') = (if \<not> ex_target_listener_started (ex w) then (0, w)
      else if env (log w) ?c = 0 \<or> env (log w) ?c = - ENOENT
      then (0, w\<lparr>log := log w @ [?c], live := remove1 Target_listener (live w), ex := (ex w)\<lparr>ex_target_listener_started := False\<rparr>\<rparr>)
      else (env (log w) ?c, w\<lparr>log := log w @ [?c]\<rparr>))"
    using assms(3) holding_held(2) [OF assms(2)] unfolding assms(1) [symmetric]
    by (simp add: stop_target_listener_def spdk_remove_def export_ops)
  moreover have "mset (remove1 Target_listener (live w)) = nvmf_objs ((ex w)\<lparr>ex_target_listener_started := False\<rparr>) + F" if "ex_target_listener_started (ex w)"
    using assms(2) that by (simp add: holding_def nvmf_objs_def)
  ultimately show ?thesis
    using assms(2,3) by (auto simp: quiet_def kept_def holding_def nvmf_objs_def teardown_ok_def split: if_splits)
qed

text \<open>Both listeners: what \<^verbatim>\<open>finish_create_rollback\<close> and \<^verbatim>\<open>continue_close\<close> have in common.\<close>

lemma listeners_run:
  assumes "run_state (do { rc \<leftarrow> remove_subsystem_listener env; if rc \<noteq> 0 then f rc
      else do { rc \<leftarrow> stop_target_listener env; if rc \<noteq> 0 then f rc else g } }) w = r"
    and "holding F w" and "ec_status w = None"
  obtains rc v where "quiet w v" and "holding F v" and "ex_subsystem (ex v) = ex_subsystem (ex w)" and "teardown_ok env \<longrightarrow> rc = 0"
    and "rc = 0 \<longrightarrow> \<not> ex_subsystem_listener_added (ex v) \<and> \<not> ex_target_listener_started (ex v)"
    and "run_state (if rc \<noteq> 0 then f rc else g) v = r"
proof -
  obtain rc v where v: "run_state (remove_subsystem_listener env) w = (rc, v)" by (rule prod.exhaust)
  note a = remove_subsystem_listener_run [OF v assms(2,3)]
  show thesis
  proof (cases "rc = 0")
    case False
    with assms(1) v a that [of v rc] show thesis by simp
  next
    case True
    have none: "ec_status v = None" using a assms(3) by (simp add: quiet_def)
    obtain rc' v' where v': "run_state (stop_target_listener env) v = (rc', v')" by (rule prod.exhaust)
    note b = stop_target_listener_run [OF v' _ none, of F]
    have "quiet w v'" using a b unfolding quiet_def by (auto intro: kept_trans)
    with True assms(1) v v' a b that [of v' rc'] show thesis by simp
  qed
qed

subsection \<open>Rollback\<close>

definition rolled_back :: "env \<Rightarrow> obj multiset \<Rightarrow> int \<Rightarrow> 'x export_world_scheme \<Rightarrow> 'x export_world_scheme \<Rightarrow> bool" where
  "rolled_back env F status w w' \<longleftrightarrow> kept w w' \<and> (teardown_ok env \<longrightarrow> \<not> aborted w') \<and>
     (\<not> aborted w' \<longrightarrow> ec_status w' = Some status \<and> mset (live w') = F)"

lemma finish_create_rollback_run:
  assumes "run_state (finish_create_rollback env) w = ((), w')" and "holding F w" and "ec_status w = None"
    and "\<not> aborted w" and "ex_subsystem (ex w)"
  shows "rolled_back env F (ec_create_status w) w w'"
proof -
  obtain rc :: int and v where
    v: "quiet w v" "holding F v" "ex_subsystem (ex v) = ex_subsystem (ex w)" "teardown_ok env \<longrightarrow> rc = 0"
      "rc = 0 \<longrightarrow> \<not> ex_subsystem_listener_added (ex v) \<and> \<not> ex_target_listener_started (ex v)"
    and run: "run_state (if rc \<noteq> 0 then c_abort else do {
         rc \<leftarrow> destroy_subsystem env create_destroyed;
         if rc = 0 then do {
           modify_export (\<lambda>h. h\<lparr>ex_subsystem := False\<rparr>);
           status \<leftarrow> gets ec_create_status;
           export_complete_command status
         } else whenM (rc \<noteq> - EINPROGRESS) c_abort }) v = ((), w')"
    by (rule listeners_run [OF assms(1) [unfolded finish_create_rollback_def] assms(2,3)])
  have sub: "ex_subsystem (ex v)" using v(3) assms(5) by simp
  have q: "kept w v" "\<not> aborted v" "ec_status v = None" "ec_create_status v = ec_create_status w"
    using v(1) assms(3,4) by (simp_all add: quiet_def)
  have "rolled_back env F (ec_create_status v) v w'"
  proof (cases "rc = 0")
    case True
    with v(2,5) sub have "mset (live v) = {#Nvmf_subsystem#} + F" by (simp add: holding_def nvmf_objs_def)
    with True run q holding_held(3) [OF v(2) sub] show ?thesis
      by (cases "env (log v) Spdk_nvmf_subsystem_destroy = 0"; cases "env (log v) Spdk_nvmf_subsystem_destroy = - EINPROGRESS")
        (auto simp: destroy_subsystem_def create_destroyed_def export_ops rolled_back_def kept_def teardown_ok_def)
  next
    case False
    with run v(4) show ?thesis by (auto simp: rolled_back_def kept_def)
  qed
  with q(1,4) show ?thesis by (auto simp: rolled_back_def intro: kept_trans)
qed

lemma rollback_create_run:
  assumes "run_state (rollback_create env) w = ((), w')" and "holding F w" and "ec_status w = None"
    and "\<not> aborted w" and "ex_subsystem (ex w)"
  shows "rolled_back env F (ec_create_status w) w w'"
proof -
  let ?s = Spdk_nvmf_subsystem_stop and ?c = Spdk_nvmf_subsystem_stop_callback
  let ?x = "w\<lparr>log := log w @ [?s, ?c]\<rparr>"
  show ?thesis
  proof (cases "env (log w) ?s = 0 \<and> env (log w @ [?s]) ?c = 0")
    case True
    then have "run_state (finish_create_rollback env) ?x = ((), w')"
      using assms(1,3) by (auto simp: rollback_create_def stop_subsystem_def create_rollback_stopped_def export_ops split: prod.splits)
    then have "rolled_back env F (ec_create_status ?x) ?x w'"
      using assms(2-5) by (intro finish_create_rollback_run) (simp_all add: holding_def)
    then show ?thesis by (simp add: rolled_back_def kept_def)
  next
    case False
    then have "\<not> teardown_ok env" by (auto simp: teardown_ok_def)
    with False show ?thesis
      using assms(1,3) by (auto simp: rollback_create_def stop_subsystem_def create_rollback_stopped_def export_ops rolled_back_def kept_def
          split: if_splits)
  qed
qed

lemma fail_create_run:
  assumes "run_state (fail_create env status) w = ((), w')" and "holding F w" and "ec_status w = None"
    and "\<not> aborted w" and "ex_subsystem (ex w)"
  shows "rolled_back env F status w w'"
proof -
  let ?x = "w\<lparr>ec_create_status := status\<rparr>"
  have "run_state (rollback_create env) ?x = ((), w')"
    using assms(1,3) by (simp add: fail_create_def export_ops)
  then have "rolled_back env F (ec_create_status ?x) ?x w'"
    using assms(2-5) by (intro rollback_create_run) (simp_all add: holding_def)
  then show ?thesis by (simp add: rolled_back_def kept_def)
qed

subsection \<open>Creation on the owner thread\<close>

definition created :: "export \<Rightarrow> bool" where
  "created h \<longleftrightarrow> ex_subsystem h \<and> ex_target_listener_started h \<and> ex_subsystem_listener_added h \<and> \<not> ex_subsystem_stopped h"

definition create_done :: "env \<Rightarrow> obj multiset \<Rightarrow> 'x export_world_scheme \<Rightarrow> 'x export_world_scheme \<Rightarrow> bool" where
  "create_done env F w w' \<longleftrightarrow> kept w w' \<and> (teardown_ok env \<longrightarrow> \<not> aborted w') \<and>
     (\<not> aborted w' \<longrightarrow> (\<exists>st. ec_status w' = Some st \<and> (if st = 0 then created (ex w') \<and> holding F w' else mset (live w') = F)))"

lemma create_done_rolled_back: "rolled_back env F st v w' \<Longrightarrow> st \<noteq> 0 \<Longrightarrow> kept w v \<Longrightarrow> create_done env F w w'"
  by (auto simp: rolled_back_def create_done_def intro: kept_trans)

lemma fail_create_done:
  assumes "run_state (fail_create env status) v = ((), w')" and "status \<noteq> 0" and "kept w v"
    and "holding F v" and "ec_status v = None" and "\<not> aborted v" and "ex_subsystem (ex v)"
  shows "create_done env F w w'"
  by (rule create_done_rolled_back [OF fail_create_run [OF assms(1,4-7)] assms(2,3)])

lemma create_listener_added_run:
  assumes "run_state (create_listener_added env status) v = ((), w')" and "kept w v"
    and "mset (live v) = (if status = 0 then {#Subsystem_listener#} else {#}) + {#Target_listener#} + {#Nvmf_subsystem#} + F"
    and "ec_status v = None" and "\<not> aborted v"
    and "ex_subsystem (ex v)" "ex_target_listener_started (ex v)" "\<not> ex_subsystem_listener_added (ex v)" "\<not> ex_subsystem_stopped (ex v)"
  shows "create_done env F w w'"
proof (cases "status = 0")
  case False
  with assms show ?thesis
    by (intro fail_create_done [of env status v w' w F]) (simp_all add: create_listener_added_def holding_def nvmf_objs_def)
next
  case True
  let ?s = Spdk_nvmf_subsystem_start and ?c = Spdk_nvmf_subsystem_start_callback
  let ?x = "v\<lparr>ex := (ex v)\<lparr>ex_subsystem_listener_added := True\<rparr>\<rparr>"
  define x where "x = ?x\<lparr>log := log v @ (if env (log v) ?s = 0 then [?s, ?c] else [?s])\<rparr>"
  define rc where "rc = (if env (log v) ?s = 0 then env (log v @ [?s]) ?c else env (log v) ?s)"
  have x: "holding F x" "ec_status x = None" "\<not> aborted x" "created (ex x)" "kept w x"
    using assms True by (simp_all add: x_def holding_def nvmf_objs_def created_def kept_def)
  have run: "run_state (if rc = 0 then export_complete_command 0 else fail_create env rc) x = ((), w')"
    using assms(1,4) True
    by (auto simp: x_def rc_def create_listener_added_def create_started_def export_ops whenM_def split: if_splits prod.splits)
  show ?thesis
  proof (cases "rc = 0")
    case True
    with run x show ?thesis by (auto simp: export_ops create_done_def created_def kept_def holding_def)
  next
    case False
    with run x show ?thesis by (intro fail_create_done [of env rc x w' w F]) (simp_all add: created_def)
  qed
qed

lemma fill_subsystem_run:
  assumes "run_state (fill_subsystem env) v = ((), w')" and "kept w v" and "mset (live v) = {#Nvmf_subsystem#} + F"
    and "ec_status v = None" and "\<not> aborted v"
    and "ex_subsystem (ex v)" "\<not> ex_target_listener_started (ex v)" "\<not> ex_subsystem_listener_added (ex v)" "\<not> ex_subsystem_stopped (ex v)"
  shows "create_done env F w w'"
proof -
  let ?a = "Spdk_nvmf_subsystem_add_ns_ext (ex_nsid (ex v))"
  define b where "b = (if ex_allow_any_host (ex v) then Spdk_nvmf_subsystem_set_allow_any_host else Spdk_nvmf_subsystem_add_host)"
  let ?c = Spdk_nvmf_tgt_listen_ext and ?d = Spdk_nvmf_subsystem_add_listener
  have held: "holding F (v\<lparr>log := l\<rparr>)" "kept w (v\<lparr>log := l\<rparr>)" for l
    using assms(2,3,6-8) by (simp_all add: holding_def nvmf_objs_def kept_def)
  have fail: "create_done env F w w'" if "run_state (fail_create env status) (v\<lparr>log := l\<rparr>) = ((), w')" "status \<noteq> 0" for status l
    using fail_create_done [OF that held(2,1)] assms(4-6) by simp
  have host: "(if ex_allow_any_host (ex v) then ext env Spdk_nvmf_subsystem_set_allow_any_host else ext env Spdk_nvmf_subsystem_add_host) =
      ext env b" by (simp add: b_def)
  consider "word_of_int (env (log v) ?a) \<noteq> ex_nsid (ex v)"
    | "word_of_int (env (log v) ?a) = ex_nsid (ex v)" "env (log v @ [?a]) b \<noteq> 0"
    | "word_of_int (env (log v) ?a) = ex_nsid (ex v)" "env (log v @ [?a]) b = 0" "env (log v @ [?a, b]) ?c \<noteq> 0"
    | "word_of_int (env (log v) ?a) = ex_nsid (ex v)" "env (log v @ [?a]) b = 0" "env (log v @ [?a, b]) ?c = 0"
    by blast
  then show ?thesis
  proof cases
    case 1
    then show ?thesis
      using assms(1,4) by (intro fail [of "- ENODEV" "log v @ [?a]"]) (simp_all add: fill_subsystem_def export_ops)
  next
    case 2
    then show ?thesis
      using assms(1,4) by (intro fail [of "env (log v @ [?a]) b" "log v @ [?a, b]"]) (simp_all add: fill_subsystem_def export_ops host)
  next
    case 3
    then show ?thesis
      using assms(1,4) by (intro fail [of "env (log v @ [?a, b]) ?c" "log v @ [?a, b, ?c]"]) (simp_all add: fill_subsystem_def export_ops host)
  next
    case 4
    define st where "st = env (log v @ [?a, b, ?c]) ?d"
    define y0 where "y0 = v\<lparr>live := Target_listener # live v, ex := (ex v)\<lparr>ex_target_listener_started := True\<rparr>,
      log := log v @ [?a, b, ?c, ?d]\<rparr>"
    define y where "y = (if st = 0 then y0\<lparr>live := Subsystem_listener # Target_listener # live v\<rparr> else y0)"
    have "run_state (create_listener_added env st) y = ((), w')"
      using 4 assms(1,4) by (cases "st = 0") (simp_all add: fill_subsystem_def export_ops host y_def y0_def st_def)
    moreover have "mset (live y) = (if st = 0 then {#Subsystem_listener#} else {#}) + {#Target_listener#} + {#Nvmf_subsystem#} + F"
      using assms(3) by (simp add: y_def y0_def)
    ultimately show ?thesis
      using assms by (intro create_listener_added_run [of env st y w' w F]) (simp_all add: y_def y0_def kept_def)
  qed
qed

definition nothing_created :: "export \<Rightarrow> bool" where
  "nothing_created h \<longleftrightarrow> \<not> ex_subsystem h \<and> \<not> ex_target_listener_started h \<and> \<not> ex_subsystem_listener_added h \<and> \<not> ex_subsystem_stopped h"

lemma create_done_status:
  "kept w w' \<Longrightarrow> \<not> aborted w' \<Longrightarrow> ec_status w' = Some st \<Longrightarrow> st \<noteq> 0 \<Longrightarrow> mset (live w') = F \<Longrightarrow> create_done env F w w'"
  by (simp add: create_done_def)

lemma run_create_run:
  assumes "run_state (run_create env sn mn) w = ((), w')" and "mset (live w) = F" and "ec_status w = None" and "\<not> aborted w"
    and "nothing_created (ex w)"
    and "copy_optional sn (ex_serial_number (ex w)) = Some sn'" "copy_optional mn (ex_model_number (ex w)) = Some mn'"
  shows "create_done env F w w'"
proof -
  let ?a = Spdk_nvmf_get_tgt and ?b = Spdk_nvmf_tgt_find_subsystem and ?c = "Spdk_nvmf_subsystem_create_ext (ex_nsid (ex w))"
  consider "env (log w) ?a = 0" | "env (log w) ?a \<noteq> 0" "env (log w @ [?a]) ?b \<noteq> 0"
    | "env (log w) ?a \<noteq> 0" "env (log w @ [?a]) ?b = 0" "env (log w @ [?a, ?b]) ?c = 0"
    | "env (log w) ?a \<noteq> 0" "env (log w @ [?a]) ?b = 0" "env (log w @ [?a, ?b]) ?c \<noteq> 0"
    by blast
  then show ?thesis
  proof cases
    case 1
    then show ?thesis
      using assms by (intro create_done_status [of _ _ "- ENODEV"]) (auto simp: run_create_def export_ops kept_def)
  next
    case 2
    then show ?thesis
      using assms by (intro create_done_status [of _ _ "- EEXIST"]) (auto simp: run_create_def export_ops kept_def)
  next
    case 3
    then show ?thesis
      using assms by (intro create_done_status [of _ _ "- EINVAL"]) (auto simp: run_create_def export_ops kept_def)
  next
    case 4
    obtain v where v: "run_state (fill_subsystem env) v = ((), w')" "live v = Nvmf_subsystem # live w" "client_rt v = client_rt w"
      "mailbox v = mailbox w" "ex v = (ex w)\<lparr>ex_target := True, ex_subsystem := True\<rparr>" "ec_status v = None" "\<not> aborted v"
      using 4 assms(1,3,4,6,7) by (auto simp: run_create_def export_ops)
    show ?thesis
      using v(2-) assms(2,5) by (intro fill_subsystem_run [OF v(1)]) (simp_all add: nothing_created_def kept_def)
  qed
qed

subsection \<open>Close on the owner thread\<close>

text \<open>
  The command is completed with nothing lost: what SPDK still has is what the flags say, nothing at all
  if the status is 0.
\<close>

definition close_done :: "env \<Rightarrow> obj multiset \<Rightarrow> 'x export_world_scheme \<Rightarrow> 'x export_world_scheme \<Rightarrow> bool" where
  "close_done env F w w' \<longleftrightarrow> kept w w' \<and> \<not> aborted w' \<and> holding F w' \<and>
     (\<exists>st. ec_status w' = Some st \<and> (st = 0 \<longrightarrow> nvmf_objs (ex w') = {#}) \<and> (teardown_ok env \<longrightarrow> st = 0))"

lemma continue_close_run:
  assumes "run_state (continue_close env) w = ((), w')" and "holding F w" and "ec_status w = None" and "\<not> aborted w"
  shows "close_done env F w w'"
proof -
  obtain rc v where
    v: "quiet w v" "holding F v" "ex_subsystem (ex v) = ex_subsystem (ex w)" "teardown_ok env \<longrightarrow> rc = 0"
      "rc = 0 \<longrightarrow> \<not> ex_subsystem_listener_added (ex v) \<and> \<not> ex_target_listener_started (ex v)"
    and run: "run_state (if rc \<noteq> 0 then export_complete_command rc else do {
         h \<leftarrow> get_export;
         if \<not> ex_subsystem h then export_complete_command 0
         else do {
           rc \<leftarrow> destroy_subsystem env close_destroyed;
           if rc = 0 then do {
             modify_export (\<lambda>h. h\<lparr>ex_subsystem := False\<rparr>);
             export_complete_command 0
           } else whenM (rc \<noteq> - EINPROGRESS) (export_complete_command rc)
         } }) v = ((), w')"
    by (rule listeners_run [OF assms(1) [unfolded continue_close_def] assms(2,3)])
  have q: "kept w v" "\<not> aborted v" "ec_status v = None" using v(1) assms(3,4) by (simp_all add: quiet_def)
  have "close_done env F v w'"
  proof (cases "rc = 0 \<and> ex_subsystem (ex v)")
    case False
    then have "w' = v\<lparr>ec_status := Some rc\<rparr>" using run q(3) by (cases "rc = 0") (auto simp: export_ops)
    with False q v show ?thesis by (auto simp: close_done_def kept_def holding_def nvmf_objs_def)
  next
    case True
    let ?d = "env (log v) Spdk_nvmf_subsystem_destroy"
    have F: "mset (live v) = {#Nvmf_subsystem#} + F" using True v(2,5) by (simp add: holding_def nvmf_objs_def)
    have "if ?d = 0 \<or> ?d = - EINPROGRESS
        then live w' = remove1 Nvmf_subsystem (live v) \<and> ex w' = (ex v)\<lparr>ex_subsystem := False\<rparr> \<and> ec_status w' = Some 0
        else live w' = live v \<and> ex w' = ex v \<and> ec_status w' = Some ?d"
      "client_rt w' = client_rt v" "mailbox w' = mailbox v" "\<not> aborted w'"
      using True run q holding_held(3) [OF v(2)]
      by (auto simp: destroy_subsystem_def close_destroyed_def export_ops whenM_def split: if_splits)
    then show ?thesis
      using True v(2,5) F by (auto simp: close_done_def kept_def holding_def nvmf_objs_def teardown_ok_def split: if_splits)
  qed
  with q(1) show ?thesis by (auto simp: close_done_def intro: kept_trans)
qed

lemma run_close_run:
  assumes "run_state (run_close env) w = ((), w')" and "holding F w" and "ec_status w = None" and "\<not> aborted w"
  shows "close_done env F w w'"
proof -
  let ?s = Spdk_nvmf_subsystem_stop and ?c = Spdk_nvmf_subsystem_stop_callback
  consider "\<not> ex_subsystem (ex w) \<or> ex_subsystem_stopped (ex w)"
    | "ex_subsystem (ex w)" "\<not> ex_subsystem_stopped (ex w)" "env (log w) ?s = 0" "env (log w @ [?s]) ?c = 0"
    | "ex_subsystem (ex w)" "\<not> ex_subsystem_stopped (ex w)" "env (log w) ?s \<noteq> 0 \<or> env (log w @ [?s]) ?c \<noteq> 0"
    by blast
  then show ?thesis
  proof cases
    case 1
    with assms(1,3) have "run_state (continue_close env) w = ((), w')" by (auto simp: run_close_def export_ops)
    then show ?thesis using assms(2-4) by (rule continue_close_run)
  next
    case 2
    let ?x = "w\<lparr>log := log w @ [?s, ?c], ex := (ex w)\<lparr>ex_subsystem_stopped := True\<rparr>\<rparr>"
    have "run_state (continue_close env) ?x = ((), w')"
      using 2 assms(1,3) by (auto simp: run_close_def stop_subsystem_def close_stopped_def export_ops split: prod.splits)
    then have "close_done env F ?x w'"
      using assms(2-4) by (intro continue_close_run) (simp_all add: holding_def nvmf_objs_def)
    then show ?thesis by (simp add: close_done_def kept_def)
  next
    case 3
    then have "\<not> teardown_ok env" by (auto simp: teardown_ok_def)
    with 3 show ?thesis
      using assms by (auto simp: run_close_def stop_subsystem_def close_stopped_def export_ops close_done_def kept_def holding_def split: if_splits)
  qed
qed

subsection \<open>Options\<close>

definition string_ok :: "nat \<Rightarrow> bool \<Rightarrow> cstring option \<Rightarrow> bool" where
  "string_ok max_length optional s = (case s of None \<Rightarrow> optional | Some t \<Rightarrow> 0 < length (c_string t) \<and> length (c_string t) \<le> max_length)"

definition string_readable :: "nat \<Rightarrow> cstring option \<Rightarrow> bool" where
  "string_readable max_length s = (case s of None \<Rightarrow> True | Some t \<Rightarrow> readable (max_length + 1) t)"

lemma valid_string_eq: "string_readable n s \<Longrightarrow> valid_string s n optional = Some (string_ok n optional s)"
  by (auto simp: string_readable_def valid_string_def string_ok_def strnlen_eq min_def split: option.splits)

definition export_readable :: "spdk_limits \<Rightarrow> export_opts \<Rightarrow> bool" where
  "export_readable k eo \<longleftrightarrow>
     string_readable (NVMF_TGT_NAME_MAX_LENGTH k - 1) (eo_target_name eo) \<and> string_readable (SPDK_NVMF_NQN_MAX_LEN k) (eo_nqn eo) \<and>
     string_readable ZETTIDE_SPDK_NVMF_BDEV_NAME_MAX (eo_bdev_name eo) \<and>
     string_readable (SPDK_NVME_CTRLR_SN_LEN k) (eo_serial_number eo) \<and> string_readable (SPDK_NVME_CTRLR_MN_LEN k) (eo_model_number eo) \<and>
     string_readable (SPDK_NVMF_NQN_MAX_LEN k) (eo_host_nqn eo) \<and> string_readable (SPDK_NVMF_TRADDR_MAX_LEN k) (eo_traddr eo) \<and>
     string_readable (SPDK_NVMF_TRSVCID_MAX_LEN k) (eo_trsvcid eo) \<and>
     (ZETTIDE_SPDK_NVMF_TRANSPORT_OPTS_SIZE \<le> eo_opts_size eo \<longrightarrow> eo_transport eo \<noteq> None)"

definition export_fields_valid :: "spdk_limits \<Rightarrow> export_opts \<Rightarrow> bool" where
  "export_fields_valid k eo \<longleftrightarrow>
     string_ok (NVMF_TGT_NAME_MAX_LENGTH k - 1) True (eo_target_name eo) \<and> string_ok (SPDK_NVMF_NQN_MAX_LEN k) False (eo_nqn eo) \<and>
     string_ok 255 False (eo_bdev_name eo) \<and>
     string_ok (SPDK_NVME_CTRLR_SN_LEN k) True (eo_serial_number eo) \<and> string_ok (SPDK_NVME_CTRLR_MN_LEN k) True (eo_model_number eo) \<and>
     string_ok (SPDK_NVMF_TRADDR_MAX_LEN k) False (eo_traddr eo) \<and> string_ok (SPDK_NVMF_TRSVCID_MAX_LEN k) False (eo_trsvcid eo) \<and>
     (if eo_allow_any_host eo then eo_host_nqn eo = None else string_ok (SPDK_NVMF_NQN_MAX_LEN k) False (eo_host_nqn eo)) \<and>
     1 \<le> unat (eo_nsid eo) \<and> unat (eo_nsid eo) \<le> 65535"

definition export_valid :: "spdk_limits \<Rightarrow> export_opts \<Rightarrow> bool" where
  "export_valid k eo \<longleftrightarrow> export_fields_valid k eo \<and>
     (unat (eo_opts_size eo) = 80 \<or> 84 \<le> unat (eo_opts_size eo) \<and> eo_transport eo = Some 0)"

lemma all_hold_Some: "all_hold (map Some bs) = Some (\<forall>b \<in> set bs. b)"
  by (induction bs) (auto split: bool.splits)

lemma validate_opts_eq:
  assumes "export_readable k eo"
  shows "validate_opts k runtime (Some eo) export_out = Some (if runtime \<and> export_out \<and> export_valid k eo then 0 else - EINVAL)"
proof -
  have size: "eo_opts_size eo < ZETTIDE_SPDK_NVMF_BASE_OPTS_SIZE \<longleftrightarrow> unat (eo_opts_size eo) < 80"
    "eo_opts_size eo > ZETTIDE_SPDK_NVMF_BASE_OPTS_SIZE \<longleftrightarrow> 80 < unat (eo_opts_size eo)"
    "eo_opts_size eo < ZETTIDE_SPDK_NVMF_TRANSPORT_OPTS_SIZE \<longleftrightarrow> unat (eo_opts_size eo) < 84"
    by (simp_all add: ZETTIDE_SPDK_NVMF_BASE_OPTS_SIZE_def ZETTIDE_SPDK_NVMF_TRANSPORT_OPTS_SIZE_def word_less_nat_alt)
  have nsid: "eo_nsid eo \<noteq> 0 \<longleftrightarrow> 1 \<le> unat (eo_nsid eo)" "eo_nsid eo \<le> ZETTIDE_SPDK_NVMF_NSID_MAX \<longleftrightarrow> unat (eo_nsid eo) \<le> 65535"
    by (simp_all add: unat_gt_0 Suc_le_eq word_le_nat_alt)
  have host: "string_ok n (eo_allow_any_host eo) (eo_host_nqn eo) \<and> \<not> (eo_allow_any_host eo \<and> eo_host_nqn eo \<noteq> None) \<longleftrightarrow>
      (if eo_allow_any_host eo then eo_host_nqn eo = None else string_ok n False (eo_host_nqn eo))" for n
    by (auto simp: string_ok_def split: option.splits)
  have strings: "all_hold [Some runtime, Some export_out,
      valid_string (eo_target_name eo) (NVMF_TGT_NAME_MAX_LENGTH k - 1) True,
      valid_string (eo_nqn eo) (SPDK_NVMF_NQN_MAX_LEN k) False,
      valid_string (eo_bdev_name eo) ZETTIDE_SPDK_NVMF_BDEV_NAME_MAX False,
      valid_string (eo_serial_number eo) (SPDK_NVME_CTRLR_SN_LEN k) True,
      valid_string (eo_model_number eo) (SPDK_NVME_CTRLR_MN_LEN k) True,
      valid_string (eo_host_nqn eo) (SPDK_NVMF_NQN_MAX_LEN k) (eo_allow_any_host eo),
      valid_string (eo_traddr eo) (SPDK_NVMF_TRADDR_MAX_LEN k) False,
      valid_string (eo_trsvcid eo) (SPDK_NVMF_TRSVCID_MAX_LEN k) False,
      Some (eo_nsid eo \<noteq> 0), Some (eo_nsid eo \<le> ZETTIDE_SPDK_NVMF_NSID_MAX), Some (t = ZETTIDE_SPDK_NVMF_TRANSPORT_TCP),
      Some (\<not> (eo_allow_any_host eo \<and> eo_host_nqn eo \<noteq> None))] =
    Some (runtime \<and> export_out \<and> t = 0 \<and> export_fields_valid k eo)" for t
  proof -
    let ?n = "SPDK_NVMF_NQN_MAX_LEN k"
    let ?bs = "[runtime, export_out, string_ok (NVMF_TGT_NAME_MAX_LENGTH k - 1) True (eo_target_name eo),
        string_ok ?n False (eo_nqn eo), string_ok 255 False (eo_bdev_name eo),
        string_ok (SPDK_NVME_CTRLR_SN_LEN k) True (eo_serial_number eo), string_ok (SPDK_NVME_CTRLR_MN_LEN k) True (eo_model_number eo),
        string_ok ?n (eo_allow_any_host eo) (eo_host_nqn eo), string_ok (SPDK_NVMF_TRADDR_MAX_LEN k) False (eo_traddr eo),
        string_ok (SPDK_NVMF_TRSVCID_MAX_LEN k) False (eo_trsvcid eo), eo_nsid eo \<noteq> 0, eo_nsid eo \<le> ZETTIDE_SPDK_NVMF_NSID_MAX,
        t = ZETTIDE_SPDK_NVMF_TRANSPORT_TCP, \<not> (eo_allow_any_host eo \<and> eo_host_nqn eo \<noteq> None)]"
    have "(\<forall>b \<in> set ?bs. b) \<longleftrightarrow> runtime \<and> export_out \<and> t = 0 \<and> export_fields_valid k eo"
      using host [of ?n] unfolding export_fields_valid_def nsid [symmetric] by auto
    with all_hold_Some [of ?bs] assms show ?thesis
      by (simp add: export_readable_def valid_string_eq del: all_hold.simps)
  qed
  consider "unat (eo_opts_size eo) < 80" | "unat (eo_opts_size eo) = 80" | "80 < unat (eo_opts_size eo)" "unat (eo_opts_size eo) < 84"
    | t where "84 \<le> unat (eo_opts_size eo)" "eo_transport eo = Some t"
    using assms by (fastforce simp: export_readable_def not_less size(3) simp flip: linorder_not_less)
  then show ?thesis
    unfolding validate_opts_def option.case strings size by cases (auto simp: size get_transport_def export_valid_def)
qed

text \<open>
  C38: The options of an export.  When every string may be read as far as its limit, and the structure has
  the transport if its size says so, nothing is read out of bounds.  The options are accepted exactly
  when the structure is the one without the transport or has a transport field that says TCP, every
  string is within its limit and not empty, a host is named exactly when not all hosts are allowed, and
  the namespace id is between 1 and 65535.
\<close>

theorem validate_opts_iff:
  assumes "export_readable k eo"
  shows "\<exists>status. validate_opts k runtime (Some eo) export_out = Some status \<and> status \<in> {0, - EINVAL} \<and>
    (status = 0 \<longleftrightarrow> runtime \<and> export_out \<and>
       string_ok (NVMF_TGT_NAME_MAX_LENGTH k - 1) True (eo_target_name eo) \<and> string_ok (SPDK_NVMF_NQN_MAX_LEN k) False (eo_nqn eo) \<and>
       string_ok 255 False (eo_bdev_name eo) \<and>
       string_ok (SPDK_NVME_CTRLR_SN_LEN k) True (eo_serial_number eo) \<and> string_ok (SPDK_NVME_CTRLR_MN_LEN k) True (eo_model_number eo) \<and>
       string_ok (SPDK_NVMF_TRADDR_MAX_LEN k) False (eo_traddr eo) \<and> string_ok (SPDK_NVMF_TRSVCID_MAX_LEN k) False (eo_trsvcid eo) \<and>
       (if eo_allow_any_host eo then eo_host_nqn eo = None else string_ok (SPDK_NVMF_NQN_MAX_LEN k) False (eo_host_nqn eo)) \<and>
       1 \<le> unat (eo_nsid eo) \<and> unat (eo_nsid eo) \<le> 65535 \<and>
       (unat (eo_opts_size eo) = 80 \<or> 84 \<le> unat (eo_opts_size eo) \<and> eo_transport eo = Some 0))"
  using validate_opts_eq [OF assms, of runtime export_out] unfolding export_valid_def export_fields_valid_def conj_assoc
  by (intro exI conjI, assumption) simp_all

subsection \<open>The memory of an export\<close>

text \<open>The pointers in the order in which they are freed, with whether they are set.\<close>

definition export_ptrs :: "export \<Rightarrow> (bool \<times> obj) list" where
  "export_ptrs h = [(ex_host_nqn h \<noteq> None, Export_host_nqn), (ex_model_number h \<noteq> None, Export_model_number),
     (ex_serial_number h \<noteq> None, Export_serial_number), (ex_bdev_name h \<noteq> None, Export_bdev_name),
     (ex_nqn h \<noteq> None, Export_nqn), (ex_target_name h \<noteq> None, Export_target_name), (True, Export_obj)]"

definition export_objs :: "export \<Rightarrow> obj multiset" where
  "export_objs h = mset (map snd (filter fst (export_ptrs h)))"

fun frees :: "(bool \<times> obj) list \<Rightarrow> ('x world_scheme, unit) state" where
  "frees [] = ret ()"
| "frees (p # ps) = do { free_ptr (fst p) (snd p); frees ps }"

lemma frees_run:
  assumes "mset (live w) = mset (map snd (filter fst ps)) + G"
  shows "\<exists>l L. run_state (frees ps) w = ((), w\<lparr>log := l, live := L\<rparr>) \<and> mset L = G"
  using assms
proof (induction ps arbitrary: w)
  case Nil
  then show ?case by (intro exI [of _ "log w"] exI [of _ "live w"]) simp
next
  case (Cons p ps)
  obtain b x where p: "p = (b, x)" by (rule prod.exhaust)
  let ?w = "w\<lparr>log := log w @ [Free x], live := if b then remove1 x (live w) else live w\<rparr>"
  have "x \<in> set (live w)" if b
    using Cons.prems that by (simp add: p) (metis set_mset_mset union_single_eq_member)
  then have "run_state (free_ptr b x) w = ((), ?w)" by (simp add: free_ptr_def)
  moreover obtain l L where "run_state (frees ps) ?w = ((), ?w\<lparr>log := l, live := L\<rparr>)" "mset L = G"
    using Cons.IH [of ?w] Cons.prems p by (auto split: if_splits)
  ultimately show ?case
    by (intro exI [of _ l] exI [of _ L]) (simp add: p)
qed

lemma free_export_frees: "run_state free_export w = run_state (frees (export_ptrs (ex w))) w"
  by (simp add: free_export_def export_ptrs_def State_Monad.bind_assoc)

lemma free_export_run:
  assumes "mset (live w) = export_objs (ex w) + G"
  shows "\<exists>l L. run_state free_export w = ((), w\<lparr>log := l, live := L\<rparr>) \<and> mset L = G"
  unfolding free_export_frees by (rule frees_run [OF assms [unfolded export_objs_def]])

lemma strdup_optional_run:
  assumes "run_state (strdup_optional env x s) w = (r, w')"
  shows "\<exists>l L. w' = w\<lparr>log := l, live := L\<rparr> \<and> mset L = mset (map snd (filter fst [(r \<noteq> None, x)])) + mset (live w) \<and>
    (r = None \<or> (\<exists>t. s = Some t \<and> r = Some (c_string t @ [NUL])))"
proof (cases s)
  case None
  with assms show ?thesis by (intro exI [of _ "log w"] exI [of _ "live w"]) (auto simp: strdup_optional_def)
next
  case (Some t)
  with assms show ?thesis
    by (intro exI [of _ "log w @ [Strdup x]"] exI [of _ "live w'"])
      (auto simp: strdup_optional_def split: if_splits)
qed

definition copied :: "cstring option \<Rightarrow> cstring option \<Rightarrow> bool" where
  "copied s r \<longleftrightarrow> r = None \<or> (\<exists>t. s = Some t \<and> r = Some (c_string t @ [NUL]))"

lemma copy_names_run:
  assumes "run_state (copy_names env k owner eo) w = ((), w')" and "mset (live w) = {#Export_obj#} + G"
  shows "\<exists>l L h. w' = w\<lparr>log := l, live := L, ex := h\<rparr> \<and> mset L = export_objs h + G \<and> nothing_created h \<and> ex_owner h = owner \<and>
    ex_traddr h = replicate (sizeof_traddr k) NUL \<and> ex_trsvcid h = replicate (sizeof_trsvcid k) NUL \<and>
    copied (eo_serial_number eo) (ex_serial_number h) \<and> copied (eo_model_number eo) (ex_model_number h)"
proof -
  obtain a1 w1 where 1: "run_state (strdup_optional env Export_target_name (eo_target_name eo)) w = (a1, w1)" by (rule prod.exhaust)
  obtain a2 w2 where 2: "run_state (strdup_optional env Export_nqn (eo_nqn eo)) w1 = (a2, w2)" by (rule prod.exhaust)
  obtain a3 w3 where 3: "run_state (strdup_optional env Export_bdev_name (eo_bdev_name eo)) w2 = (a3, w3)" by (rule prod.exhaust)
  obtain a4 w4 where 4: "run_state (strdup_optional env Export_serial_number (eo_serial_number eo)) w3 = (a4, w4)" by (rule prod.exhaust)
  obtain a5 w5 where 5: "run_state (strdup_optional env Export_model_number (eo_model_number eo)) w4 = (a5, w5)" by (rule prod.exhaust)
  obtain a6 w6 where 6: "run_state (strdup_optional env Export_host_nqn (eo_host_nqn eo)) w5 = (a6, w6)" by (rule prod.exhaust)
  let ?h = "(zero_export k owner)\<lparr>ex_target_name := a1, ex_nqn := a2, ex_bdev_name := a3, ex_serial_number := a4,
    ex_model_number := a5, ex_host_nqn := a6\<rparr>"
  have w': "w' = w6\<lparr>ex := ?h\<rparr>" using assms(1) 1 2 3 4 5 6 by (simp add: copy_names_def)
  note s = strdup_optional_run [OF 1] strdup_optional_run [OF 2] strdup_optional_run [OF 3] strdup_optional_run [OF 4]
    strdup_optional_run [OF 5] strdup_optional_run [OF 6]
  have "w6 = w\<lparr>log := log w6, live := live w6\<rparr>" using s by (elim exE conjE) simp
  moreover have "mset (live w6) = export_objs ?h + G"
    using s assms(2) by (elim exE conjE) (simp add: export_objs_def export_ptrs_def)
  moreover have "copied (eo_serial_number eo) a4" "copied (eo_model_number eo) a5"
    using s(4,5) unfolding copied_def by blast+
  ultimately show ?thesis
    using w' by (intro exI [of _ "log w6"] exI [of _ "live w6"] exI [of _ ?h]) (simp add: nothing_created_def zero_export_def)
qed

lemma copy_string_fits:
  assumes "NUL \<in> set s" and "length (c_string s) < length d"
  shows "\<exists>d'. copy_string d s = Some d' \<and> c_string d' = c_string s \<and> length d' = length d"
  using assms memcpy_string [OF assms] by (simp add: copy_string_def strlen_eq)

lemma copy_required_fits:
  assumes "string_ok n False s" and "string_readable n s" and "length d = n + 1"
  shows "\<exists>d'. copy_string d (the s) = Some d' \<and> c_string d' = c_string (the s)"
proof -
  obtain t where t: "s = Some t" "length (c_string t) < n + 1" "readable (n + 1) t"
    using assms(1,2) by (auto simp: string_ok_def string_readable_def split: option.splits)
  with copy_string_fits [OF short_string_terminated [OF t(3,2)], of d] assms(3) show ?thesis by auto
qed

lemma copy_optional_fits:
  assumes "string_ok n True s" and "copied s r" and "length d = n + 1"
  shows "\<exists>d'. copy_optional d r = Some d'"
proof (cases r)
  case (Some r')
  then obtain t where "s = Some t" "r' = c_string t @ [NUL]" using assms(2) by (auto simp: copied_def)
  with assms(1,3) Some copy_string_fits [of r' d] show ?thesis
    by (auto simp: copy_optional_def string_ok_def)
qed (simp add: copy_optional_def)

subsection \<open>Commands\<close>

lemma dispatch_export_run:
  assumes "run_state (dispatch_export_command env on_spdk m handler) w = (st, w')"
  obtains (refused) l s where "st \<noteq> 0" and "w' = w\<lparr>log := l, ec_status := s\<rparr>"
  | (handled) l l' x v where "x = w\<lparr>log := l, live := Command_condition # Command_mutex # live w, ec_status := None\<rparr>"
      and "run_state handler x = ((), v)" and "aborted v \<or> ec_status v = None \<longrightarrow> aborted w'"
      and "{#Command_condition, Command_mutex#} \<subseteq># mset (live v) \<longrightarrow> ec_status v \<noteq> None \<longrightarrow>
        ec_status v = Some st \<and> w' = v\<lparr>log := l', live := remove1 Command_mutex (remove1 Command_condition (live v))\<rparr>"
  using command_frame_run [OF assms [unfolded dispatch_export_command_def]]
proof (elim disjE exE conjE)
  fix l assume "st \<noteq> 0" "w' = w\<lparr>log := l\<rparr>"
  then show thesis by (intro refused [where l = l and s = "ec_status w"]) simp_all
next
  fix l l' v
  let ?s = "Spdk_thread_send_msg (ex_owner (ex w)) m"
  let ?x = "w\<lparr>log := l, live := Command_condition # Command_mutex # live w\<rparr>"
  let ?y = "w\<lparr>log := l @ [?s], live := Command_condition # Command_mutex # live w, ec_status := None\<rparr>"
  assume body: "run_state (do { modify (\<lambda>w. w\<lparr>ec_status := None\<rparr>); h \<leftarrow> gets ex;
        rc \<leftarrow> ext env (Spdk_thread_send_msg (ex_owner h) m);
        if rc \<noteq> 0 then ret rc
        else do { handler; s \<leftarrow> gets ec_status; case s of None \<Rightarrow> do { c_abort; ret 0 } | Some status \<Rightarrow> ret status } }) ?x = (st, v)"
    and w': "Command_condition \<in> set (live v) \<longrightarrow> Command_mutex \<in> set (live v) \<longrightarrow>
      w' = v\<lparr>log := l', live := remove1 Command_mutex (remove1 Command_condition (live v))\<rparr>" "aborted v \<longrightarrow> aborted w'"
  have y: "?y = w\<lparr>live := Command_condition # Command_mutex # live w, ec_status := None, log := l @ [?s]\<rparr>" by simp
  show thesis
  proof (cases "env l ?s = 0")
    case False
    with body have "st \<noteq> 0" "v = ?y" by auto
    with w' show thesis by (intro refused [where l = l' and s = None]) simp_all
  next
    case True
    obtain u where u: "run_state handler ?y = ((), u)" by (metis old.unit.exhaust surj_pair)
    with True body have v: "case ec_status u of None \<Rightarrow> st = 0 \<and> v = u\<lparr>aborted := True\<rparr> | Some s \<Rightarrow> st = s \<and> v = u"
      unfolding y by (auto split: option.splits)
    have "x \<in> set (live u)" if "{#Command_condition, Command_mutex#} \<subseteq># mset (live u)" "x \<in> {Command_condition, Command_mutex}" for x
      using mset_subset_eqD [OF that(1), of x] that(2) by auto
    with u v w' show thesis
      by (intro handled [where x = ?y and l = "l @ [?s]" and v = u and l' = l']) (auto split: option.splits)
  qed
qed

lemma export_objs_export_core: "export_objs (export_core h) = export_objs h"
  by (simp add: export_core_def export_objs_def export_ptrs_def)

lemma export_objs_core: "export_core h = export_core h' \<Longrightarrow> export_objs h = export_objs h'"
  by (metis export_objs_export_core)

text \<open>A failed creation, and a close that succeeded, give up the lease and the memory.\<close>

lemma give_up_run:
  assumes "mset (live u) = export_objs (ex u) + G" and "leases_held u \<noteq> 0"
  shows "\<exists>l L. run_state (do { release_control_lease; free_export }) u =
    ((), (with_leases (leases_held u - 1) u)\<lparr>log := l, live := L\<rparr>) \<and> mset L = G"
proof -
  have "mset (live (with_leases (leases_held u - 1) u)) = export_objs (ex (with_leases (leases_held u - 1) u)) + G"
    using assms(1) by (simp add: with_leases_def)
  from free_export_run [OF this] assms(2) show ?thesis by (simp add: release_control_lease_run)
qed

lemma frees_aborted: "aborted w \<Longrightarrow> aborted (final (frees ps) w)"
proof (induction ps arbitrary: w)
  case (Cons p ps)
  have "aborted (final (free_ptr (fst p) (snd p)) w)" using Cons.prems by (simp add: free_ptr_def run_give_back)
  with Cons.IH show ?case by (simp split: prod.splits) (metis snd_conv)
qed simp

lemma give_up_aborted:
  assumes "aborted u" shows "aborted (final (do { release_control_lease; free_export }) u)"
proof -
  obtain v where v: "run_state release_control_lease u = ((), v)" by (metis old.unit.exhaust surj_pair)
  then have "aborted v" using assms by (auto simp: release_control_lease_def split: option.splits)
  with v show ?thesis by (simp add: free_export_frees frees_aborted)
qed

text \<open>\<open>G\<close> is what is held and \<open>R\<close> the runtime before the call.\<close>

definition create_outcome :: "env \<Rightarrow> obj multiset \<Rightarrow> runtime \<Rightarrow> int \<times> bool \<Rightarrow> 'x export_world_scheme \<Rightarrow> bool" where
  "create_outcome env G R r w' \<longleftrightarrow> (teardown_ok env \<longrightarrow> \<not> aborted w') \<and>
     (\<not> aborted w' \<longrightarrow> (snd r \<longleftrightarrow> fst r = 0) \<and>
       (if snd r then created (ex w') \<and> rt_state R = RUNTIME_READY \<and>
          client_rt w' = R\<lparr>rt_active_leases := rt_active_leases R + 1\<rparr> \<and> mset (live w') = nvmf_objs (ex w') + export_objs (ex w') + G
        else client_rt w' = R \<and> mset (live w') = G))"

lemma dispatch_create_run:
  assumes "run_state (dispatch_export_command env on_spdk Run_create (run_create env sn mn)) w = (st, u)"
    and "\<not> aborted w" and "mset (live w) = export_objs (ex w) + G" and "nothing_created (ex w)"
    and "copy_optional sn (ex_serial_number (ex w)) = Some sn'" "copy_optional mn (ex_model_number (ex w)) = Some mn'"
  shows "(teardown_ok env \<longrightarrow> \<not> aborted u) \<and> (\<not> aborted u \<longrightarrow> client_rt u = client_rt w \<and> export_objs (ex u) = export_objs (ex w) \<and>
    (if st = 0 then created (ex u) \<and> mset (live u) = nvmf_objs (ex u) + export_objs (ex u) + G
     else mset (live u) = export_objs (ex u) + G))"
  using assms(1)
proof (cases rule: dispatch_export_run)
  case (refused l s)
  with assms(2,3) show ?thesis by simp
next
  case (handled l l' x v)
  let ?F = "mset (live x)"
  have x: "ec_status x = None" "\<not> aborted x" "nothing_created (ex x)"
    "copy_optional sn (ex_serial_number (ex x)) = Some sn'" "copy_optional mn (ex_model_number (ex x)) = Some mn'"
    using handled(1) assms(2-) by simp_all
  have d: "create_done env ?F x v" by (rule run_create_run [OF handled(2) refl x])
  have F: "?F = {#Command_condition, Command_mutex#} + (export_objs (ex w) + G)" using handled(1) assms(3) by simp
  show ?thesis
  proof (cases "aborted v")
    case True
    with handled(3) d show ?thesis by (auto simp: create_done_def)
  next
    case False
    with d obtain s where s: "ec_status v = Some s" "if s = 0 then created (ex v) \<and> holding ?F v else mset (live v) = ?F"
      and k: "kept x v" by (auto simp: create_done_def)
    have "{#Command_condition, Command_mutex#} \<subseteq># mset (live v)"
      using s(2) unfolding F holding_def by (auto split: if_splits intro: subset_mset.add_increasing subset_mset.add_increasing2)
    with handled(4) s(1) have u: "s = st" "u = v\<lparr>log := l', live := remove1 Command_mutex (remove1 Command_condition (live v))\<rparr>"
      by simp_all
    have "mset (live u) = mset (live v) - {#Command_condition, Command_mutex#}"
      using u(2) by (simp add: add_mset_commute)
    moreover have "export_objs (ex u) = export_objs (ex w)" "client_rt u = client_rt w"
      using k u(2) handled(1) export_objs_core [of "ex v" "ex x"] by (simp_all add: kept_def)
    ultimately show ?thesis
      using s(2) u False unfolding F holding_def by (auto split: if_splits)
  qed
qed

subsection \<open>Creating an export\<close>

definition limits_fit :: "spdk_limits \<Rightarrow> char list \<Rightarrow> char list \<Rightarrow> bool" where
  "limits_fit k sn mn \<longleftrightarrow> limits_ok k \<and> length sn = sizeof_sn k \<and> length mn = sizeof_mn k"

lemma create_copied_run:
  assumes "run_state (create_copied env sn mn on_spdk eo) v = (r, w')" and "\<not> aborted v"
    and "mset (live v) = export_objs (ex v) + G" and "nothing_created (ex v)"
    and "ex_traddr (ex v) = replicate (sizeof_traddr k) NUL" "ex_trsvcid (ex v) = replicate (sizeof_trsvcid k) NUL"
    and "copied (eo_serial_number eo) (ex_serial_number (ex v))" "copied (eo_model_number eo) (ex_model_number (ex v))"
    and "export_readable k eo" and "export_fields_valid k eo" and "limits_fit k sn mn"
    and "client_rt v = R\<lparr>rt_active_leases := rt_active_leases R + 1\<rparr>" and "rt_active_leases R + 1 \<noteq> 0" and "rt_state R = RUNTIME_READY"
  shows "create_outcome env G R r w'"
proof -
  have lim: "sizeof_traddr k = SPDK_NVMF_TRADDR_MAX_LEN k + 1" "sizeof_trsvcid k = SPDK_NVMF_TRSVCID_MAX_LEN k + 1"
    "length sn = SPDK_NVME_CTRLR_SN_LEN k + 1" "length mn = SPDK_NVME_CTRLR_MN_LEN k + 1"
    using assms(11) by (simp_all add: limits_fit_def limits_ok_def)
  obtain a b where ab: "copy_string (ex_traddr (ex v)) (the (eo_traddr eo)) = Some a" "copy_string (ex_trsvcid (ex v)) (the (eo_trsvcid eo)) = Some b"
    using copy_required_fits [of "SPDK_NVMF_TRADDR_MAX_LEN k" "eo_traddr eo" "ex_traddr (ex v)"]
      copy_required_fits [of "SPDK_NVMF_TRSVCID_MAX_LEN k" "eo_trsvcid eo" "ex_trsvcid (ex v)"] assms(5,6,9,10) lim
    by (auto simp: export_readable_def export_fields_valid_def)
  obtain sn' mn' where c: "copy_optional sn (ex_serial_number (ex v)) = Some sn'" "copy_optional mn (ex_model_number (ex v)) = Some mn'"
    using copy_optional_fits [OF _ assms(7) lim(3)] copy_optional_fits [OF _ assms(8) lim(4)] assms(10)
    by (auto simp: export_fields_valid_def)
  define x where "x = v\<lparr>ex := (ex v)\<lparr>ex_nsid := eo_nsid eo, ex_allow_any_host := eo_allow_any_host eo, ex_traddr := a, ex_trsvcid := b\<rparr>,
    ec_create_status := 0\<rparr>"
  have x: "\<not> aborted x" "mset (live x) = export_objs (ex x) + G" "nothing_created (ex x)"
    "client_rt x = R\<lparr>rt_active_leases := rt_active_leases R + 1\<rparr>"
    "copy_optional sn (ex_serial_number (ex x)) = Some sn'" "copy_optional mn (ex_model_number (ex x)) = Some mn'"
    using assms(2-4,12) c by (simp_all add: x_def export_objs_def export_ptrs_def nothing_created_def)
  obtain st u where d: "run_state (dispatch_export_command env on_spdk Run_create (run_create env sn mn)) x = (st, u)"
    by (rule prod.exhaust)
  note u = dispatch_create_run [OF d x(1-3,5,6)]
  have w': "r = (if st = 0 then (0, True) else (st, False))"
      "w' = (if st = 0 then u else final (do { release_control_lease; free_export }) u)"
    using assms(1) ab d by (auto simp: create_copied_def x_def split: if_splits prod.splits)
  show ?thesis
  proof (cases "st = 0")
    case True
    with w' u x(4) assms(14) show ?thesis by (auto simp: create_outcome_def)
  next
    case False
    show ?thesis
    proof (cases "aborted u")
      case True
      with False w' u give_up_aborted show ?thesis by (auto simp: create_outcome_def)
    next
      case na: False
      with u False x(4) have r: "mset (live u) = export_objs (ex u) + G" "client_rt u = R\<lparr>rt_active_leases := rt_active_leases R + 1\<rparr>"
        by simp_all
      with give_up_run [OF r(1)] assms(13) obtain l L' where
        "w' = (with_leases (rt_active_leases R) u)\<lparr>log := l, live := L'\<rparr>" "mset L' = G" using w' False by auto
      with False na w'(1) r(2) show ?thesis by (simp add: create_outcome_def with_leases_def)
    qed
  qed
qed

lemma create_outcome_refused:
  "\<not> aborted w' \<Longrightarrow> client_rt w' = R \<Longrightarrow> mset (live w') = G \<Longrightarrow> st \<noteq> 0 \<Longrightarrow> create_outcome env G R (st, False) w'"
  by (simp add: create_outcome_def)

lemma create_export_run:
  assumes run: "run_state (create_export env k sn mn on_spdk rtm opts out) w = (r, w')"
    and "\<And>eo. opts = Some eo \<Longrightarrow> export_readable k eo" and "limits_fit k sn mn" and "\<not> aborted w"
    and "leases_held w \<noteq> UINT64_MAX"
  shows "create_outcome env (mset (live w)) (client_rt w) r w'"
proof (cases "rtm \<and> out \<and> opts \<noteq> None \<and> export_valid k (the opts) \<and> \<not> on_spdk \<and> runtime_ready w")
  case False
  have "\<exists>st. validate_opts k rtm opts out = Some st \<and> (st = 0 \<longleftrightarrow> rtm \<and> out \<and> opts \<noteq> None \<and> export_valid k (the opts))"
    using assms(2) validate_opts_eq [of k "the opts" rtm out] by (cases opts) (auto simp: validate_opts_def)
  with False run have "w' = w \<and> snd r = False \<and> fst r \<noteq> 0"
    by (auto simp: create_export_def acquire_control_lease_run split: if_splits)
  with assms(4) show ?thesis using create_outcome_refused [of w "client_rt w" _ "fst r"] by (metis prod.collapse)
next
  case True
  then obtain eo where eo: "opts = Some eo" "export_valid k eo" "export_readable k eo" "runtime_ready w" "\<not> on_spdk" "rtm" "out"
    using assms(2) by auto
  have valid: "validate_opts k rtm opts out = Some 0" using validate_opts_eq [OF eo(3), of rtm out] eo by simp
  have held: "leases_held w + 1 \<noteq> 0" using assms(5) by (metis add_eq_0_iff2)
  let ?u = "with_leases (leases_held w + 1) w"
  let ?c = "Calloc Export_obj" and ?o = "rt_owner (client_rt w)"
  show ?thesis
  proof (cases "env (log w) ?c = 0")
    case True
    then have "r = (- ENOMEM, False)" "w' = w\<lparr>log := log w @ [?c]\<rparr>"
      using run eo valid held by (simp_all add: create_export_def acquire_control_lease_run release_control_lease_run with_leases_def)
    with assms(4) show ?thesis by (simp add: create_outcome_def)
  next
    case False
    define y where "y = ?u\<lparr>log := log w @ [?c], live := Export_obj # live w\<rparr>"
    obtain v where v: "run_state (copy_names env k ?o eo) y = ((), v)" by (metis old.unit.exhaust surj_pair)
    have run': "run_state (if strdup_failed eo (ex v) then do { free_export; release_control_lease; ret (- ENOMEM, False) }
        else create_copied env sn mn on_spdk eo) v = (r, w')"
      using False run eo valid v by (simp add: create_export_def acquire_control_lease_run y_def split: if_splits)
    have "mset (live y) = {#Export_obj#} + mset (live w)" by (simp add: y_def)
    from copy_names_run [OF v this] obtain l L where v': "v = y\<lparr>log := l, live := L, ex := ex v\<rparr>" "mset L = export_objs (ex v) + mset (live w)"
      "nothing_created (ex v)" "ex_traddr (ex v) = replicate (sizeof_traddr k) NUL" "ex_trsvcid (ex v) = replicate (sizeof_trsvcid k) NUL"
      "copied (eo_serial_number eo) (ex_serial_number (ex v))" "copied (eo_model_number eo) (ex_model_number (ex v))"
      by auto
    have v2: "\<not> aborted v" "client_rt v = (client_rt w)\<lparr>rt_active_leases := leases_held w + 1\<rparr>" "live v = L"
      using assms(4) by (subst v'(1), simp add: y_def with_leases_def)+
    show ?thesis
    proof (cases "strdup_failed eo (ex v)")
      case True
      obtain l2 L2 where f: "run_state free_export v = ((), v\<lparr>log := l2, live := L2\<rparr>)" "mset L2 = mset (live w)"
        using free_export_run [of v "mset (live w)"] v2(3) v'(2) by auto
      with True run' v2 held have "r = (- ENOMEM, False)" "w' = with_leases (leases_held w) (v\<lparr>log := l2, live := L2\<rparr>)"
        by (simp_all add: release_control_lease_run)
      with f(2) v2 show ?thesis by (simp add: create_outcome_def with_leases_def)
    next
      case False
      with run' have "run_state (create_copied env sn mn on_spdk eo) v = (r, w')" by simp
      from create_copied_run [OF this v2(1) _ v'(3-7) eo(3) _ assms(3) v2(2) held] v2(3) v'(2) eo(2,4) show ?thesis
        by (simp add: export_valid_def runtime_ready_def)
    qed
  qed
qed

lemma created_objs: "created h \<Longrightarrow> nvmf_objs h = {#Subsystem_listener, Target_listener, Nvmf_subsystem#}"
  by (simp add: created_def nvmf_objs_def)

lemma export_create_run:
  assumes "run_state (zettide_spdk_nvmf_tcp_export_create env k sn mn on_spdk rtm opts out) w = (r, w')"
    and "\<And>eo. opts = Some eo \<Longrightarrow> export_readable k eo" and "limits_fit k sn mn" and "\<not> aborted w"
    and "leases_held w \<noteq> UINT64_MAX"
  shows "create_outcome env (mset (live w)) (client_rt w) r w'"
proof (cases "env (log w) Pthread_setcancelstate = 0")
  case False
  with assms(1,4) show ?thesis by (auto simp: zettide_spdk_nvmf_tcp_export_create_def create_outcome_def)
next
  case True
  let ?w = "w\<lparr>log := log w @ [Pthread_setcancelstate]\<rparr>"
  obtain q v where v: "run_state (create_export env k sn mn on_spdk rtm opts out) ?w = (q, v)" by (rule prod.exhaust)
  have w': "r = q" "w' = v\<lparr>log := log v @ [Pthread_setcancelstate]\<rparr>"
    using True assms(1) v by (simp_all add: zettide_spdk_nvmf_tcp_export_create_def)
  have "create_outcome env (mset (live w)) (client_rt w) q v"
    using create_export_run [OF v assms(2,3)] assms(4,5) by simp
  then show ?thesis
    using w' by (auto simp: create_outcome_def)
qed

text \<open>
  C6: Creating an export.  It is handed out exactly when the call returns 0; then the subsystem, the
  listener of the target and that of the subsystem all exist, the export holds its copies of the strings
  and one lease.  On every other path, from each stage of the chain of callbacks, all that was built
  before is taken down, and memory and leases are as before.  The process aborts only if SPDK refuses to
  take something down; no string is copied past its array, and the command is not touched after it was
  completed.
\<close>

theorem export_create_outcome:
  assumes "run_state (zettide_spdk_nvmf_tcp_export_create env k sn mn on_spdk rtm opts out) w = ((st, published), w')"
    and "\<And>eo. opts = Some eo \<Longrightarrow> export_readable k eo" and "limits_fit k sn mn" and "\<not> aborted w"
    and "leases_held w \<noteq> UINT64_MAX"
  shows "(teardown_ok env \<longrightarrow> \<not> aborted w') \<and>
    (\<not> aborted w' \<longrightarrow> (published \<longleftrightarrow> st = 0) \<and>
      (if published then created (ex w') \<and> leases_held w' = leases_held w + 1 \<and>
         mset (live w') = {#Subsystem_listener, Target_listener, Nvmf_subsystem#} + export_objs (ex w') + mset (live w)
       else leases_held w' = leases_held w \<and> mset (live w') = mset (live w)))"
  using export_create_run [OF assms] created_objs [of "ex w'"] by (auto simp: create_outcome_def)

subsection \<open>Closing an export\<close>

text \<open>An export that was handed out and is not closed; \<open>G\<close> is what is held besides it.\<close>

definition export_open :: "obj multiset \<Rightarrow> 'x export_world_scheme \<Rightarrow> bool" where
  "export_open G w \<longleftrightarrow> \<not> aborted w \<and> leases_held w \<noteq> 0 \<and> holding (export_objs (ex w) + G) w"

definition close_outcome :: "env \<Rightarrow> obj multiset \<Rightarrow> int \<Rightarrow> 'x export_world_scheme \<Rightarrow> 'x export_world_scheme \<Rightarrow> bool" where
  "close_outcome env G st w w' \<longleftrightarrow>
     (if st = 0 then \<not> aborted w' \<and> client_rt w' = (client_rt w)\<lparr>rt_active_leases := leases_held w - 1\<rparr> \<and> mset (live w') = G
      else export_open G w' \<and> client_rt w' = client_rt w)"

lemma dispatch_close_run:
  assumes "run_state (dispatch_export_command env on_spdk Run_close (run_close env)) w = (st, u)" and "export_open G w"
  shows "export_open G u \<and> client_rt u = client_rt w \<and> (st = 0 \<longrightarrow> nvmf_objs (ex u) = {#})"
  using assms(1)
proof (cases rule: dispatch_export_run)
  case (refused l s)
  with assms(2) show ?thesis by (simp add: export_open_def holding_def)
next
  case (handled l l' x v)
  let ?F = "{#Command_condition, Command_mutex#} + (export_objs (ex w) + G)"
  have "holding ?F x" "ec_status x = None" "\<not> aborted x"
    using handled(1) assms(2) by (simp_all add: export_open_def holding_def)
  from run_close_run [OF handled(2) this] obtain s where c: "kept x v" "\<not> aborted v" "holding ?F v" "ec_status v = Some s"
    "s = 0 \<longrightarrow> nvmf_objs (ex v) = {#}" by (auto simp: close_done_def)
  have "{#Command_condition, Command_mutex#} \<subseteq># mset (live v)"
    using c(3) unfolding holding_def by (auto intro: subset_mset.add_increasing subset_mset.add_increasing2)
  with handled(4) c(4) have u: "s = st" "u = v\<lparr>log := l', live := remove1 Command_mutex (remove1 Command_condition (live v))\<rparr>"
    by simp_all
  have "mset (live u) = mset (live v) - {#Command_condition, Command_mutex#}" using u(2) by (simp add: add_mset_commute)
  moreover have "export_objs (ex u) = export_objs (ex w)" "client_rt u = client_rt w"
    using c(1) u(2) handled(1) export_objs_core [of "ex v" "ex x"] by (simp_all add: kept_def)
  ultimately show ?thesis
    using c(2,3,5) u assms(2) by (simp add: export_open_def holding_def)
qed

lemma close_export_run:
  assumes "run_state (close_export env on_spdk True) w = (st, w')" and "export_open G w"
  shows "close_outcome env G st w w'"
proof (cases on_spdk)
  case True
  with assms show ?thesis by (simp add: close_export_def close_outcome_def)
next
  case False
  obtain q u where d: "run_state (dispatch_export_command env on_spdk Run_close (run_close env)) w = (q, u)" by (rule prod.exhaust)
  note u = dispatch_close_run [OF d assms(2)]
  have w': "st = q" "w' = (if q = 0 then final (do { release_control_lease; free_export }) u else u)"
    using False assms(1) d by (auto simp: close_export_def split: if_splits prod.splits)
  show ?thesis
  proof (cases "q = 0")
    case True
    with u have "mset (live u) = export_objs (ex u) + G" "leases_held u \<noteq> 0" by (auto simp: export_open_def holding_def)
    from give_up_run [OF this] obtain l L where "w' = (with_leases (leases_held u - 1) u)\<lparr>log := l, live := L\<rparr>" "mset L = G"
      using True w'(2) by auto
    with True u w'(1) show ?thesis by (simp add: close_outcome_def export_open_def with_leases_def)
  next
    case False
    with u w' show ?thesis by (simp add: close_outcome_def)
  qed
qed

lemma close_run:
  assumes "run_state (zettide_spdk_nvmf_tcp_export_close env on_spdk True) w = (st, w')" and "export_open G w"
  shows "close_outcome env G st w w'"
proof (cases "env (log w) Pthread_setcancelstate = 0")
  case False
  with assms show ?thesis
    by (auto simp: zettide_spdk_nvmf_tcp_export_close_def close_outcome_def export_open_def holding_def)
next
  case True
  let ?w = "w\<lparr>log := log w @ [Pthread_setcancelstate]\<rparr>"
  obtain q v where v: "run_state (close_export env on_spdk True) ?w = (q, v)" by (rule prod.exhaust)
  have "export_open G ?w" using assms(2) by (simp add: export_open_def holding_def)
  from close_export_run [OF v this] True v assms(1) show ?thesis
    by (auto simp: zettide_spdk_nvmf_tcp_export_close_def close_outcome_def export_open_def holding_def)
qed

text \<open>A close that is not refused: the frame of the command is set up and SPDK takes everything down.\<close>

definition frame_ok :: "env \<Rightarrow> bool" where
  "frame_ok env \<longleftrightarrow> (\<forall>l. env l Pthread_setcancelstate = 0 \<and> env l Pthread_mutex_init = 0 \<and> env l Pthread_cond_init = 0) \<and>
     sends_accepted env"

lemma close_succeeds:
  assumes "export_open G w" and "frame_ok env" and "teardown_ok env"
  shows "fst (run_state (zettide_spdk_nvmf_tcp_export_close env False True) w) = 0"
proof -
  let ?c = Pthread_setcancelstate and ?m = Pthread_mutex_init and ?d = Pthread_cond_init
    and ?s = "Spdk_thread_send_msg (ex_owner (ex w)) Run_close"
  define x where "x = w\<lparr>live := Command_condition # Command_mutex # live w, ec_status := None, log := log w @ [?c, ?c, ?m, ?d, ?s]\<rparr>"
  obtain v where v: "run_state (run_close env) x = ((), v)" by (metis old.unit.exhaust surj_pair)
  have "holding ({#Command_condition, Command_mutex#} + (export_objs (ex w) + G)) x" "ec_status x = None" "\<not> aborted x"
    using assms(1) by (simp_all add: x_def export_open_def holding_def)
  from run_close_run [OF v this] assms(3) have "ec_status v = Some 0" by (auto simp: close_done_def)
  with v assms(2) show ?thesis
    by (simp add: zettide_spdk_nvmf_tcp_export_close_def close_export_def dispatch_export_command_def command_frame_def
        frame_ok_def sends_accepted_def x_def whenM_def split: prod.splits)
qed

text \<open>Attempts to close that were all refused.\<close>

fun close_attempts :: "env list \<Rightarrow> 'x export_world_scheme \<Rightarrow> 'x export_world_scheme option" where
  "close_attempts [] w = Some w"
| "close_attempts (env # envs) w =
     (case run_state (zettide_spdk_nvmf_tcp_export_close env False True) w of
        (st, w') \<Rightarrow> if st = 0 then None else close_attempts envs w')"

lemma close_attempts_open:
  "close_attempts envs w = Some w' \<Longrightarrow> export_open G w \<Longrightarrow> export_open G w' \<and> leases_held w' = leases_held w"
proof (induction envs arbitrary: w)
  case (Cons env envs)
  obtain st v where v: "run_state (zettide_spdk_nvmf_tcp_export_close env False True) w = (st, v)" by (rule prod.exhaust)
  with Cons.prems(1) have "st \<noteq> 0" "close_attempts envs v = Some w'" by (auto split: if_splits)
  with Cons.IH [of v] close_run [OF v Cons.prems(2)] show ?case by (simp add: close_outcome_def)
qed simp

text \<open>
  C7: Closing an export can be repeated.  Whatever SPDK refuses, and however often, a close that fails
  loses nothing: the handle still says exactly which of its parts exist, and the lease is held.  The next
  close in which SPDK takes down what is left returns 0, and then everything the export held, every part
  exactly once, and its lease are given back.  No handler touches the command or the export after
  completing the command.
\<close>

theorem export_close_resumable:
  assumes "export_open G w" and "close_attempts envs w = Some w1" and "frame_ok env" and "teardown_ok env"
    and "run_state (zettide_spdk_nvmf_tcp_export_close env False True) w1 = (st, w2)"
  shows "\<not> aborted w1 \<and> leases_held w1 = leases_held w \<and> mset (live w1) = nvmf_objs (ex w1) + export_objs (ex w1) + G \<and>
    st = 0 \<and> \<not> aborted w2 \<and> leases_held w2 = leases_held w - 1 \<and> mset (live w2) = G"
proof -
  have w1: "export_open G w1" "leases_held w1 = leases_held w" using close_attempts_open [OF assms(2,1)] by simp_all
  have "st = 0" using close_succeeds [OF w1(1) assms(3,4)] assms(5) by simp
  with close_run [OF assms(5) w1(1)] w1 show ?thesis
    by (simp add: close_outcome_def export_open_def holding_def add.assoc)
qed

subsection \<open>Examples\<close>

text \<open>The options of a caller that does not know the transport field, with all hosts allowed.\<close>

definition example_eo :: export_opts where
  "example_eo = \<lparr>eo_opts_size = 80, eo_target_name = None, eo_nqn = Some (''nqn.zettide'' @ [NUL]),
     eo_bdev_name = Some (''vol'' @ [NUL]), eo_serial_number = Some (''0001'' @ [NUL]), eo_model_number = None, eo_host_nqn = None,
     eo_traddr = Some (''10.0.0.1'' @ [NUL]), eo_trsvcid = Some (''4420'' @ [NUL]), eo_nsid = 1, eo_allow_any_host = True,
     eo_transport = None\<rparr>"

lemma example_eo_readable: "export_readable example_limits example_eo"
  by (simp add: export_readable_def string_readable_def readable_def example_eo_def ZETTIDE_SPDK_NVMF_TRANSPORT_OPTS_SIZE_def
      ZETTIDE_SPDK_NVMF_BASE_OPTS_SIZE_def)

theorem validate_opts_iff_witness:
  "validate_opts example_limits True (Some example_eo) True = Some 0"
  using validate_opts_iff [OF example_eo_readable, of True True]
  by (auto simp: string_ok_def example_eo_def example_limits_def)

abbreviation example_sn :: "char list" where "example_sn \<equiv> replicate (sizeof_sn example_limits) NUL"
abbreviation example_mn :: "char list" where "example_mn \<equiv> replicate (sizeof_mn example_limits) NUL"

lemma example_limits_fit: "limits_fit example_limits example_sn example_mn"
  by (simp add: limits_fit_def limits_ok_def example_limits_def)

definition export_ready :: export_world where
  "export_ready = \<lparr>log = [], aborted = False, live = [], mailbox = [],
     client_rt = zero_runtime\<lparr>rt_state := RUNTIME_READY, rt_owner := Some 1\<rparr>, ex = zero_export example_limits None,
     ec_status = None, ec_create_status = 0, sub_sn = [], sub_mn = []\<rparr>"

text \<open>Everything succeeds, but the listener of the subsystem, which the target refuses with \<open>status\<close>.\<close>

definition export_env :: "int \<Rightarrow> env" where
  "export_env status l c = (case c of Calloc x \<Rightarrow> 1 | Strdup x \<Rightarrow> 1 | Spdk_nvmf_get_tgt \<Rightarrow> 1 | Spdk_nvmf_subsystem_create_ext n \<Rightarrow> 1
     | Spdk_nvmf_subsystem_add_ns_ext n \<Rightarrow> uint n | Spdk_nvmf_subsystem_add_listener \<Rightarrow> status | _ \<Rightarrow> 0)"

abbreviation example_create :: "int \<Rightarrow> (export_world, int \<times> bool) state" where
  "example_create status \<equiv> zettide_spdk_nvmf_tcp_export_create (export_env status) example_limits example_sn example_mn False True
     (Some example_eo) True"

lemma example_created: "result (example_create status) export_ready = (if status = 0 then (0, True) else (status, False))"
proof -
  have "validate_opts example_limits True (Some example_eo) True = Some 0"
    using validate_opts_eq [OF example_eo_readable, of True True]
    by (simp add: export_valid_def export_fields_valid_def string_ok_def example_eo_def example_limits_def)
  moreover obtain a b c where "copy_string (replicate (sizeof_traddr example_limits) NUL) (the (eo_traddr example_eo)) = Some a"
    "copy_string (replicate (sizeof_trsvcid example_limits) NUL) (the (eo_trsvcid example_eo)) = Some b"
    "copy_string example_sn (''0001'' @ [NUL]) = Some c"
    using copy_string_fits [of "the (eo_traddr example_eo)" "replicate (sizeof_traddr example_limits) NUL"]
      copy_string_fits [of "the (eo_trsvcid example_eo)" "replicate (sizeof_trsvcid example_limits) NUL"]
      copy_string_fits [of "''0001'' @ [NUL]" example_sn]
    by (auto simp: example_eo_def example_limits_def)
  moreover have "eo_target_name example_eo = None" "\<exists>s. eo_nqn example_eo = Some s" "\<exists>s. eo_bdev_name example_eo = Some s"
    "eo_serial_number example_eo = Some (''0001'' @ [NUL])" "eo_model_number example_eo = None" "eo_host_nqn example_eo = None"
    "eo_nsid example_eo = 1" "eo_allow_any_host example_eo"
    by (simp_all add: example_eo_def)
  ultimately show ?thesis
    by (auto simp: zettide_spdk_nvmf_tcp_export_create_def create_export_def export_env_def export_ready_def
        acquire_control_lease_run runtime_ready_def with_leases_def copy_names_def strdup_optional_def strdup_failed_def
        create_copied_def zero_export_def dispatch_export_command_def command_frame_def run_create_def export_ops copy_optional_def
        fill_subsystem_def create_listener_added_def create_started_def fail_create_def rollback_create_def stop_subsystem_def
        create_rollback_stopped_def finish_create_rollback_def remove_subsystem_listener_def stop_target_listener_def spdk_remove_def
        destroy_subsystem_def split: prod.splits)
qed

lemma export_env_teardown: "teardown_ok (export_env status)"
  by (simp add: teardown_ok_def export_env_def)

theorem export_create_outcome_witness:
  "(\<exists>w'. run_state (example_create 0) export_ready = ((0, True), w') \<and> \<not> aborted w' \<and> created (ex w') \<and> leases_held w' = 1) \<and>
   (\<exists>w'. run_state (example_create (- EIO)) export_ready = ((- EIO, False), w') \<and> \<not> aborted w' \<and> live w' = [] \<and> leases_held w' = 0)"
proof -
  have run: "run_state (example_create s) export_ready = (if s = 0 then (0, True) else (s, False), final (example_create s) export_ready)" for s
    using example_created by (simp add: prod_eq_iff)
  have "\<not> aborted export_ready" "leases_held export_ready = 0" "live export_ready = []" "leases_held export_ready \<noteq> UINT64_MAX"
    by (simp_all add: export_ready_def zero_runtime_def)
  with run [of 0] run [of "- EIO"] export_env_teardown
    export_create_outcome [of "export_env 0" example_limits example_sn example_mn False True "Some example_eo" True export_ready 0 True]
    export_create_outcome [of "export_env (- EIO)" example_limits example_sn example_mn False True "Some example_eo" True export_ready "- EIO" False]
    example_eo_readable example_limits_fit
  show ?thesis by simp blast
qed

text \<open>An export that runs, and an attempt to close it in which the target does not let go of its listener.\<close>

definition export_running :: export_world where
  "export_running = export_ready\<lparr>client_rt := (client_rt export_ready)\<lparr>rt_active_leases := 1\<rparr>,
     live := [Subsystem_listener, Target_listener, Nvmf_subsystem, Export_obj],
     ex := (ex export_ready)\<lparr>ex_target := True, ex_subsystem := True, ex_target_listener_started := True, ex_subsystem_listener_added := True\<rparr>\<rparr>"

definition busy_listener :: env where
  "busy_listener l c = (if c = Spdk_nvmf_tgt_stop_listen then - EBUSY else 0)"

lemma busy_attempt: "\<exists>w1. close_attempts [busy_listener] export_running = Some w1"
  by (simp add: busy_listener_def export_running_def export_ready_def zero_export_def zettide_spdk_nvmf_tcp_export_close_def close_export_def
      dispatch_export_command_def command_frame_def run_close_def export_ops stop_subsystem_def close_stopped_def continue_close_def
      remove_subsystem_listener_def stop_target_listener_def spdk_remove_def)

theorem export_close_resumable_witness:
  "\<exists>w1 w2. close_attempts [busy_listener] export_running = Some w1 \<and> leases_held w1 = 1 \<and>
     run_state (zettide_spdk_nvmf_tcp_export_close (\<lambda>_ _. 0) False True) w1 = (0, w2) \<and> live w2 = [] \<and> leases_held w2 = 0"
proof -
  obtain w1 where w1: "close_attempts [busy_listener] export_running = Some w1" using busy_attempt by blast
  obtain st w2 where w2: "run_state (zettide_spdk_nvmf_tcp_export_close (\<lambda>_ _. 0) False True) w1 = (st, w2)" by (rule prod.exhaust)
  have "export_open {#} export_running" "leases_held export_running = 1"
    by (simp_all add: export_open_def holding_def nvmf_objs_def export_objs_def export_ptrs_def export_running_def export_ready_def zero_export_def)
  moreover have "frame_ok (\<lambda>_ _. 0)" "teardown_ok (\<lambda>_ _. 0)" by (simp_all add: frame_ok_def sends_accepted_def teardown_ok_def)
  ultimately show ?thesis
    using export_close_resumable [OF _ w1 _ _ w2, of "{#}"] w1 w2 by simp
qed

end
