(* ===== verification/Options.thy ===== *)
theory Options
  imports Runtime_Lifecycle Provider_Life Controller_Life Export_Life
begin

text \<open>
  The four functions that initialise a caller's options.  The caller says how large its structure is, and
  may have been compiled against another version of it; the structure is therefore the list of its bytes,
  and a write past its end is \<open>None\<close>.  What the functions have in common is a locale, which is interpreted
  on each of them.  The layout of the structures is that of LP64, little endian.
\<close>

subsection \<open>Bytes\<close>

fun bytes_of :: "nat \<Rightarrow> nat \<Rightarrow> u8 list" where
  "bytes_of 0 v = []"
| "bytes_of (Suc n) v = word_of_nat (v mod 256) # bytes_of n (v div 256)"

fun nat_of_bytes :: "u8 list \<Rightarrow> nat" where
  "nat_of_bytes [] = 0"
| "nat_of_bytes (b # bs) = unat b + 256 * nat_of_bytes bs"

text \<open>Reading and writing a field of \<open>n\<close> bytes.\<close>

definition load :: "nat \<Rightarrow> nat \<Rightarrow> u8 list \<Rightarrow> nat" where
  "load n offset bs = nat_of_bytes (take n (drop offset bs))"

definition store :: "nat \<Rightarrow> nat \<Rightarrow> nat \<Rightarrow> u8 list \<Rightarrow> u8 list option" where
  "store n offset v bs =
     (if offset + n \<le> length bs then Some (take offset bs @ bytes_of n v @ drop (offset + n) bs) else None)"

definition memset_zero :: "nat \<Rightarrow> u8 list \<Rightarrow> u8 list option" where
  "memset_zero n bs = (if n \<le> length bs then Some (replicate n 0 @ drop n bs) else None)"

lemma length_bytes_of [simp]: "length (bytes_of n v) = n"
  by (induction n arbitrary: v) simp_all

lemma nat_of_bytes_of [simp]: "nat_of_bytes (bytes_of n v) = v mod 256 ^ n"
proof (induction n arbitrary: v)
  case (Suc n)
  have "unat (word_of_nat (v mod 256) :: u8) = v mod 256" by (simp add: unat_of_nat)
  with Suc show ?case by (simp add: mod_mult2_eq)
qed simp

lemma nat_of_zeros [simp]: "nat_of_bytes (replicate n 0) = 0"
  by (induction n) simp_all

lemma load_zeros: "offset + n \<le> m \<Longrightarrow> load n offset (replicate m 0 @ bs) = 0"
  by (simp add: load_def)

lemma load_append: "offset + n \<le> length bs \<Longrightarrow> load n offset (bs @ cs) = load n offset bs"
  by (simp add: load_def)

lemma load_store_same: "store n offset v bs = Some bs' \<Longrightarrow> load n offset bs' = v mod 256 ^ n"
  by (auto simp: store_def load_def split: if_splits)

lemma load_store_other:
  assumes "store n offset v bs = Some bs'" and "offset' + n' \<le> offset \<or> offset + n \<le> offset'"
  shows "load n' offset' bs' = load n' offset' bs"
  using assms
  by (auto simp: store_def load_def take_drop min_def split: if_splits)

lemma store_some: "offset + n \<le> length bs \<Longrightarrow> \<exists>bs'. store n offset v bs = Some bs' \<and> length bs' = length bs"
  by (simp add: store_def)

lemma store_tail: "store n offset v bs = Some bs' \<Longrightarrow> offset + n \<le> m \<Longrightarrow> drop m bs' = drop m bs"
  by (auto simp: store_def split: if_splits)

subsection \<open>The functions\<close>

definition zettide_spdk_runtime_opts_init :: "u8 list option \<Rightarrow> size_t \<Rightarrow> u8 list option option" where
  "zettide_spdk_runtime_opts_init opts opts_size =
     (case opts of
        None \<Rightarrow> Some None
      | Some bs \<Rightarrow>
          if opts_size = 0 then Some (Some bs)
          else do {
            bs \<leftarrow> memset_zero (unat opts_size) bs;
            if opts_size \<ge> sizeof_runtime_opts then do {
              bs \<leftarrow> store 8 0 (unat opts_size) bs;
              bs \<leftarrow> store 1 46 1 bs;
              Some (Some bs)
            } else Some (Some bs)
          })"

definition zettide_spdk_bdev_provider_opts_init :: "u8 list option \<Rightarrow> size_t \<Rightarrow> u8 list option option" where
  "zettide_spdk_bdev_provider_opts_init opts opts_size =
     (case opts of
        None \<Rightarrow> Some None
      | Some bs \<Rightarrow>
          if opts_size = 0 then Some (Some bs)
          else do {
            bs \<leftarrow> memset_zero (unat opts_size) bs;
            if opts_size \<ge> sizeof_provider_opts then do {
              bs \<leftarrow> store 8 0 (unat opts_size) bs;
              bs \<leftarrow> store 4 16 4096 bs;
              bs \<leftarrow> store 4 32 1 bs;
              bs \<leftarrow> store 4 36 256 bs;
              Some (Some bs)
            } else Some (Some bs)
          })"

text \<open>\<open>service_id\<close> is the address of the literal \<^verbatim>\<open>"4420"\<close>.\<close>

definition zettide_spdk_nvme_controller_opts_init :: "u64 \<Rightarrow> u8 list option \<Rightarrow> size_t \<Rightarrow> u8 list option option" where
  "zettide_spdk_nvme_controller_opts_init service_id opts opts_size =
     (case opts of
        None \<Rightarrow> Some None
      | Some bs \<Rightarrow>
          if opts_size = 0 then Some (Some bs)
          else do {
            bs \<leftarrow> memset_zero (unat opts_size) bs;
            if opts_size \<ge> sizeof_controller_opts then do {
              bs \<leftarrow> store 8 0 (unat opts_size) bs;
              bs \<leftarrow> store 4 16 (unat ZETTIDE_SPDK_NVME_TRANSPORT_TCP) bs;
              bs \<leftarrow> store 4 20 (unat ZETTIDE_SPDK_NVME_ADDRESS_FAMILY_IPV4) bs;
              bs \<leftarrow> store 8 32 (unat service_id) bs;
              bs \<leftarrow> store 8 56 10000000 bs;
              bs \<leftarrow> store 4 64 128 bs;
              Some (Some bs)
            } else Some (Some bs)
          })"

definition zettide_spdk_nvmf_tcp_export_opts_init :: "u8 list option \<Rightarrow> size_t \<Rightarrow> u8 list option option" where
  "zettide_spdk_nvmf_tcp_export_opts_init opts opts_size =
     (case opts of
        None \<Rightarrow> Some None
      | Some bs \<Rightarrow>
          if opts_size = 0 then Some (Some bs)
          else do {
            bs \<leftarrow> memset_zero (unat opts_size) bs;
            if opts_size \<ge> ZETTIDE_SPDK_NVMF_BASE_OPTS_SIZE then do {
              bs \<leftarrow> store 8 0 (unat opts_size) bs;
              bs \<leftarrow> store 4 72 1 bs;
              Some (Some bs)
            } else Some (Some bs)
          })"

subsection \<open>What they have in common\<close>

text \<open>
  A caller's structure of \<open>opts_size\<close> bytes is zeroed; if it is at least \<open>threshold\<close> bytes long, its size
  is recorded in its first field.  Nothing behind it is touched.
\<close>

locale opts_initializer =
  fixes init :: "u8 list option \<Rightarrow> size_t \<Rightarrow> u8 list option option"
    and threshold :: nat
  assumes init_null: "init None n = Some None"
    and init_zero: "init (Some bs) 0 = Some (Some bs)"
    and init_small: "n \<noteq> 0 \<Longrightarrow> unat n < threshold \<Longrightarrow> unat n \<le> length bs \<Longrightarrow>
      init (Some bs) n = Some (Some (replicate (unat n) 0 @ drop (unat n) bs))"
    and init_large: "threshold \<le> unat n \<Longrightarrow> unat n \<le> length bs \<Longrightarrow>
      \<exists>bs'. init (Some bs) n = Some (Some bs') \<and> length bs' = length bs \<and> drop (unat n) bs' = drop (unat n) bs \<and> load 8 0 bs' = unat n"
    and init_overrun: "length bs < unat n \<Longrightarrow> init (Some bs) n = None"
    and threshold_size: "8 \<le> threshold"
begin

lemma init_defined: "init (Some bs) n \<noteq> None \<longleftrightarrow> unat n \<le> length bs"
proof (cases "unat n \<le> length bs")
  case True
  then show ?thesis
    using init_zero [of bs] init_small [of n bs] init_large [of n bs] by (cases "n = 0"; cases "unat n < threshold") auto
qed (simp add: init_overrun)

lemma init_confined:
  assumes "init (Some bs) n = Some (Some bs')"
  shows "length bs' = length bs \<and> drop (unat n) bs' = drop (unat n) bs"
proof -
  have "unat n \<le> length bs" using init_defined [of bs n] assms by simp
  then show ?thesis
    using assms init_zero [of bs] init_small [of n bs] init_large [of n bs] by (cases "n = 0"; cases "unat n < threshold") auto
qed

lemma init_records_size:
  assumes "init (Some bs) n = Some (Some bs')" and "8 \<le> unat n"
  shows "load 8 0 bs' = (if threshold \<le> unat n then unat n else 0)"
proof -
  have "unat n \<le> length bs" using init_defined [of bs n] assms by simp
  moreover have "n \<noteq> 0" using assms(2) by auto
  ultimately show ?thesis
    using assms init_small [of n bs] init_large [of n bs] by (cases "unat n < threshold") (auto simp: load_zeros)
qed

end

text \<open>The stores of a function, as a list of sizes, offsets and values.\<close>

fun stores :: "(nat \<times> nat \<times> nat) list \<Rightarrow> u8 list \<Rightarrow> u8 list option" where
  "stores [] bs = Some bs"
| "stores (f # fs) bs = do { bs \<leftarrow> store (fst f) (fst (snd f)) (snd (snd f)) bs; stores fs bs }"

definition apart :: "nat \<Rightarrow> nat \<Rightarrow> nat \<times> nat \<times> nat \<Rightarrow> bool" where
  "apart n offset f \<longleftrightarrow> offset + n \<le> fst (snd f) \<or> fst (snd f) + fst f \<le> offset"

lemma stores_run:
  assumes "\<forall>f \<in> set fs. fst (snd f) + fst f \<le> m" and "m \<le> length bs"
  shows "\<exists>bs'. stores fs bs = Some bs' \<and> length bs' = length bs \<and> drop m bs' = drop m bs \<and>
    (\<forall>n offset. list_all (apart n offset) fs \<longrightarrow> load n offset bs' = load n offset bs)"
  using assms
proof (induction fs arbitrary: bs)
  case (Cons f fs)
  obtain b where b: "store (fst f) (fst (snd f)) (snd (snd f)) bs = Some b" "length b = length bs"
    using store_some [of "fst (snd f)" "fst f" bs] Cons.prems by fastforce
  have "drop m b = drop m bs" using store_tail [OF b(1)] Cons.prems(1) by simp
  moreover have "load n offset b = load n offset bs" if "apart n offset f" for n offset
    using load_store_other [OF b(1)] that by (simp add: apart_def)
  ultimately show ?case using Cons.IH [of b] Cons.prems b by auto
qed simp

definition init_with :: "size_t \<Rightarrow> (nat \<times> nat \<times> nat) list \<Rightarrow> u8 list option \<Rightarrow> size_t \<Rightarrow> u8 list option option" where
  "init_with sz fs opts n =
     (case opts of
        None \<Rightarrow> Some None
      | Some bs \<Rightarrow>
          if n = 0 then Some (Some bs)
          else do {
            bs \<leftarrow> memset_zero (unat n) bs;
            if n \<ge> sz then map_option Some (stores ((8, 0, unat n) # fs) bs) else Some (Some bs)
          })"

lemma init_with_initializer:
  assumes "\<forall>f \<in> set fs. 8 \<le> fst (snd f) \<and> fst (snd f) + fst f \<le> unat sz" and "8 \<le> unat sz"
  shows "opts_initializer (init_with sz fs) (unat sz)"
proof
  fix bs :: "u8 list" and n :: size_t
  show "init_with sz fs None n = Some None" "init_with sz fs (Some bs) 0 = Some (Some bs)" "8 \<le> unat sz"
    using assms(2) by (simp_all add: init_with_def)
  show "init_with sz fs (Some bs) n = Some (Some (replicate (unat n) 0 @ drop (unat n) bs))"
    if "n \<noteq> 0" "unat n < unat sz" "unat n \<le> length bs"
    using that by (simp add: init_with_def memset_zero_def word_le_nat_alt)
  show "init_with sz fs (Some bs) n = None" if "length bs < unat n"
    using that by (auto simp: init_with_def memset_zero_def)
  assume n: "unat sz \<le> unat n" "unat n \<le> length bs"
  let ?b = "replicate (unat n) 0 @ drop (unat n) bs"
  obtain b where b: "store 8 0 (unat n) ?b = Some b" "length b = length ?b"
    using store_some [of 0 8 ?b] n assms(2) by auto
  have "\<forall>f \<in> set fs. fst (snd f) + fst f \<le> unat n" using assms(1) n(1) by (meson order_trans)
  moreover have "unat n \<le> length b" using b(2) n by simp
  ultimately obtain b' where b': "stores fs b = Some b'" "length b' = length b" "drop (unat n) b' = drop (unat n) b"
    "list_all (apart 8 0) fs \<longrightarrow> load 8 0 b' = load 8 0 b"
    using stores_run [of fs "unat n" b] by blast
  have "list_all (apart 8 0) fs" using assms(1) by (auto simp: list_all_iff apart_def)
  moreover have "drop (unat n) b = drop (unat n) bs" using store_tail [OF b(1), of "unat n"] n assms(2) by simp
  moreover have "load 8 0 b = unat n"
    using load_store_same [OF b(1)] unsigned_less [of n, where ?'a = nat] by simp
  moreover have "n \<noteq> 0" using n assms(2) by auto
  moreover have "init_with sz fs (Some bs) n = Some (Some b')"
    using \<open>n \<noteq> 0\<close> n b b' by (simp add: init_with_def memset_zero_def word_le_nat_alt)
  ultimately show "\<exists>bs'. init_with sz fs (Some bs) n = Some (Some bs') \<and> length bs' = length bs \<and>
      drop (unat n) bs' = drop (unat n) bs \<and> load 8 0 bs' = unat n"
    using b b' n by simp
qed

lemma map_option_bind: "map_option f (Option.bind m g) = Option.bind m (\<lambda>x. map_option f (g x))"
  by (cases m) simp_all

lemmas init_defs = zettide_spdk_runtime_opts_init_def zettide_spdk_bdev_provider_opts_init_def
  zettide_spdk_nvme_controller_opts_init_def zettide_spdk_nvmf_tcp_export_opts_init_def

lemma init_with_eqs:
  "zettide_spdk_runtime_opts_init = init_with sizeof_runtime_opts [(1, 46, 1)]"
  "zettide_spdk_bdev_provider_opts_init = init_with sizeof_provider_opts [(4, 16, 4096), (4, 32, 1), (4, 36, 256)]"
  "zettide_spdk_nvme_controller_opts_init p = init_with sizeof_controller_opts
     [(4, 16, 0), (4, 20, 1), (8, 32, unat p), (8, 56, 10000000), (4, 64, 128)]"
  "zettide_spdk_nvmf_tcp_export_opts_init = init_with ZETTIDE_SPDK_NVMF_BASE_OPTS_SIZE [(4, 72, 1)]"
  by (intro ext, simp add: init_defs init_with_def map_option_bind cong: if_cong option.case_cong)+


interpretation runtime_init: opts_initializer zettide_spdk_runtime_opts_init 56
  using init_with_initializer [of "[(1, 46, 1)]" sizeof_runtime_opts] unfolding init_with_eqs
  by (simp add: sizeof_runtime_opts_def)

interpretation provider_init: opts_initializer zettide_spdk_bdev_provider_opts_init 64
  using init_with_initializer [of "[(4, 16, 4096), (4, 32, 1), (4, 36, 256)]" sizeof_provider_opts] unfolding init_with_eqs
  by (simp add: sizeof_provider_opts_def)

interpretation controller_init: opts_initializer "zettide_spdk_nvme_controller_opts_init p" 72 for p
  using init_with_initializer [of "[(4, 16, 0), (4, 20, 1), (8, 32, unat p), (8, 56, 10000000), (4, 64, 128)]" sizeof_controller_opts]
  unfolding init_with_eqs by (simp add: sizeof_controller_opts_def)

interpretation export_init: opts_initializer zettide_spdk_nvmf_tcp_export_opts_init 80
  using init_with_initializer [of "[(4, 72, 1)]" ZETTIDE_SPDK_NVMF_BASE_OPTS_SIZE] unfolding init_with_eqs
  by (simp add: ZETTIDE_SPDK_NVMF_BASE_OPTS_SIZE_def)

text \<open>
  C39: Initialising options.  Each of the four functions writes out of bounds exactly when the caller gives
  a size larger than its structure; otherwise no byte behind the given size changes, and the size is
  recorded, for the later checks, exactly when the structure is large enough to have the fields that the
  function sets.
\<close>

theorem opts_init_confined:
  assumes "init \<in> {(zettide_spdk_runtime_opts_init, 56), (zettide_spdk_bdev_provider_opts_init, 64),
      (zettide_spdk_nvme_controller_opts_init p, 72), (zettide_spdk_nvmf_tcp_export_opts_init, 80)}"
    and "8 \<le> unat n"
  shows "(fst init (Some bs) n \<noteq> None \<longleftrightarrow> unat n \<le> length bs) \<and>
    (\<forall>bs'. fst init (Some bs) n = Some (Some bs') \<longrightarrow>
       length bs' = length bs \<and> drop (unat n) bs' = drop (unat n) bs \<and> load 8 0 bs' = (if snd init \<le> unat n then unat n else 0))"
proof -
  have "opts_initializer (fst init) (snd init)"
    using assms(1) runtime_init.opts_initializer_axioms provider_init.opts_initializer_axioms controller_init.opts_initializer_axioms
      export_init.opts_initializer_axioms by auto
  from opts_initializer.init_defined [OF this] opts_initializer.init_confined [OF this] opts_initializer.init_records_size [OF this]
  show ?thesis using assms(2) by blast
qed

theorem opts_init_confined_witness:
  "\<exists>bs'. zettide_spdk_bdev_provider_opts_init (Some (replicate 70 7)) 64 = Some (Some bs') \<and>
     drop 64 bs' = replicate 6 7 \<and> load 8 0 bs' = 64"
  using provider_init.init_large [of 64 "replicate 70 7"]
    opts_init_confined [of "(zettide_spdk_bdev_provider_opts_init, 64)" 0 64 "replicate 70 7"] by auto

subsection \<open>Initialised options\<close>

lemma stores_load:
  "stores (xs @ (n, offset, v) # ys) bs = Some bs' \<Longrightarrow> list_all (apart n offset) ys \<Longrightarrow> load n offset bs' = v mod 256 ^ n"
proof (induction xs arbitrary: bs)
  case Nil
  then obtain b where b: "store n offset v bs = Some b" "stores ys b = Some bs'" by (auto simp: Option.bind_eq_Some_conv)
  have "load n offset bs' = load n offset b"
    using b(2) Nil.prems(2)
  proof (induction ys arbitrary: b)
    case (Cons f ys)
    then obtain c where c: "store (fst f) (fst (snd f)) (snd (snd f)) b = Some c" "stores ys c = Some bs'"
      by (auto simp: Option.bind_eq_Some_conv)
    with Cons load_store_other [OF c(1), of offset n] show ?case by (auto simp: apart_def)
  qed simp
  with load_store_same [OF b(1)] show ?case by simp
next
  case (Cons f xs)
  then show ?case by (auto simp: Option.bind_eq_Some_conv)
qed

text \<open>The fields of initialised options: those that were set, and the others, which are zero.\<close>

lemma init_with_fields:
  assumes "\<forall>f \<in> set fs. 8 \<le> fst (snd f) \<and> fst (snd f) + fst f \<le> unat sz" and "8 \<le> unat sz" and "sz \<le> n" and "unat n \<le> length bs"
  obtains bs' where "init_with sz fs (Some bs) n = Some (Some bs')" and "load 8 0 bs' = unat n"
    and "\<And>k offset. offset + k \<le> unat n \<Longrightarrow> 8 \<le> offset \<Longrightarrow> list_all (apart k offset) fs \<Longrightarrow> load k offset bs' = 0"
    and "\<And>xs k offset v ys. fs = xs @ (k, offset, v) # ys \<Longrightarrow> list_all (apart k offset) ys \<Longrightarrow> load k offset bs' = v mod 256 ^ k"
proof -
  let ?b = "replicate (unat n) 0 @ drop (unat n) bs" and ?fs = "(8, 0, unat n) # fs"
  have n: "unat sz \<le> unat n" using assms(3) by (simp add: word_le_nat_alt)
  have "\<forall>f \<in> set ?fs. fst (snd f) + fst f \<le> unat n" using assms(1,2) n by auto
  then obtain bs' where bs': "stores ?fs ?b = Some bs'" "\<And>k offset. list_all (apart k offset) ?fs \<Longrightarrow> load k offset bs' = load k offset ?b"
    using stores_run [of ?fs "unat n" ?b] assms(4) by (auto simp del: stores.simps)
  show thesis
  proof (rule that)
    show "init_with sz fs (Some bs) n = Some (Some bs')"
      using bs'(1) assms n by (auto simp: init_with_def memset_zero_def simp del: stores.simps)
    have "list_all (apart 8 0) fs" using assms(1) by (auto simp: list_all_iff apart_def)
    then show "load 8 0 bs' = unat n"
      using stores_load [of "[]" 8 0 "unat n" fs ?b bs'] bs'(1) unsigned_less [of n, where ?'a = nat] by (simp del: stores.simps)
    show "load k offset bs' = 0" if "offset + k \<le> unat n" "8 \<le> offset" "list_all (apart k offset) fs" for k offset
      using bs'(2) [of k offset] that n load_zeros [of offset k "unat n"] by (simp add: apart_def)
    show "load k offset bs' = v mod 256 ^ k" if "fs = xs @ (k, offset, v) # ys" "list_all (apart k offset) ys" for xs k offset v ys
      using stores_load [of "(8, 0, unat n) # xs" k offset v ys ?b bs'] that bs'(1) by (simp del: stores.simps)
  qed
qed

text \<open>The structures at an address, given the memory their pointers point to.\<close>

definition ptr_at :: "(u64 \<Rightarrow> 'a) \<Rightarrow> nat \<Rightarrow> u8 list \<Rightarrow> 'a option" where
  "ptr_at deref offset bs = (if load 8 offset bs = 0 then None else Some (deref (word_of_nat (load 8 offset bs))))"

definition runtime_opts_at :: "(u64 \<Rightarrow> string) \<Rightarrow> (u64 \<Rightarrow> u8 list) \<Rightarrow> u8 list \<Rightarrow> runtime_opts" where
  "runtime_opts_at deref blob bs = \<lparr>ro_opts_size = word_of_nat (load 8 0 bs), ro_name = ptr_at deref 8 bs,
     ro_reactor_mask = ptr_at deref 16 bs, ro_json_data = ptr_at blob 24 bs, ro_json_data_size = word_of_nat (load 8 32 bs),
     ro_mem_size_mb = sint (word_of_nat (load 4 40 bs) :: u32), ro_no_pci = (load 1 44 bs \<noteq> 0), ro_no_huge = (load 1 45 bs \<noteq> 0),
     ro_disable_signal_handlers = (load 1 46 bs \<noteq> 0), ro_disable_cpumask_locks = (load 1 47 bs \<noteq> 0),
     ro_retired_vhost_socket_path = ptr_at deref 48 bs\<rparr>"

definition provider_opts_at :: "(u64 \<Rightarrow> string) \<Rightarrow> u8 list \<Rightarrow> provider_opts" where
  "provider_opts_at deref bs = \<lparr>po_opts_size = word_of_nat (load 8 0 bs), po_name = ptr_at deref 8 bs,
     po_block_size = word_of_nat (load 4 16 bs), po_block_count = word_of_nat (load 8 24 bs),
     po_write_unit_blocks = word_of_nat (load 4 32 bs), po_max_io_blocks = word_of_nat (load 4 36 bs),
     po_submit = (load 8 48 bs \<noteq> 0), po_read_buffers_unchanged = (load 1 56 bs \<noteq> 0)\<rparr>"

definition controller_opts_at :: "(u64 \<Rightarrow> cstring) \<Rightarrow> u8 list \<Rightarrow> controller_opts" where
  "controller_opts_at deref bs = \<lparr>co_opts_size = word_of_nat (load 8 0 bs), co_name = ptr_at deref 8 bs,
     co_transport = word_of_nat (load 4 16 bs), co_address_family = word_of_nat (load 4 20 bs),
     co_transport_address = ptr_at deref 24 bs, co_transport_service_id = ptr_at deref 32 bs, co_subsystem_nqn = ptr_at deref 40 bs,
     co_host_nqn = ptr_at deref 48 bs, co_connect_timeout_us = word_of_nat (load 8 56 bs),
     co_namespace_name_capacity = word_of_nat (load 4 64 bs)\<rparr>"

definition export_opts_at :: "(u64 \<Rightarrow> cstring) \<Rightarrow> u8 list \<Rightarrow> export_opts" where
  "export_opts_at deref bs = \<lparr>eo_opts_size = word_of_nat (load 8 0 bs), eo_target_name = ptr_at deref 8 bs, eo_nqn = ptr_at deref 16 bs,
     eo_bdev_name = ptr_at deref 24 bs, eo_serial_number = ptr_at deref 32 bs, eo_model_number = ptr_at deref 40 bs,
     eo_host_nqn = ptr_at deref 48 bs, eo_traddr = ptr_at deref 56 bs, eo_trsvcid = ptr_at deref 64 bs,
     eo_nsid = word_of_nat (load 4 72 bs), eo_allow_any_host = (load 1 76 bs \<noteq> 0),
     eo_transport = (if 84 \<le> length bs then Some (word_of_nat (load 4 80 bs)) else None)\<rparr>"

lemma runtime_opts_accepted:
  assumes "56 \<le> length bs"
  shows "\<exists>r. zettide_spdk_runtime_opts_init (Some bs) sizeof_runtime_opts = Some (Some r) \<and>
    \<not> start_args_invalid (Some ((runtime_opts_at deref blob r)\<lparr>ro_name := Some name\<rparr>)) True"
proof -
  let ?fs = "[(1, 46, 1)]"
  have sz: "unat sizeof_runtime_opts = 56" by (simp add: sizeof_runtime_opts_def)
  obtain r where r: "zettide_spdk_runtime_opts_init (Some bs) sizeof_runtime_opts = Some (Some r)" "load 8 0 r = unat sizeof_runtime_opts"
    "\<And>k offset. offset + k \<le> unat sizeof_runtime_opts \<Longrightarrow> 8 \<le> offset \<Longrightarrow> list_all (apart k offset) ?fs \<Longrightarrow> load k offset r = 0"
    "\<And>xs k offset v ys. ?fs = xs @ (k, offset, v) # ys \<Longrightarrow> list_all (apart k offset) ys \<Longrightarrow> load k offset r = v mod 256 ^ k"
    unfolding init_with_eqs by (rule init_with_fields [of ?fs sizeof_runtime_opts sizeof_runtime_opts bs]) (use assms sz in auto)
  then show ?thesis
    using r(4) [of "[]" 1 46 1 "[]"]
    by (intro exI [of _ r]) (simp add: start_args_invalid_def runtime_opts_at_def ptr_at_def sizeof_runtime_opts_def apart_def)
qed

lemma provider_opts_accepted:
  assumes "64 \<le> length bs" and "0 < unat c" and "unat c * 4096 < 2 ^ 64"
  shows "\<exists>r. zettide_spdk_bdev_provider_opts_init (Some bs) sizeof_provider_opts = Some (Some r) \<and>
    \<not> provider_opts_invalid ((provider_opts_at deref r)\<lparr>po_name := Some name, po_submit := True, po_block_count := c\<rparr>)"
proof -
  let ?fs = "[(4, 16, 4096), (4, 32, 1), (4, 36, 256)]"
  have sz: "unat sizeof_provider_opts = 64" by (simp add: sizeof_provider_opts_def)
  obtain r where r: "zettide_spdk_bdev_provider_opts_init (Some bs) sizeof_provider_opts = Some (Some r)" "load 8 0 r = unat sizeof_provider_opts"
    "\<And>xs k offset v ys. ?fs = xs @ (k, offset, v) # ys \<Longrightarrow> list_all (apart k offset) ys \<Longrightarrow> load k offset r = v mod 256 ^ k"
    unfolding init_with_eqs by (rule init_with_fields [of ?fs sizeof_provider_opts sizeof_provider_opts bs]) (use assms sz in auto)
  have "load 4 16 r = 4096" "load 4 32 r = 1" "load 4 36 r = 256"
    using r(3) [of "[]" 4 16 4096] r(3) [of "[(4, 16, 4096)]" 4 32 1] r(3) [of "[(4, 16, 4096), (4, 32, 1)]" 4 36 256]
    by (simp_all add: apart_def)
  moreover have "c \<noteq> 0" using assms(2) by auto
  moreover have "\<not> c > UINT64_MAX div 4096" using max_div_iff [of 4096 c] assms(3) by simp
  moreover have "\<not> (1 :: u64) > c" using assms(2) by (simp add: word_less_nat_alt)
  ultimately show ?thesis
    using r(1,2) by (intro exI [of _ r]) (simp add: provider_opts_invalid_def provider_opts_at_def sizeof_provider_opts_def)
qed

lemma controller_opts_accepted:
  assumes "72 \<le> length bs" and "service_id \<noteq> 0" and "string_fits (sizeof_trsvcid k) (Some (deref service_id))"
    and "string_fits (sizeof_traddr k) (Some address)" and "string_fits (sizeof_subnqn k) (Some nqn)"
  shows "\<exists>r. zettide_spdk_nvme_controller_opts_init service_id (Some bs) sizeof_controller_opts = Some (Some r) \<and>
    (let co = (controller_opts_at deref r)\<lparr>co_name := Some name, co_transport_address := Some address, co_subsystem_nqn := Some nqn\<rparr> in
     \<not> attach_args_invalid True (Some co) True \<and> connection_valid k co)"
proof -
  let ?fs = "[(4, 16, 0), (4, 20, 1), (8, 32, unat service_id), (8, 56, 10000000), (4, 64, 128)]"
  have sz: "unat sizeof_controller_opts = 72" by (simp add: sizeof_controller_opts_def)
  obtain r where r: "zettide_spdk_nvme_controller_opts_init service_id (Some bs) sizeof_controller_opts = Some (Some r)"
    "load 8 0 r = unat sizeof_controller_opts"
    "\<And>k offset. offset + k \<le> unat sizeof_controller_opts \<Longrightarrow> 8 \<le> offset \<Longrightarrow> list_all (apart k offset) ?fs \<Longrightarrow> load k offset r = 0"
    "\<And>xs k offset v ys. ?fs = xs @ (k, offset, v) # ys \<Longrightarrow> list_all (apart k offset) ys \<Longrightarrow> load k offset r = v mod 256 ^ k"
    unfolding init_with_eqs by (rule init_with_fields [of ?fs sizeof_controller_opts sizeof_controller_opts bs]) (use assms sz in auto)
  have "load 4 16 r = 0" "load 4 20 r = 1" "load 8 32 r = unat service_id" "load 4 64 r = 128" "load 8 48 r = 0"
    using r(4) [of "[]" 4 16 0] r(4) [of "[(4, 16, 0)]" 4 20 1] r(4) [of "[(4, 16, 0), (4, 20, 1)]" 8 32 "unat service_id"]
      r(4) [of "[(4, 16, 0), (4, 20, 1), (8, 32, unat service_id), (8, 56, 10000000)]" 4 64 128] r(3) [of 48 8]
      unsigned_less [of service_id, where ?'a = nat]
    by (simp_all add: apart_def sz)
  then show ?thesis
    using r(1,2) assms(2-) by (intro exI [of _ r])
      (simp add: attach_args_invalid_def connection_valid_def controller_opts_at_def ptr_at_def sizeof_controller_opts_def Let_def unat_eq_0)
qed

lemma export_opts_accepted:
  assumes "88 \<le> length bs" and "string_ok (SPDK_NVMF_NQN_MAX_LEN k) False (Some nqn)" and "string_ok 255 False (Some bdev)"
    and "string_ok (SPDK_NVMF_TRADDR_MAX_LEN k) False (Some address)" and "string_ok (SPDK_NVMF_TRSVCID_MAX_LEN k) False (Some service)"
    and "\<forall>s \<in> {nqn, bdev, address, service}. NUL \<in> set s"
  shows "\<exists>r. zettide_spdk_nvmf_tcp_export_opts_init (Some bs) 88 = Some (Some r) \<and>
    validate_opts k True (Some ((export_opts_at deref r)\<lparr>eo_nqn := Some nqn, eo_bdev_name := Some bdev, eo_traddr := Some address,
      eo_trsvcid := Some service, eo_allow_any_host := True\<rparr>)) True = Some 0"
proof -
  let ?fs = "[(4, 72, 1)]" and ?b = "ZETTIDE_SPDK_NVMF_BASE_OPTS_SIZE"
  have sz: "unat ?b = 80" "?b \<le> 88" by (simp_all add: ZETTIDE_SPDK_NVMF_BASE_OPTS_SIZE_def)
  obtain r where r: "zettide_spdk_nvmf_tcp_export_opts_init (Some bs) 88 = Some (Some r)" "load 8 0 r = unat (88 :: size_t)"
    "\<And>k offset. offset + k \<le> unat (88 :: size_t) \<Longrightarrow> 8 \<le> offset \<Longrightarrow> list_all (apart k offset) ?fs \<Longrightarrow> load k offset r = 0"
    "\<And>xs k offset v ys. ?fs = xs @ (k, offset, v) # ys \<Longrightarrow> list_all (apart k offset) ys \<Longrightarrow> load k offset r = v mod 256 ^ k"
    unfolding init_with_eqs by (rule init_with_fields [of ?fs ?b 88 bs]) (use assms sz in auto)
  let ?eo = "(export_opts_at deref r)\<lparr>eo_nqn := Some nqn, eo_bdev_name := Some bdev, eo_traddr := Some address,
      eo_trsvcid := Some service, eo_allow_any_host := True\<rparr>"
  have "length r = length bs" using export_init.init_confined [OF r(1)] by simp
  have "load 4 72 r = 1" "load 4 80 r = 0" "load 8 8 r = 0" "load 8 32 r = 0" "load 8 40 r = 0" "load 8 48 r = 0"
    using r(4) [of "[]" 4 72 1] r(3) [of 8 8] r(3) [of 32 8] r(3) [of 40 8] r(3) [of 48 8] r(3) [of 80 4]
    by (simp_all add: apart_def)
  then have f: "export_valid k ?eo" "export_readable k ?eo"
    using r(2) assms \<open>length r = length bs\<close>
    by (simp_all add: export_valid_def export_fields_valid_def export_opts_at_def ptr_at_def string_ok_def export_readable_def
        string_readable_def readable_def)
  then show ?thesis
    using r(1) validate_opts_eq [OF f(2), of True True] by (intro exI [of _ r]) simp
qed
text \<open>
  C40: The defaults are usable.  Options that were initialised with the size of their structure, and in
  which the caller filled in only what has no default, pass the checks of the function they are for: a
  name for the runtime; a name, a backend and a block count for the provider, as long as the device has
  less than \<open>2 ^ 64\<close> bytes; a name, an address and a subsystem for the controller; a subsystem, a bdev and
  an address with all hosts allowed for the export.
\<close>

theorem initialised_options_accepted:
  assumes "88 \<le> length bs" and "0 < unat c" and "unat c * 4096 < 2 ^ 64" and "limits_ok k"
    and "service_id \<noteq> 0" and "string_ok (SPDK_NVMF_TRSVCID_MAX_LEN k) False (Some (deref service_id))"
    and "string_ok (SPDK_NVMF_NQN_MAX_LEN k) False (Some nqn)" and "string_ok 255 False (Some bdev)"
    and "string_ok (SPDK_NVMF_TRADDR_MAX_LEN k) False (Some address)" and "string_ok (SPDK_NVMF_TRSVCID_MAX_LEN k) False (Some service)"
    and "\<forall>s \<in> {nqn, bdev, address, service}. NUL \<in> set s"
  shows "(\<exists>r. zettide_spdk_runtime_opts_init (Some bs) sizeof_runtime_opts = Some (Some r) \<and>
      \<not> start_args_invalid (Some ((runtime_opts_at str blob r)\<lparr>ro_name := Some name\<rparr>)) True) \<and>
    (\<exists>r. zettide_spdk_bdev_provider_opts_init (Some bs) sizeof_provider_opts = Some (Some r) \<and>
      \<not> provider_opts_invalid ((provider_opts_at str r)\<lparr>po_name := Some name, po_submit := True, po_block_count := c\<rparr>)) \<and>
    (\<exists>r. zettide_spdk_nvme_controller_opts_init service_id (Some bs) sizeof_controller_opts = Some (Some r) \<and>
      (let co = (controller_opts_at deref r)\<lparr>co_name := Some name, co_transport_address := Some address, co_subsystem_nqn := Some nqn\<rparr> in
       \<not> attach_args_invalid True (Some co) True \<and> connection_valid k co)) \<and>
    (\<exists>r. zettide_spdk_nvmf_tcp_export_opts_init (Some bs) 88 = Some (Some r) \<and>
      validate_opts k True (Some ((export_opts_at deref r)\<lparr>eo_nqn := Some nqn, eo_bdev_name := Some bdev, eo_traddr := Some address,
         eo_trsvcid := Some service, eo_allow_any_host := True\<rparr>)) True = Some 0)"
proof -
  have fits: "string_fits (sizeof_trsvcid k) (Some (deref service_id))" "string_fits (sizeof_traddr k) (Some address)"
    "string_fits (sizeof_subnqn k) (Some nqn)"
    using assms(4,6,7,9) by (simp_all add: string_fits_def string_ok_def limits_ok_def)
  have l: "56 \<le> length bs" "64 \<le> length bs" "72 \<le> length bs" using assms(1) by simp_all
  show ?thesis
    by (intro conjI runtime_opts_accepted [OF l(1)] provider_opts_accepted [OF l(2) assms(2,3)]
        controller_opts_accepted [where deref = deref, OF l(3) assms(5) fits] export_opts_accepted [OF assms(1,7-11)])
qed

theorem initialised_options_accepted_witness:
  "\<exists>r. zettide_spdk_nvme_controller_opts_init 1 (Some (replicate 88 7)) sizeof_controller_opts = Some (Some r) \<and>
     (let co = (controller_opts_at (\<lambda>_. ''4420'' @ [NUL]) r)\<lparr>co_name := Some ''Nvme0'', co_transport_address := Some (''10.0.0.1'' @ [NUL]),
        co_subsystem_nqn := Some (''nqn.zettide'' @ [NUL])\<rparr> in
      \<not> attach_args_invalid True (Some co) True \<and> connection_valid example_limits co)"
  using initialised_options_accepted [where bs = "replicate 88 7" and c = 1 and k = example_limits and service_id = 1
      and deref = "\<lambda>_. ''4420'' @ [NUL]" and nqn = "''nqn.zettide'' @ [NUL]" and bdev = "''vol'' @ [NUL]"
      and address = "''10.0.0.1'' @ [NUL]" and service = "''4420'' @ [NUL]" and name = "''Nvme0''"]
  by (simp add: string_ok_def limits_ok_def example_limits_def del: replicate.simps)

end
