(* ===== verification/Node.thy ===== *)
theory Node
  imports Runtime_Lifecycle Provider_Life Controller_Life Export_Life Dispatcher
begin

text \<open>
  The components together: one published runtime and any number of providers, controllers, exports and
  dispatchers that hold its leases.  Each object has a world of its own, which says what it holds; the
  runtime is shared.  An operation of a client is one step; the functions of the runtime interleave with
  them as in \<open>rt_step\<close>.
\<close>

subsection \<open>Clients of the runtime\<close>




subsection \<open>The operations\<close>































subsection \<open>The node\<close>






















end
